theory Spec2Isabelle
  imports Main "HOL-Library.Word"
begin

unbundle bit_operations_syntax

section \<open>Package dialect: the table of per-message decoder/encoders\<close>

text \<open>
  \<^verbatim>\<open>dialect.NewDecEncoder\<close> (src/dialect/decencoder.go) walks \<^verbatim>\<open>d.Messages\<close> in order.
  For each message it first looks the id up in the table built so far and returns the
  error \<^verbatim>\<open>duplicate message with id %d\<close> when it is present; then it calls
  \<^verbatim>\<open>msg.NewDecEncoder\<close> and returns \<^verbatim>\<open>message %T: %s\<close> when that fails; otherwise
  it stores the plan under the id.

  The message type, its \<^verbatim>\<open>GetId\<close> method and \<^verbatim>\<open>msg.NewDecEncoder\<close> are parameters
  of the model: \<open>getId\<close> and \<open>newDE\<close>. The Go map is a partial function from the
  32-bit id.
\<close>

datatype ('m, 'e) dialectError =
    DuplicateMessage "32 word"
  | MessageError 'm 'e

record 'm Dialect =
  Messages :: "'m list"

record 'de DialectDecEncoder =
  MessageDEs :: "32 word \<rightharpoonup> 'de"

fun newDecEncoderLoop ::
  "('m \<Rightarrow> 32 word) \<Rightarrow> ('m \<Rightarrow> 'e + 'de) \<Rightarrow> (32 word \<rightharpoonup> 'de) \<Rightarrow> 'm list
    \<Rightarrow> ('m, 'e) dialectError + (32 word \<rightharpoonup> 'de)" where
  "newDecEncoderLoop getId newDE tbl [] = Inr tbl"
| "newDecEncoderLoop getId newDE tbl (m # ms) =
     (if tbl (getId m) \<noteq> None then Inl (DuplicateMessage (getId m))
      else (case newDE m of
              Inl err \<Rightarrow> Inl (MessageError m err)
            | Inr de \<Rightarrow> newDecEncoderLoop getId newDE (tbl(getId m \<mapsto> de)) ms))"

definition dialectNewDecEncoder ::
  "('m \<Rightarrow> 32 word) \<Rightarrow> ('m \<Rightarrow> 'e + 'de) \<Rightarrow> 'm Dialect
    \<Rightarrow> ('m, 'e) dialectError + 'de DialectDecEncoder" where
  "dialectNewDecEncoder getId newDE d =
     (case newDecEncoderLoop getId newDE Map.empty (Messages d) of
        Inl err \<Rightarrow> Inl err
      | Inr tbl \<Rightarrow> Inr \<lparr>MessageDEs = tbl\<rparr>)"

subsection \<open>The loop's result\<close>

lemma newDecEncoderLoop_success:
  "newDecEncoderLoop getId newDE tbl ms = Inr tbl' \<Longrightarrow>
     distinct (map getId ms) \<and>
     getId ` set ms \<inter> dom tbl = {} \<and>
     dom tbl' = dom tbl \<union> getId ` set ms \<and>
     (\<forall>k \<in> dom tbl. tbl' k = tbl k) \<and>
     (\<forall>m \<in> set ms. \<exists>de. newDE m = Inr de \<and> tbl' (getId m) = Some de)"
proof (induction ms arbitrary: tbl)
  case Nil
  then show ?case by simp
next
  case (Cons m ms)
  from Cons.prems have fresh: "tbl (getId m) = None"
    by (simp split: if_splits)
  from Cons.prems fresh obtain de where de: "newDE m = Inr de"
    and rest: "newDecEncoderLoop getId newDE (tbl(getId m \<mapsto> de)) ms = Inr tbl'"
    by (cases "newDE m") auto
  note ih = Cons.IH [OF rest]
  from ih have d: "distinct (map getId ms)" by blast
  from ih have disj: "getId ` set ms \<inter> dom (tbl(getId m \<mapsto> de)) = {}" by blast
  from ih have dm: "dom tbl' = dom (tbl(getId m \<mapsto> de)) \<union> getId ` set ms" by blast
  from ih have keep: "\<forall>k \<in> dom (tbl(getId m \<mapsto> de)). tbl' k = (tbl(getId m \<mapsto> de)) k" by blast
  from ih have each: "\<forall>x \<in> set ms. \<exists>de'. newDE x = Inr de' \<and> tbl' (getId x) = Some de'" by blast
  from disj have notin: "getId m \<notin> getId ` set ms" by auto
  have c1: "distinct (map getId (m # ms))" using d notin by simp
  have c2: "getId ` set (m # ms) \<inter> dom tbl = {}" using disj fresh by auto
  have c3: "dom tbl' = dom tbl \<union> getId ` set (m # ms)" using dm by auto
  have c4: "\<forall>k \<in> dom tbl. tbl' k = tbl k"
  proof
    fix k assume k: "k \<in> dom tbl"
    then have "k \<noteq> getId m" using fresh by auto
    then show "tbl' k = tbl k" using keep k by auto
  qed
  have here: "tbl' (getId m) = Some de" using keep by simp
  have c5: "\<forall>x \<in> set (m # ms). \<exists>de'. newDE x = Inr de' \<and> tbl' (getId x) = Some de'"
    using each de here by auto
  from c1 c2 c3 c4 c5 show ?case by blast
qed

lemma newDecEncoderLoop_duplicate:
  "\<not> distinct (map getId ms) \<or> getId ` set ms \<inter> dom tbl \<noteq> {} \<Longrightarrow>
     \<exists>err. newDecEncoderLoop getId newDE tbl ms = Inl err"
proof (cases "newDecEncoderLoop getId newDE tbl ms")
  case (Inl err)
  then show ?thesis by blast
next
  case (Inr tbl')
  assume bad: "\<not> distinct (map getId ms) \<or> getId ` set ms \<inter> dom tbl \<noteq> {}"
  from newDecEncoderLoop_success [OF Inr] bad show ?thesis by blast
qed

subsection \<open>Unique message ids\<close>

text \<open>
  Claim C6. Constructing the table fails with an error whenever two messages of the
  dialect declare the same id; when it succeeds, the ids of the dialect's messages are
  pairwise different, the table's keys are exactly these ids, and each id is mapped to
  the plan that \<^verbatim>\<open>msg.NewDecEncoder\<close> built for the one message that declares it.
\<close>

theorem dialect_ids_unique:
  "(\<not> distinct (map getId (Messages d)) \<longrightarrow>
      (\<exists>err. dialectNewDecEncoder getId newDE d = Inl err)) \<and>
   (\<forall>dde. dialectNewDecEncoder getId newDE d = Inr dde \<longrightarrow>
      distinct (map getId (Messages d)) \<and>
      dom (MessageDEs dde) = getId ` set (Messages d) \<and>
      (\<forall>m \<in> set (Messages d). \<exists>de. newDE m = Inr de \<and> MessageDEs dde (getId m) = Some de))"
proof (intro conjI impI allI)
  assume "\<not> distinct (map getId (Messages d))"
  then have "\<exists>err. newDecEncoderLoop getId newDE Map.empty (Messages d) = Inl err"
    by (intro newDecEncoderLoop_duplicate) simp
  then show "\<exists>err. dialectNewDecEncoder getId newDE d = Inl err"
    by (auto simp: dialectNewDecEncoder_def)
next
  fix dde
  assume ok: "dialectNewDecEncoder getId newDE d = Inr dde"
  then have loop: "newDecEncoderLoop getId newDE Map.empty (Messages d) = Inr (MessageDEs dde)"
    by (auto simp: dialectNewDecEncoder_def split: sum.splits)
  note r = newDecEncoderLoop_success [OF loop]
  from r show "distinct (map getId (Messages d))" by blast
  from r show "dom (MessageDEs dde) = getId ` set (Messages d)" by simp
  from r show "\<forall>m \<in> set (Messages d). \<exists>de. newDE m = Inr de \<and> MessageDEs dde (getId m) = Some de"
    by blast
qed

text \<open>
  The theorem at two dialects whose messages are an id and a name and whose plan is the
  name: the first repeats id 0 and is refused, the second is accepted.
\<close>

theorem dialect_ids_unique_witness:
  "\<not> distinct (map fst [(0 :: 32 word, ''HEARTBEAT''), (1, ''SYS_STATUS''), (0, ''HEARTBEAT'')]) \<and>
   (\<exists>err. dialectNewDecEncoder fst (\<lambda>m. Inr (snd m) :: unit + string)
       \<lparr>Messages = [(0, ''HEARTBEAT''), (1, ''SYS_STATUS''), (0, ''HEARTBEAT'')]\<rparr> = Inl err) \<and>
   (\<exists>dde. dialectNewDecEncoder fst (\<lambda>m. Inr (snd m) :: unit + string)
       \<lparr>Messages = [(0, ''HEARTBEAT''), (1, ''SYS_STATUS'')]\<rparr> = Inr dde \<and>
      distinct (map fst [(0 :: 32 word, ''HEARTBEAT''), (1, ''SYS_STATUS'')]) \<and>
      dom (MessageDEs dde) = {0, 1} \<and>
      MessageDEs dde 0 = Some ''HEARTBEAT'' \<and> MessageDEs dde 1 = Some ''SYS_STATUS'')"
proof -
  let ?mk = "\<lambda>m :: 32 word \<times> string. Inr (snd m) :: unit + string"
  let ?bad = "\<lparr>Messages = [(0 :: 32 word, ''HEARTBEAT''), (1, ''SYS_STATUS''), (0, ''HEARTBEAT'')]\<rparr>"
  let ?good = "\<lparr>Messages = [(0 :: 32 word, ''HEARTBEAT''), (1, ''SYS_STATUS'')]\<rparr>"
  have dup: "\<not> distinct (map fst (Messages ?bad))" by simp
  from dialect_ids_unique [of fst ?bad ?mk] dup
  have a: "\<exists>err. dialectNewDecEncoder fst ?mk ?bad = Inl err" by blast
  obtain dde where ok: "dialectNewDecEncoder fst ?mk ?good = Inr dde"
    by (simp add: dialectNewDecEncoder_def)
  from dialect_ids_unique [of fst ?good ?mk] ok
  have b: "distinct (map fst (Messages ?good))" "dom (MessageDEs dde) = fst ` set (Messages ?good)"
    "\<forall>m \<in> set (Messages ?good). \<exists>de. ?mk m = Inr de \<and> MessageDEs dde (fst m) = Some de"
    by blast+
  from b(3) have c: "MessageDEs dde 0 = Some ''HEARTBEAT''" "MessageDEs dde 1 = Some ''SYS_STATUS''"
    by simp_all
  from b(2) have d: "dom (MessageDEs dde) = {0, 1}" by simp
  from dup a ok b(1) c d show ?thesis by simp
qed


section \<open>Package udplistener: per-peer connections over one datagram socket\<close>

text \<open>
  src/udplistener/udplistener.go. The listener owns a registry \<^verbatim>\<open>conns\<close> from
  \<^verbatim>\<open>udpListenerConnIndex\<close> (four address bytes and a port) to pointers to
  \<^verbatim>\<open>udpListenerConn\<close> objects. The objects live in a store (\<open>objs\<close>, a pointer is a
  position in it) because a connection handed out by \<^verbatim>\<open>Accept\<close> stays reachable after
  it has been deleted from the registry.

  A \<^verbatim>\<open>time.Time\<close> is a natural number, \<open>0\<close> being the zero time (\<^verbatim>\<open>IsZero\<close>).
  The unbuffered channels \<^verbatim>\<open>acceptc\<close> and \<^verbatim>\<open>conn.read\<close> are modelled by their closed
  flag and by the log of the values sent on them; a send on a closed channel and a
  method call through a pointer to no object are panics. Every function below is one
  critical section of \<^verbatim>\<open>readMutex\<close>, run to its end: the model takes the receiver of
  each send to be present.
\<close>

type_synonym byte = "8 word"

record UDPAddr =
  IP :: "byte list"
  Port :: int

type_synonym udpListenerConnIndex = "byte list \<times> int"

record udpListenerConn =
  index :: udpListenerConnIndex
  addr :: UDPAddr
  closed :: bool
  readDeadline :: nat
  writeDeadline :: nat
  readChanClosed :: bool

record UDPListener =
  packetConnClosed :: bool
  conns :: "udpListenerConnIndex \<rightharpoonup> nat"
  listenerClosed :: bool
  acceptcClosed :: bool
  acceptcSent :: "nat list"
  readSent :: "(nat \<times> byte list) list"
  objs :: "udpListenerConn list"

datatype panic = SendOnClosedChannel | NilPointer

datatype netError = udpErrorTimeout | udpErrorTerminated

text \<open>\<^verbatim>\<open>newConn\<close>: every field but index, address and channel is Go's zero value.\<close>

definition newConn :: "udpListenerConnIndex \<Rightarrow> UDPAddr \<Rightarrow> udpListenerConn" where
  "newConn ix uaddr =
     \<lparr>index = ix, addr = uaddr, closed = False, readDeadline = 0, writeDeadline = 0,
      readChanClosed = False\<rparr>"

text \<open>\<^verbatim>\<open>New\<close>, after \<^verbatim>\<open>net.ListenPacket\<close> has succeeded.\<close>

definition udpListenerNew :: UDPListener where
  "udpListenerNew =
     \<lparr>packetConnClosed = False, conns = Map.empty, listenerClosed = False,
      acceptcClosed = False, acceptcSent = [], readSent = [], objs = []\<rparr>"

text \<open>
  \<^verbatim>\<open>connIndex.Port = uaddr.Port; copy(connIndex.IP[:], uaddr.IP)\<close>: \<^verbatim>\<open>copy\<close> moves
  as many bytes as the shorter side has, the rest of the four-byte array stays zero.
\<close>

definition connIndexOf :: "UDPAddr \<Rightarrow> udpListenerConnIndex" where
  "connIndexOf uaddr = (take 4 (IP uaddr) @ replicate (4 - length (IP uaddr)) 0, Port uaddr)"

text \<open>\<^verbatim>\<open>l.acceptc <- conn\<close> and \<^verbatim>\<open>conn.read <- buf[:n]; <-l.readDone\<close>.\<close>

definition sendAccept :: "UDPListener \<Rightarrow> nat \<Rightarrow> panic + UDPListener" where
  "sendAccept l p =
     (if acceptcClosed l then Inl SendOnClosedChannel
      else Inr (l\<lparr>acceptcSent := acceptcSent l @ [p]\<rparr>))"

definition sendRead :: "UDPListener \<Rightarrow> nat \<Rightarrow> byte list \<Rightarrow> panic + UDPListener" where
  "sendRead l p buf =
     (if length (objs l) \<le> p then Inl NilPointer
      else if readChanClosed (objs l ! p) then Inl SendOnClosedChannel
      else Inr (l\<lparr>readSent := readSent l @ [(p, buf)]\<rparr>))"

text \<open>
  The body of the \<^verbatim>\<open>reader\<close> loop for one datagram \<^verbatim>\<open>buf[:n]\<close> received from
  \<^verbatim>\<open>uaddr\<close>.
\<close>

definition readerDispatch :: "UDPListener \<Rightarrow> UDPAddr \<Rightarrow> byte list \<Rightarrow> panic + UDPListener" where
  "readerDispatch l uaddr buf =
     (let connIndex = connIndexOf uaddr in
      case conns l connIndex of
        None \<Rightarrow>
          if listenerClosed l then Inr l
          else
            (let p = length (objs l);
                 l1 = l\<lparr>objs := objs l @ [newConn connIndex uaddr],
                        conns := (conns l)(connIndex \<mapsto> p)\<rparr>
             in case sendAccept l1 p of
                  Inl e \<Rightarrow> Inl e
                | Inr l2 \<Rightarrow> sendRead l2 p buf)
      | Some p \<Rightarrow> sendRead l p buf)"

text \<open>\<^verbatim>\<open>(*UDPListener).Close\<close>.\<close>

definition listenerClose :: "UDPListener \<Rightarrow> UDPListener" where
  "listenerClose l =
     (if listenerClosed l then l
      else
        (let l1 = l\<lparr>listenerClosed := True, acceptcClosed := True\<rparr>
         in if dom (conns l1) = {} then l1\<lparr>packetConnClosed := True\<rparr> else l1))"

text \<open>\<^verbatim>\<open>(*udpListenerConn).Close\<close>, called on the object at \<open>p\<close>.\<close>

definition connClose :: "UDPListener \<Rightarrow> nat \<Rightarrow> panic + UDPListener" where
  "connClose l p =
     (if length (objs l) \<le> p then Inl NilPointer
      else
        (let c = objs l ! p in
         if closed c then Inr l
         else
           (let l1 = l\<lparr>objs := (objs l)[p := c\<lparr>closed := True, readChanClosed := True\<rparr>],
                       conns := (conns l)(index c := None)\<rparr>
            in if listenerClosed l1 \<and> dom (conns l1) = {}
               then Inr (l1\<lparr>packetConnClosed := True\<rparr>)
               else Inr l1)))"

text \<open>\<^verbatim>\<open>SetReadDeadline\<close> and \<^verbatim>\<open>SetWriteDeadline\<close> (neither takes the lock).\<close>

definition connSetReadDeadline :: "UDPListener \<Rightarrow> nat \<Rightarrow> nat \<Rightarrow> panic + UDPListener" where
  "connSetReadDeadline l p t =
     (if length (objs l) \<le> p then Inl NilPointer
      else Inr (l\<lparr>objs := (objs l)[p := (objs l ! p)\<lparr>readDeadline := t\<rparr>]\<rparr>))"

definition connSetWriteDeadline :: "UDPListener \<Rightarrow> nat \<Rightarrow> nat \<Rightarrow> panic + UDPListener" where
  "connSetWriteDeadline l p t =
     (if length (objs l) \<le> p then Inl NilPointer
      else Inr (l\<lparr>objs := (objs l)[p := (objs l ! p)\<lparr>writeDeadline := t\<rparr>]\<rparr>))"

text \<open>
  \<^verbatim>\<open>(*udpListenerConn).Read\<close> reads the connection's deadline and its channel, and
  writes nothing of the listener. The argument \<open>recv\<close> is what the channel yields
  before the timer fires: \<open>None\<close> when nothing does, \<open>Some None\<close> when the channel is
  found closed, \<open>Some (Some buf)\<close> for a datagram. With the zero deadline there is no
  timer, and a \<^verbatim>\<open>Read\<close> that is given nothing never returns (the result \<open>None\<close>).
  The result is the bytes copied into the caller's buffer of length \<open>n\<close>, the count
  returned, and the error.
\<close>

definition connRead ::
  "udpListenerConn \<Rightarrow> nat \<Rightarrow> byte list option option
    \<Rightarrow> (byte list \<times> nat \<times> netError option) option" where
  "connRead c n recv =
     (case recv of
        None \<Rightarrow> if readDeadline c \<noteq> 0 then Some ([], 0, Some udpErrorTimeout) else None
      | Some None \<Rightarrow> Some ([], 0, Some udpErrorTerminated)
      | Some (Some buf) \<Rightarrow> Some (take n buf, length buf, None))"

text \<open>
  The calls that write the listener's state, as one type, and a run of them. A run
  stops at the first panic.
\<close>

datatype listenerOp =
    OpDatagram UDPAddr "byte list"
  | OpListenerClose
  | OpConnClose nat
  | OpSetReadDeadline nat nat
  | OpSetWriteDeadline nat nat

fun listenerStep :: "UDPListener \<Rightarrow> listenerOp \<Rightarrow> panic + UDPListener" where
  "listenerStep l (OpDatagram uaddr buf) = readerDispatch l uaddr buf"
| "listenerStep l OpListenerClose = Inr (listenerClose l)"
| "listenerStep l (OpConnClose p) = connClose l p"
| "listenerStep l (OpSetReadDeadline p t) = connSetReadDeadline l p t"
| "listenerStep l (OpSetWriteDeadline p t) = connSetWriteDeadline l p t"

fun listenerRun :: "UDPListener \<Rightarrow> listenerOp list \<Rightarrow> panic + UDPListener" where
  "listenerRun l [] = Inr l"
| "listenerRun l (x # xs) =
     (case listenerStep l x of Inl e \<Rightarrow> Inl e | Inr l' \<Rightarrow> listenerRun l' xs)"

text \<open>
  The pointer an operation is called through. Go code holds only pointers that
  \<^verbatim>\<open>Accept\<close> gave it, so they point to objects of the store.
\<close>

fun opPointerOk :: "UDPListener \<Rightarrow> listenerOp \<Rightarrow> bool" where
  "opPointerOk l (OpConnClose p) = (p < length (objs l))"
| "opPointerOk l (OpSetReadDeadline p t) = (p < length (objs l))"
| "opPointerOk l (OpSetWriteDeadline p t) = (p < length (objs l))"
| "opPointerOk l _ = True"

text \<open>
  The invariant of the registry: it holds exactly the connections that are not closed,
  each under its own index; a connection's channel is closed with the connection, and
  the accept channel with the listener.
\<close>

definition registered :: "UDPListener \<Rightarrow> bool" where
  "registered l =
     ((\<forall>ix p. conns l ix = Some p \<longrightarrow>
          p < length (objs l) \<and> index (objs l ! p) = ix \<and> \<not> closed (objs l ! p)) \<and>
      (\<forall>p < length (objs l). \<not> closed (objs l ! p) \<longrightarrow> conns l (index (objs l ! p)) = Some p) \<and>
      (\<forall>p < length (objs l). readChanClosed (objs l ! p) = closed (objs l ! p)) \<and>
      acceptcClosed l = listenerClosed l)"

text \<open>Two peers, for the examples below.\<close>

definition peerA :: UDPAddr where
  "peerA = \<lparr>IP = [10, 0, 0, 1], Port = 14550\<rparr>"

definition peerB :: UDPAddr where
  "peerB = \<lparr>IP = [10, 0, 0, 2], Port = 14550\<rparr>"

subsection \<open>The invariant is kept; no operation panics\<close>

lemma listenerClose_eq:
  "listenerClose l =
     (if listenerClosed l then l
      else l\<lparr>listenerClosed := True, acceptcClosed := True,
             packetConnClosed := (dom (conns l) = {} \<or> packetConnClosed l)\<rparr>)"
proof (cases "dom (conns l) = {}")
  case True
  then show ?thesis
    unfolding listenerClose_def Let_def by (simp del: dom_eq_empty_conv)
next
  case False
  then show ?thesis
    unfolding listenerClose_def Let_def by (simp del: dom_eq_empty_conv)
qed

lemma connClose_eq:
  "connClose l p =
     (if length (objs l) \<le> p then Inl NilPointer
      else if closed (objs l ! p) then Inr l
      else Inr (l\<lparr>objs := (objs l)[p := (objs l ! p)\<lparr>closed := True, readChanClosed := True\<rparr>],
                  conns := (conns l)(index (objs l ! p) := None),
                  packetConnClosed :=
                    (listenerClosed l \<and> dom ((conns l)(index (objs l ! p) := None)) = {}
                     \<or> packetConnClosed l)\<rparr>))"
  by (cases "listenerClosed l"; cases "dom ((conns l)(index (objs l ! p) := None)) = {}")
    (simp_all add: connClose_def Let_def del: dom_eq_empty_conv dom_fun_upd)


lemma registered_udpListenerNew: "registered udpListenerNew"
  by (simp add: registered_def udpListenerNew_def)

lemma readerDispatch_existing:
  assumes "registered l" and "conns l (connIndexOf uaddr) = Some p"
  shows "readerDispatch l uaddr buf = Inr (l\<lparr>readSent := readSent l @ [(p, buf)]\<rparr>)"
proof -
  from assms have "p < length (objs l)" and "\<not> closed (objs l ! p)"
    unfolding registered_def by blast+
  moreover from this assms(1) have "\<not> readChanClosed (objs l ! p)"
    unfolding registered_def by blast
  ultimately show ?thesis using assms(2)
    by (simp add: readerDispatch_def sendRead_def)
qed

lemma readerDispatch_dropped:
  "listenerClosed l \<Longrightarrow> conns l (connIndexOf uaddr) = None \<Longrightarrow> readerDispatch l uaddr buf = Inr l"
  by (simp add: readerDispatch_def)

lemma readerDispatch_fresh:
  assumes "registered l" and "conns l (connIndexOf uaddr) = None" and "\<not> listenerClosed l"
  shows "readerDispatch l uaddr buf =
     Inr (l\<lparr>objs := objs l @ [newConn (connIndexOf uaddr) uaddr],
            conns := (conns l)(connIndexOf uaddr \<mapsto> length (objs l)),
            acceptcSent := acceptcSent l @ [length (objs l)],
            readSent := readSent l @ [(length (objs l), buf)]\<rparr>)"
proof -
  from assms(1,3) have "\<not> acceptcClosed l" unfolding registered_def by blast
  then show ?thesis using assms(2,3)
    by (simp add: readerDispatch_def sendAccept_def sendRead_def Let_def newConn_def)
qed

lemma registered_readSent:
  "registered (l\<lparr>readSent := x\<rparr>) = registered l"
  by (simp add: registered_def)

lemma registered_readerDispatch:
  assumes "registered l" and "readerDispatch l uaddr buf = Inr l'"
  shows "registered l'"
proof (cases "conns l (connIndexOf uaddr)")
  case (Some p)
  from readerDispatch_existing [OF assms(1) Some] assms(2) assms(1) show ?thesis
    by (auto simp: registered_readSent)
next
  case None
  show ?thesis
  proof (cases "listenerClosed l")
    case True
    with None assms show ?thesis by (simp add: readerDispatch_dropped)
  next
    case False
    let ?ix = "connIndexOf uaddr"
    let ?n = "length (objs l)"
    from readerDispatch_fresh [OF assms(1) None False] assms(2)
    have l': "l' = l\<lparr>objs := objs l @ [newConn ?ix uaddr],
            conns := (conns l)(?ix \<mapsto> ?n),
            acceptcSent := acceptcSent l @ [?n],
            readSent := readSent l @ [(?n, buf)]\<rparr>" by simp
    have noix: "\<And>p. p < ?n \<Longrightarrow> \<not> closed (objs l ! p) \<Longrightarrow> index (objs l ! p) \<noteq> ?ix"
      using assms(1) None unfolding registered_def by fastforce
    show ?thesis using assms(1) noix unfolding registered_def l'
      by (auto simp: nth_append newConn_def less_Suc_eq)
  qed
qed

lemma registered_cong:
  "registered l \<Longrightarrow> conns l' = conns l \<Longrightarrow> objs l' = objs l \<Longrightarrow>
     acceptcClosed l' = listenerClosed l' \<Longrightarrow> registered l'"
  by (simp add: registered_def)

lemma registered_index_inj:
  assumes "registered l" and "p < length (objs l)" and "q < length (objs l)"
    and "\<not> closed (objs l ! p)" and "\<not> closed (objs l ! q)"
    and "index (objs l ! p) = index (objs l ! q)"
  shows "p = q"
proof -
  from assms(1,2,4) have "conns l (index (objs l ! p)) = Some p"
    unfolding registered_def by blast
  moreover from assms(1,3,5) have "conns l (index (objs l ! q)) = Some q"
    unfolding registered_def by blast
  ultimately show ?thesis using assms(6) by (metis option.inject)
qed

lemma listenerClose_fields:
  "conns (listenerClose l) = conns l" "objs (listenerClose l) = objs l"
  "acceptcSent (listenerClose l) = acceptcSent l" "readSent (listenerClose l) = readSent l"
  by (simp_all add: listenerClose_eq)

lemma listenerClosed_listenerClose:
  "listenerClosed (listenerClose l)" "registered l \<Longrightarrow> acceptcClosed (listenerClose l)"
  by (simp_all add: listenerClose_eq registered_def)

lemma registered_listenerClose:
  assumes "registered l"
  shows "registered (listenerClose l)"
  using assms
proof (rule registered_cong)
  show "acceptcClosed (listenerClose l) = listenerClosed (listenerClose l)"
    using listenerClosed_listenerClose [of l] assms by simp
qed (rule listenerClose_fields)+

lemma registered_connClose:
  assumes "registered l" and "connClose l p = Inr l'"
  shows "registered l'"
proof -
  from assms(2) have p: "p < length (objs l)"
    by (simp add: connClose_eq split: if_splits)
  show ?thesis
  proof (cases "closed (objs l ! p)")
    case True
    with assms p show ?thesis by (simp add: connClose_eq)
  next
    case False
    define l1 where "l1 = l\<lparr>objs := (objs l)[p := (objs l ! p)\<lparr>closed := True, readChanClosed := True\<rparr>],
                       conns := (conns l)(index (objs l ! p) := None)\<rparr>"
    have a: "\<forall>ix q. conns l1 ix = Some q \<longrightarrow>
          q < length (objs l1) \<and> index (objs l1 ! q) = ix \<and> \<not> closed (objs l1 ! q)"
    proof (intro allI impI)
      fix ix q assume "conns l1 ix = Some q"
      then have ne: "ix \<noteq> index (objs l ! p)" and q: "conns l ix = Some q"
        by (auto simp: l1_def split: if_splits)
      from q assms(1) have q3: "q < length (objs l)" "index (objs l ! q) = ix" "\<not> closed (objs l ! q)"
        unfolding registered_def by blast+
      with ne have "q \<noteq> p" by auto
      with q3 show "q < length (objs l1) \<and> index (objs l1 ! q) = ix \<and> \<not> closed (objs l1 ! q)"
        by (simp add: l1_def)
    qed
    have b: "\<forall>q < length (objs l1). \<not> closed (objs l1 ! q) \<longrightarrow> conns l1 (index (objs l1 ! q)) = Some q"
    proof (intro allI impI)
      fix q assume q: "q < length (objs l1)" and nc: "\<not> closed (objs l1 ! q)"
      from q nc p have qp: "q \<noteq> p" by (auto simp: l1_def)
      with q nc have q2: "q < length (objs l)" "\<not> closed (objs l ! q)" by (auto simp: l1_def)
      with assms(1) have reg: "conns l (index (objs l ! q)) = Some q"
        unfolding registered_def by blast
      from registered_index_inj [OF assms(1) p q2(1) False q2(2)] qp
      have "index (objs l ! q) \<noteq> index (objs l ! p)" by auto
      with reg qp show "conns l1 (index (objs l1 ! q)) = Some q" by (simp add: l1_def)
    qed
    have c: "\<forall>q < length (objs l1). readChanClosed (objs l1 ! q) = closed (objs l1 ! q)"
    proof (intro allI impI)
      fix q assume "q < length (objs l1)"
      then have q: "q < length (objs l)" by (simp add: l1_def)
      with assms(1) have "readChanClosed (objs l ! q) = closed (objs l ! q)"
        unfolding registered_def by blast
      with q show "readChanClosed (objs l1 ! q) = closed (objs l1 ! q)"
        by (cases "q = p") (simp_all add: l1_def)
    qed
    have d: "acceptcClosed l1 = listenerClosed l1"
      using assms(1) unfolding registered_def l1_def by simp
    from a b c d have r1: "registered l1" unfolding registered_def by blast
    from assms(2) p False
    have "l' = l1\<lparr>packetConnClosed :=
        (listenerClosed l \<and> dom ((conns l)(index (objs l ! p) := None)) = {} \<or> packetConnClosed l)\<rparr>"
      by (simp add: connClose_eq l1_def del: dom_eq_empty_conv dom_fun_upd)
    then show ?thesis using d by (intro registered_cong [OF r1]) simp_all
  qed
qed

lemma registered_connSetReadDeadline:
  "registered l \<Longrightarrow> connSetReadDeadline l p t = Inr l' \<Longrightarrow> registered l'"
  by (auto simp: registered_def connSetReadDeadline_def nth_list_update split: if_splits)

lemma registered_connSetWriteDeadline:
  "registered l \<Longrightarrow> connSetWriteDeadline l p t = Inr l' \<Longrightarrow> registered l'"
  by (auto simp: registered_def connSetWriteDeadline_def nth_list_update split: if_splits)

lemma registered_listenerStep:
  "registered l \<Longrightarrow> listenerStep l x = Inr l' \<Longrightarrow> registered l'"
  by (cases x)
    (auto intro: registered_readerDispatch registered_listenerClose registered_connClose
      registered_connSetReadDeadline registered_connSetWriteDeadline)

lemma registered_listenerRun:
  "registered l \<Longrightarrow> listenerRun l xs = Inr l' \<Longrightarrow> registered l'"
proof (induction xs arbitrary: l)
  case Nil
  then show ?case by simp
next
  case (Cons x xs)
  then show ?case
    by (cases "listenerStep l x") (auto dest: registered_listenerStep)
qed

lemma listenerStep_no_panic:
  assumes "registered l" and "opPointerOk l x"
  shows "\<exists>l'. listenerStep l x = Inr l'"
proof (cases x)
  case (OpDatagram uaddr buf)
  show ?thesis
  proof (cases "conns l (connIndexOf uaddr)")
    case None
    then show ?thesis using OpDatagram assms(1)
      by (cases "listenerClosed l") (simp_all add: readerDispatch_dropped readerDispatch_fresh)
  next
    case (Some p)
    then show ?thesis using OpDatagram assms(1) by (simp add: readerDispatch_existing)
  qed
next
  case OpListenerClose
  then show ?thesis by simp
next
  case (OpConnClose p)
  then show ?thesis using assms(2) by (simp add: connClose_eq)
next
  case (OpSetReadDeadline p t)
  then show ?thesis using assms(2) by (simp add: connSetReadDeadline_def)
next
  case (OpSetWriteDeadline p t)
  then show ?thesis using assms(2) by (simp add: connSetWriteDeadline_def)
qed

lemma listenerClosed_listenerStep:
  "listenerClosed l \<Longrightarrow> listenerStep l x = Inr l' \<Longrightarrow> listenerClosed l'"
  by (cases x)
    (auto simp: readerDispatch_def sendAccept_def sendRead_def listenerClose_eq connClose_eq Let_def
      connSetReadDeadline_def connSetWriteDeadline_def simp del: dom_eq_empty_conv dom_fun_upd
      split: option.splits if_splits sum.splits)

lemma listenerClosed_listenerRun:
  "listenerClosed l \<Longrightarrow> listenerRun l xs = Inr l' \<Longrightarrow> listenerClosed l'"
proof (induction xs arbitrary: l)
  case Nil
  then show ?case by simp
next
  case (Cons x xs)
  then show ?case
    by (cases "listenerStep l x") (auto dest: listenerClosed_listenerStep)
qed



lemma listenerRun_append:
  "listenerRun l (xs @ ys) =
     (case listenerRun l xs of Inl e \<Rightarrow> Inl e | Inr l' \<Rightarrow> listenerRun l' ys)"
  by (induction xs arbitrary: l) (auto split: sum.splits)

lemma conns_listenerStep:
  assumes reg: "registered l" and ix: "conns l ix = Some p"
    and step: "listenerStep l x = Inr l'" and x: "x \<noteq> OpConnClose p"
  shows "conns l' ix = Some p"
proof (cases x)
  case (OpDatagram uaddr buf)
  show ?thesis
  proof (cases "conns l (connIndexOf uaddr)")
    case (Some q)
    from readerDispatch_existing [OF reg Some] step OpDatagram ix show ?thesis by auto
  next
    case None
    then have ne: "connIndexOf uaddr \<noteq> ix" using ix by auto
    show ?thesis
    proof (cases "listenerClosed l")
      case True
      with None step OpDatagram ix show ?thesis by (simp add: readerDispatch_dropped)
    next
      case False
      from readerDispatch_fresh [OF reg None False] step OpDatagram ix ne show ?thesis by auto
    qed
  qed
next
  case OpListenerClose
  with step ix show ?thesis by (auto simp: listenerClose_fields)
next
  case (OpConnClose q)
  with x have qp: "q \<noteq> p" by simp
  from step OpConnClose have q: "q < length (objs l)"
    by (simp add: connClose_eq split: if_splits)
  show ?thesis
  proof (cases "closed (objs l ! q)")
    case True
    with step OpConnClose q ix show ?thesis by (simp add: connClose_eq)
  next
    case False
    with reg q have "conns l (index (objs l ! q)) = Some q" unfolding registered_def by blast
    with ix qp have "index (objs l ! q) \<noteq> ix" by auto
    with step OpConnClose q False ix show ?thesis
      by (auto simp: connClose_eq simp del: dom_eq_empty_conv dom_fun_upd)
  qed
next
  case (OpSetReadDeadline q t)
  with step ix show ?thesis by (auto simp: connSetReadDeadline_def split: if_splits)
next
  case (OpSetWriteDeadline q t)
  with step ix show ?thesis by (auto simp: connSetWriteDeadline_def split: if_splits)
qed

lemma connClose_evicts:
  assumes reg: "registered l" and ix: "conns l ix = Some p"
  shows "\<exists>l'. connClose l p = Inr l' \<and> conns l' ix = None \<and> closed (objs l' ! p) \<and>
           objs l' = (objs l)[p := (objs l ! p)\<lparr>closed := True, readChanClosed := True\<rparr>] \<and>
           conns l' = (conns l)(ix := None) \<and> listenerClosed l' = listenerClosed l \<and>
           acceptcClosed l' = acceptcClosed l"
proof -
  from reg ix have "p < length (objs l)" "index (objs l ! p) = ix" "\<not> closed (objs l ! p)"
    unfolding registered_def by blast+
  then show ?thesis
    by (simp add: connClose_eq del: dom_eq_empty_conv dom_fun_upd)
qed

lemmas listener_eval =
  udpListenerNew_def peerA_def peerB_def readerDispatch_def connIndexOf_def Let_def
  sendAccept_def sendRead_def newConn_def listenerClose_eq connClose_eq
  connSetReadDeadline_def connSetWriteDeadline_def

subsection \<open>Datagrams after the listener has been closed\<close>

text \<open>
  Claim C10. In every state reached from \<^verbatim>\<open>New\<close> by a run in which
  \<^verbatim>\<open>UDPListener.Close\<close> has been called, a datagram from a peer that has no connection in
  the registry is dropped: the reader leaves the whole state as it is, so no connection
  is allocated, nothing is sent on the accept channel and the registry is unchanged. A
  datagram from a peer whose connection is in the registry is still sent on that
  connection's read channel, and nothing else changes; once that connection has been
  closed it is out of the registry and the peer's next datagram is dropped too.
\<close>

theorem closed_listener_ignores_new_peers:
  assumes run: "listenerRun udpListenerNew (pre @ OpListenerClose # post) = Inr l"
  shows "(conns l (connIndexOf uaddr) = None \<longrightarrow> readerDispatch l uaddr buf = Inr l) \<and>
         (\<forall>p. conns l (connIndexOf uaddr) = Some p \<longrightarrow>
            readerDispatch l uaddr buf = Inr (l\<lparr>readSent := readSent l @ [(p, buf)]\<rparr>) \<and>
            (\<exists>l'. connClose l p = Inr l' \<and> conns l' (connIndexOf uaddr) = None \<and>
                  readerDispatch l' uaddr buf = Inr l'))"
proof -
  from run obtain l1 where pre: "listenerRun udpListenerNew pre = Inr l1"
    and post: "listenerRun (listenerClose l1) post = Inr l"
    by (auto simp: listenerRun_append split: sum.splits)
  have reg1: "registered l1"
    using registered_listenerRun [OF registered_udpListenerNew pre] .
  have reg: "registered l"
    using registered_listenerRun [OF registered_listenerClose [OF reg1] post] .
  have cl: "listenerClosed l"
    using listenerClosed_listenerRun [OF listenerClosed_listenerClose(1) post] .
  have a: "conns l (connIndexOf uaddr) = None \<longrightarrow> readerDispatch l uaddr buf = Inr l"
    using cl by (simp add: readerDispatch_dropped)
  have b: "\<forall>p. conns l (connIndexOf uaddr) = Some p \<longrightarrow>
            readerDispatch l uaddr buf = Inr (l\<lparr>readSent := readSent l @ [(p, buf)]\<rparr>) \<and>
            (\<exists>l'. connClose l p = Inr l' \<and> conns l' (connIndexOf uaddr) = None \<and>
                  readerDispatch l' uaddr buf = Inr l')"
  proof (intro allI impI conjI)
    fix p assume p: "conns l (connIndexOf uaddr) = Some p"
    show "readerDispatch l uaddr buf = Inr (l\<lparr>readSent := readSent l @ [(p, buf)]\<rparr>)"
      by (rule readerDispatch_existing [OF reg p])
    from connClose_evicts [OF reg p] obtain l' where l': "connClose l p = Inr l'"
      "conns l' (connIndexOf uaddr) = None" "listenerClosed l' = listenerClosed l" by blast
    with cl have "readerDispatch l' uaddr buf = Inr l'" by (simp add: readerDispatch_dropped)
    with l' show "\<exists>l'. connClose l p = Inr l' \<and> conns l' (connIndexOf uaddr) = None \<and>
                  readerDispatch l' uaddr buf = Inr l'" by blast
  qed
  from a b show ?thesis by blast
qed

text \<open>
  The theorem on the run: a datagram from peer A, then \<^verbatim>\<open>Close\<close>. Peer B is
  unknown and dropped, peer A is still served until its connection is closed.
\<close>

theorem closed_listener_ignores_new_peers_witness:
  "\<exists>l. listenerRun udpListenerNew ([OpDatagram peerA [1]] @ OpListenerClose # []) = Inr l \<and>
       conns l (connIndexOf peerB) = None \<and>
       readerDispatch l peerB [2] = Inr l \<and>
       conns l (connIndexOf peerA) = Some 0 \<and>
       readerDispatch l peerA [3] = Inr (l\<lparr>readSent := readSent l @ [(0, [3])]\<rparr>) \<and>
       (\<exists>l'. connClose l 0 = Inr l' \<and> conns l' (connIndexOf peerA) = None \<and>
             readerDispatch l' peerA [3] = Inr l')"
proof -
  obtain l where run: "listenerRun udpListenerNew ([OpDatagram peerA [1]] @ OpListenerClose # []) = Inr l"
    and nB: "conns l (connIndexOf peerB) = None"
    and sA: "conns l (connIndexOf peerA) = Some 0"
    by (simp add: listener_eval)
  from closed_listener_ignores_new_peers [OF run, of peerB "[2]"] nB
  have dropB: "readerDispatch l peerB [2] = Inr l" by blast
  from closed_listener_ignores_new_peers [OF run, of peerA "[3]"] sA
  have routeA: "readerDispatch l peerA [3] = Inr (l\<lparr>readSent := readSent l @ [(0, [3])]\<rparr>)"
    and closeA: "\<exists>l'. connClose l 0 = Inr l' \<and> conns l' (connIndexOf peerA) = None \<and>
             readerDispatch l' peerA [3] = Inr l'" by blast+
  from run nB sA dropB routeA closeA show ?thesis by blast
qed

subsection \<open>What removes a connection from the registry\<close>

text \<open>
  Claim C8 says that a connection carries a last-seen timestamp that each datagram
  updates, and that a sweeper evicts connections that have been idle for the configured
  window. The listener has neither. On the run below peer A's connection is created,
  its owner sets a read deadline, and a second datagram arrives: the connection object
  is the same as before the datagram, field by field (the only times it holds are the
  two deadlines its owner set), and when the read deadline passes with no datagram,
  \<^verbatim>\<open>Read\<close> returns the timeout error while the connection stays in the registry, open.
\<close>

theorem no_last_seen_no_sweeper_counterexample:
  "\<exists>l1 l2. listenerRun udpListenerNew [OpDatagram peerA [1], OpSetReadDeadline 0 5] = Inr l1 \<and>
       readerDispatch l1 peerA [2] = Inr l2 \<and>
       objs l2 = objs l1 \<and>
       objs l2 ! 0 = \<lparr>index = connIndexOf peerA, addr = peerA, closed = False,
                       readDeadline = 5, writeDeadline = 0, readChanClosed = False\<rparr> \<and>
       connRead (objs l2 ! 0) 2048 None = Some ([], 0, Some udpErrorTimeout) \<and>
       conns l2 (connIndexOf peerA) = Some 0"
  by (simp add: listener_eval connRead_def)

text \<open>
  Claim C8, amended. A connection of the registry holds no last-seen time: a datagram
  from its peer is routed to it, that is, sent on its read channel, and this is the
  only change of the state: every connection object and the registry stay as they are.
  When its read deadline (set by the owner through \<^verbatim>\<open>SetReadDeadline\<close>) is not the zero
  time and nothing arrives before it, \<^verbatim>\<open>Read\<close> returns the timeout error; setting such a
  deadline and letting it pass leaves the connection registered and open. No operation
  other than the connection's own \<^verbatim>\<open>Close\<close> takes it out of the registry, and that
  \<^verbatim>\<open>Close\<close> does.
\<close>

theorem conn_leaves_registry_only_by_its_Close:
  assumes run: "listenerRun udpListenerNew ops = Inr l" and ix: "conns l ix = Some p"
  shows "(\<forall>uaddr buf. connIndexOf uaddr = ix \<longrightarrow>
            (\<exists>l'. readerDispatch l uaddr buf = Inr l' \<and>
                  l' = l\<lparr>readSent := readSent l @ [(p, buf)]\<rparr> \<and>
                  readSent l' = readSent l @ [(p, buf)] \<and>
                  objs l' = objs l \<and> conns l' = conns l)) \<and>
         (\<forall>n. readDeadline (objs l ! p) \<noteq> 0 \<longrightarrow>
            connRead (objs l ! p) n None = Some ([], 0, Some udpErrorTimeout)) \<and>
         (\<forall>t n. t \<noteq> 0 \<longrightarrow>
            (\<exists>l'. connSetReadDeadline l p t = Inr l' \<and>
                  connRead (objs l' ! p) n None = Some ([], 0, Some udpErrorTimeout) \<and>
                  conns l' ix = Some p \<and> \<not> closed (objs l' ! p))) \<and>
         (\<forall>x l'. listenerStep l x = Inr l' \<longrightarrow> x \<noteq> OpConnClose p \<longrightarrow> conns l' ix = Some p) \<and>
         (\<exists>l'. connClose l p = Inr l' \<and> conns l' ix = None \<and> closed (objs l' ! p))"
proof -
  have reg: "registered l"
    using registered_listenerRun [OF registered_udpListenerNew run] .
  from reg ix have p: "p < length (objs l)" and open_p: "\<not> closed (objs l ! p)"
    unfolding registered_def by blast+
  have a: "\<forall>uaddr buf. connIndexOf uaddr = ix \<longrightarrow>
            (\<exists>l'. readerDispatch l uaddr buf = Inr l' \<and>
                  l' = l\<lparr>readSent := readSent l @ [(p, buf)]\<rparr> \<and>
                  readSent l' = readSent l @ [(p, buf)] \<and>
                  objs l' = objs l \<and> conns l' = conns l)"
  proof (intro allI impI)
    fix uaddr buf assume "connIndexOf uaddr = ix"
    with ix have "conns l (connIndexOf uaddr) = Some p" by simp
    from readerDispatch_existing [OF reg this, of buf]
    show "\<exists>l'. readerDispatch l uaddr buf = Inr l' \<and>
                  l' = l\<lparr>readSent := readSent l @ [(p, buf)]\<rparr> \<and>
                  readSent l' = readSent l @ [(p, buf)] \<and>
                  objs l' = objs l \<and> conns l' = conns l"
      by simp
  qed
  have b: "\<forall>n. readDeadline (objs l ! p) \<noteq> 0 \<longrightarrow>
            connRead (objs l ! p) n None = Some ([], 0, Some udpErrorTimeout)"
    by (simp add: connRead_def)
  have b': "\<forall>t n. t \<noteq> 0 \<longrightarrow>
            (\<exists>l'. connSetReadDeadline l p t = Inr l' \<and>
                  connRead (objs l' ! p) n None = Some ([], 0, Some udpErrorTimeout) \<and>
                  conns l' ix = Some p \<and> \<not> closed (objs l' ! p))"
    using p open_p ix by (simp add: connSetReadDeadline_def connRead_def)
  have c: "\<forall>x l'. listenerStep l x = Inr l' \<longrightarrow> x \<noteq> OpConnClose p \<longrightarrow> conns l' ix = Some p"
    using conns_listenerStep [OF reg ix] by blast
  have d: "\<exists>l'. connClose l p = Inr l' \<and> conns l' ix = None \<and> closed (objs l' ! p)"
    using connClose_evicts [OF reg ix] by blast
  show ?thesis by (rule conjI [OF a conjI [OF b conjI [OF b' conjI [OF c d]]]])
qed

text \<open>
  The amended claim on the same run: peer A's second datagram is the new last entry of
  the read log, a read deadline that passes gives the timeout and evicts nothing, the
  listener's \<^verbatim>\<open>Close\<close> keeps the connection, the connection's \<^verbatim>\<open>Close\<close> removes it.
\<close>

theorem conn_leaves_registry_only_by_its_Close_witness:
  "\<exists>l. listenerRun udpListenerNew [OpDatagram peerA [1], OpSetReadDeadline 0 5] = Inr l \<and>
       conns l (connIndexOf peerA) = Some 0 \<and>
       readSent l = [(0, [1])] \<and>
       (\<exists>l'. readerDispatch l peerA [2] = Inr l' \<and> readSent l' = [(0, [1]), (0, [2])] \<and>
             objs l' = objs l \<and> conns l' = conns l) \<and>
       readDeadline (objs l ! 0) \<noteq> 0 \<and>
       connRead (objs l ! 0) 2048 None = Some ([], 0, Some udpErrorTimeout) \<and>
       (\<exists>l'. connSetReadDeadline l 0 7 = Inr l' \<and>
             connRead (objs l' ! 0) 2048 None = Some ([], 0, Some udpErrorTimeout) \<and>
             conns l' (connIndexOf peerA) = Some 0 \<and> \<not> closed (objs l' ! 0)) \<and>
       (\<exists>l'. listenerStep l OpListenerClose = Inr l' \<and> conns l' (connIndexOf peerA) = Some 0) \<and>
       (\<exists>l'. connClose l 0 = Inr l' \<and> conns l' (connIndexOf peerA) = None \<and> closed (objs l' ! 0))"
proof -
  obtain l where run: "listenerRun udpListenerNew [OpDatagram peerA [1], OpSetReadDeadline 0 5] = Inr l"
    and sA: "conns l (connIndexOf peerA) = Some 0"
    and dl: "readDeadline (objs l ! 0) \<noteq> 0"
    and log: "readSent l = [(0, [1])]"
    by (simp add: listener_eval)
  note t = conn_leaves_registry_only_by_its_Close [OF run sA]
  from t have "\<exists>l'. readerDispatch l peerA [2] = Inr l' \<and>
      readSent l' = readSent l @ [(0, [2])] \<and> objs l' = objs l \<and> conns l' = conns l"
    by blast
  then have a: "\<exists>l'. readerDispatch l peerA [2] = Inr l' \<and> readSent l' = [(0, [1]), (0, [2])] \<and>
             objs l' = objs l \<and> conns l' = conns l"
    by (simp add: log)
  from t dl have b: "connRead (objs l ! 0) 2048 None = Some ([], 0, Some udpErrorTimeout)"
    by blast
  from t have "\<forall>t n. t \<noteq> 0 \<longrightarrow>
            (\<exists>l'. connSetReadDeadline l 0 t = Inr l' \<and>
                  connRead (objs l' ! 0) n None = Some ([], 0, Some udpErrorTimeout) \<and>
                  conns l' (connIndexOf peerA) = Some 0 \<and> \<not> closed (objs l' ! 0))"
    by blast
  from this [rule_format, of 7 2048]
  have b': "\<exists>l'. connSetReadDeadline l 0 7 = Inr l' \<and>
             connRead (objs l' ! 0) 2048 None = Some ([], 0, Some udpErrorTimeout) \<and>
             conns l' (connIndexOf peerA) = Some 0 \<and> \<not> closed (objs l' ! 0)"
    by simp
  from t have "\<forall>x l'. listenerStep l x = Inr l' \<longrightarrow> x \<noteq> OpConnClose 0 \<longrightarrow>
      conns l' (connIndexOf peerA) = Some 0" by blast
  from this [rule_format, of OpListenerClose "listenerClose l"]
  have c: "\<exists>l'. listenerStep l OpListenerClose = Inr l' \<and> conns l' (connIndexOf peerA) = Some 0"
    by simp
  from t have d: "\<exists>l'. connClose l 0 = Inr l' \<and> conns l' (connIndexOf peerA) = None \<and> closed (objs l' ! 0)"
    by blast
  from run sA log a dl b b' c d show ?thesis by blast
qed


section \<open>Package msg: message layout and payload codec\<close>

text \<open>
  Modelled from the spec: \<^verbatim>\<open>msg.NewDecEncoder\<close>, \<^verbatim>\<open>(*DecEncoder).Encode\<close> and
  \<^verbatim>\<open>(*DecEncoder).Decode\<close> (package msg) are not among the sources; only their test,
  src/msg/decencoder_test.go, is. The definitions of this section follow sections 3,
  4.1 and 4.2 of the specification, and are run on the message types and the expected
  bytes of the test file further down.

  A Go message type is a struct whose fields carry the tags \<^verbatim>\<open>mavenum\<close>, \<^verbatim>\<open>mavlen\<close>,
  \<^verbatim>\<open>mavname\<close> and \<^verbatim>\<open>mavext\<close>. The reflector reads the type of the message it is
  given, never its values.
\<close>

datatype prim =
    Uint8 | Int8 | Uint16 | Int16 | Uint32 | Int32 | Uint64 | Int64
  | Float32 | Float64 | CharP

fun primSize :: "prim \<Rightarrow> nat" where
  "primSize Uint64 = 8" | "primSize Int64 = 8" | "primSize Float64 = 8"
| "primSize Uint32 = 4" | "primSize Int32 = 4" | "primSize Float32 = 4"
| "primSize Uint16 = 2" | "primSize Int16 = 2"
| "primSize Uint8 = 1" | "primSize Int8 = 1" | "primSize CharP = 1"

fun primSigned :: "prim \<Rightarrow> bool" where
  "primSigned Int8 = True" | "primSigned Int16 = True"
| "primSigned Int32 = True" | "primSigned Int64 = True"
| "primSigned _ = False"

text \<open>The primitive's name in lowercase, as the CRC-extra reads it.\<close>

fun primName :: "prim \<Rightarrow> string" where
  "primName Uint8 = ''uint8_t''" | "primName Int8 = ''int8_t''"
| "primName Uint16 = ''uint16_t''" | "primName Int16 = ''int16_t''"
| "primName Uint32 = ''uint32_t''" | "primName Int32 = ''int32_t''"
| "primName Uint64 = ''uint64_t''" | "primName Int64 = ''int64_t''"
| "primName Float32 = ''float''" | "primName Float64 = ''double''"
| "primName CharP = ''char''"

text \<open>
  The element type of a declared field. \<open>GoEnum\<close> is a named integer type such as
  \<^verbatim>\<open>MAV_TYPE\<close>; \<open>GoOther\<close> is any type the wire format has no primitive for.
\<close>

datatype goType =
    GoUint8 | GoInt8 | GoUint16 | GoInt16 | GoUint32 | GoInt32 | GoUint64 | GoInt64
  | GoFloat32 | GoFloat64 | GoString | GoEnum | GoOther

record structField =
  goName :: string
  goType :: goType
  goArray :: "nat option"
  mavenum :: "string option"
  mavlen :: "nat option"
  mavname :: "string option"
  mavext :: bool

record messageType =
  typeName :: string
  msgId :: "32 word"
  structFields :: "structField list"

text \<open>
  A field's value: a number, a fixed array of numbers, or a string. An integer is its
  value, a float is its IEEE-754 bit pattern (what \<^verbatim>\<open>math.Float32bits\<close> returns), an
  enum is its integer.
\<close>

datatype fieldValue = Scalar int | Array "int list" | Str string

record message =
  mtype :: messageType
  mvalues :: "fieldValue list"

datatype msgError =
    UnsupportedPrimitive
  | StringWithoutLength
  | ExtensionBeforeNormal
  | ParseUnderflow

record decEncoderField =
  fname :: string
  ftype :: prim
  isArray :: bool
  arrayLength :: nat
  isExtension :: bool
  fieldIndex :: nat
  offset :: nat

record DecEncoder =
  elemType :: messageType
  wireFields :: "decEncoderField list"
  sizeNormal :: nat
  sizeExtended :: nat
  crcExtra :: byte

subsection \<open>Names\<close>

definition isUpper :: "char \<Rightarrow> bool" where
  "isUpper c = (65 \<le> (of_char c :: nat) \<and> (of_char c :: nat) \<le> 90)"

definition isLower :: "char \<Rightarrow> bool" where
  "isLower c = (97 \<le> (of_char c :: nat) \<and> (of_char c :: nat) \<le> 122)"

text \<open>
  In ASCII a capital letter and its small letter differ in the bit of value 32, which
  is the sixth argument of \<open>Char\<close>.
\<close>

definition toLower :: "char \<Rightarrow> char" where
  "toLower c =
     (if isUpper c
      then (case c of Char b0 b1 b2 b3 b4 b5 b6 b7 \<Rightarrow> Char b0 b1 b2 b3 b4 True b6 b7)
      else c)"

definition toUpper :: "char \<Rightarrow> char" where
  "toUpper c =
     (if isLower c
      then (case c of Char b0 b1 b2 b3 b4 b5 b6 b7 \<Rightarrow> Char b0 b1 b2 b3 b4 False b6 b7)
      else c)"

text \<open>
  CamelCase to snake case: an underscore goes before every capital letter but the
  first character.
\<close>

fun snakeTail :: "string \<Rightarrow> string" where
  "snakeTail [] = []"
| "snakeTail (c # cs) = (if isUpper c then CHR ''_'' # c # snakeTail cs else c # snakeTail cs)"

fun snake :: "string \<Rightarrow> string" where
  "snake [] = []"
| "snake (c # cs) = c # snakeTail cs"

definition fieldNameOf :: "structField \<Rightarrow> string" where
  "fieldNameOf sf = (case mavname sf of Some n \<Rightarrow> n | None \<Rightarrow> map toLower (snake (goName sf)))"

text \<open>The message name: the type name without the prefix \<^verbatim>\<open>Message\<close>, in upper snake case.\<close>

definition stripMessagePrefix :: "string \<Rightarrow> string" where
  "stripMessagePrefix s = (if take 7 s = ''Message'' then drop 7 s else s)"

definition messageNameOf :: "messageType \<Rightarrow> string" where
  "messageNameOf t = map toUpper (snake (stripMessagePrefix (typeName t)))"

subsection \<open>Field descriptors\<close>

fun primOfGoType :: "goType \<Rightarrow> prim option" where
  "primOfGoType GoUint8 = Some Uint8" | "primOfGoType GoInt8 = Some Int8"
| "primOfGoType GoUint16 = Some Uint16" | "primOfGoType GoInt16 = Some Int16"
| "primOfGoType GoUint32 = Some Uint32" | "primOfGoType GoInt32 = Some Int32"
| "primOfGoType GoUint64 = Some Uint64" | "primOfGoType GoInt64 = Some Int64"
| "primOfGoType GoFloat32 = Some Float32" | "primOfGoType GoFloat64 = Some Float64"
| "primOfGoType GoString = Some CharP"
| "primOfGoType GoEnum = None" | "primOfGoType GoOther = None"

definition primOfTag :: "string \<Rightarrow> prim option" where
  "primOfTag t =
     (if t = ''uint8'' then Some Uint8 else if t = ''int8'' then Some Int8
      else if t = ''uint16'' then Some Uint16 else if t = ''int16'' then Some Int16
      else if t = ''uint32'' then Some Uint32 else if t = ''int32'' then Some Int32
      else if t = ''uint64'' then Some Uint64 else if t = ''int64'' then Some Int64
      else None)"

text \<open>Step 1: the primitive (the enum's underlying type when the tag is there).\<close>

definition resolvePrim :: "structField \<Rightarrow> prim option" where
  "resolvePrim sf = (case mavenum sf of Some t \<Rightarrow> primOfTag t | None \<Rightarrow> primOfGoType (goType sf))"

text \<open>
  Step 1 for the field declared at position \<open>i\<close>: array length 1 for a scalar, the
  declared length for a fixed array, the \<^verbatim>\<open>mavlen\<close> for a string.
\<close>

definition newField :: "nat \<Rightarrow> structField \<Rightarrow> msgError + decEncoderField" where
  "newField i sf =
     (case resolvePrim sf of
        None \<Rightarrow> Inl UnsupportedPrimitive
      | Some p \<Rightarrow>
          if p = CharP then
            (case mavlen sf of
               None \<Rightarrow> Inl StringWithoutLength
             | Some n \<Rightarrow>
                 Inr \<lparr>fname = fieldNameOf sf, ftype = p, isArray = True, arrayLength = n,
                      isExtension = mavext sf, fieldIndex = i, offset = 0\<rparr>)
          else
            (case goArray sf of
               None \<Rightarrow>
                 Inr \<lparr>fname = fieldNameOf sf, ftype = p, isArray = False, arrayLength = 1,
                      isExtension = mavext sf, fieldIndex = i, offset = 0\<rparr>
             | Some n \<Rightarrow>
                 Inr \<lparr>fname = fieldNameOf sf, ftype = p, isArray = True, arrayLength = n,
                      isExtension = mavext sf, fieldIndex = i, offset = 0\<rparr>))"

text \<open>
  The declared fields in source order, from position \<open>i\<close> on. \<open>ext\<close> tells that an
  extension has been seen: a field that is not an extension must not follow one.
\<close>

fun newFields :: "nat \<Rightarrow> bool \<Rightarrow> structField list \<Rightarrow> msgError + decEncoderField list" where
  "newFields i ext [] = Inr []"
| "newFields i ext (sf # sfs) =
     (if ext \<and> \<not> mavext sf then Inl ExtensionBeforeNormal
      else (case newField i sf of
              Inl e \<Rightarrow> Inl e
            | Inr f \<Rightarrow>
                (case newFields (Suc i) (ext \<or> mavext sf) sfs of
                   Inl e \<Rightarrow> Inl e
                 | Inr fs \<Rightarrow> Inr (f # fs))))"

subsection \<open>Wire order, offsets and sizes\<close>

definition fieldSize :: "decEncoderField \<Rightarrow> nat" where
  "fieldSize f = primSize (ftype f) * arrayLength f"

text \<open>
  Step 2: a stable sort by the primitive's size, largest first. A field is put in front
  of the first field that is not larger, and the fields are put in from the last to the
  first, so that fields of one size keep their declaration order.
\<close>

fun insertBySize :: "decEncoderField \<Rightarrow> decEncoderField list \<Rightarrow> decEncoderField list" where
  "insertBySize x [] = [x]"
| "insertBySize x (y # ys) =
     (if primSize (ftype y) \<le> primSize (ftype x) then x # y # ys
      else y # insertBySize x ys)"

fun sortBySize :: "decEncoderField list \<Rightarrow> decEncoderField list" where
  "sortBySize [] = []"
| "sortBySize (x # xs) = insertBySize x (sortBySize xs)"

text \<open>Step 3: core fields sorted, then the extensions as declared; byte offsets.\<close>

definition wireOrder :: "decEncoderField list \<Rightarrow> decEncoderField list" where
  "wireOrder fs =
     sortBySize (filter (\<lambda>f. \<not> isExtension f) fs) @ filter isExtension fs"

fun assignOffsets :: "nat \<Rightarrow> decEncoderField list \<Rightarrow> decEncoderField list" where
  "assignOffsets off [] = []"
| "assignOffsets off (f # fs) = f\<lparr>offset := off\<rparr> # assignOffsets (off + fieldSize f) fs"

definition payloadSize :: "decEncoderField list \<Rightarrow> nat" where
  "payloadSize fs = sum_list (map fieldSize fs)"

subsection \<open>CRC\<close>

text \<open>
  The X.25 CRC-16: polynomial 0x1021 reflected (0x8408), initial value 0xFFFF, one bit at
  a time from the least significant.
\<close>

definition crcShift :: "16 word \<Rightarrow> 16 word" where
  "crcShift c = (if bit c 0 then drop_bit 1 c XOR 0x8408 else drop_bit 1 c)"

definition crcByte :: "16 word \<Rightarrow> byte \<Rightarrow> 16 word" where
  "crcByte c b =
     crcShift (crcShift (crcShift (crcShift (crcShift (crcShift (crcShift (crcShift
       (c XOR ucast b))))))))"

definition x25 :: "byte list \<Rightarrow> 16 word" where
  "x25 bs = foldl crcByte 0xFFFF bs"

definition byteOfChar :: "char \<Rightarrow> byte" where
  "byteOfChar c = of_char c"

definition charOfByte :: "byte \<Rightarrow> char" where
  "charOfByte b = char_of (unat b)"

text \<open>
  Step 4: what the CRC-extra is computed over. The name and a space; then for each
  field of the wire order that is not an extension its primitive's name, a space, its
  name, a space, and for an array the byte of its length.
\<close>

definition crcFieldBytes :: "decEncoderField \<Rightarrow> byte list" where
  "crcFieldBytes f =
     map byteOfChar (primName (ftype f) @ '' '' @ fname f @ '' '') @
     (if isArray f then [of_nat (arrayLength f)] else [])"

definition crcExtraInput :: "string \<Rightarrow> decEncoderField list \<Rightarrow> byte list" where
  "crcExtraInput name fs =
     map byteOfChar (name @ '' '') @
     concat (map crcFieldBytes (filter (\<lambda>f. \<not> isExtension f) fs))"

definition foldCrc :: "16 word \<Rightarrow> byte" where
  "foldCrc c = ucast (c AND 0xFF) XOR ucast (drop_bit 8 c)"

subsection \<open>The plan\<close>

text \<open>
  Modelled from the spec: \<^verbatim>\<open>msg.NewDecEncoder\<close> (msg/decencoder.go, not among the
  sources), after the algorithm of section 4.1: the declared fields resolved in source
  order, the fields that are not extensions sorted and the extensions put behind them,
  the offsets, the two payload sizes and the CRC-extra. It reads the type of the
  message only.
\<close>

definition msgNewDecEncoder :: "message \<Rightarrow> msgError + DecEncoder" where
  "msgNewDecEncoder m =
     (case newFields 0 False (structFields (mtype m)) of
        Inl e \<Rightarrow> Inl e
      | Inr fs \<Rightarrow>
          (let wire = assignOffsets 0 (wireOrder fs) in
           Inr \<lparr>elemType = mtype m,
                wireFields = wire,
                sizeNormal = payloadSize (filter (\<lambda>f. \<not> isExtension f) wire),
                sizeExtended = payloadSize wire,
                crcExtra = foldCrc (x25 (crcExtraInput (messageNameOf (mtype m)) wire))\<rparr>))"

subsection \<open>Values on the wire\<close>

text \<open>Little-endian bytes of a number, and back.\<close>

fun leBytes :: "nat \<Rightarrow> nat \<Rightarrow> byte list" where
  "leBytes 0 v = []"
| "leBytes (Suc n) v = of_nat v # leBytes n (v div 256)"

fun leNat :: "byte list \<Rightarrow> nat" where
  "leNat [] = 0"
| "leNat (b # bs) = unat b + 256 * leNat bs"

definition encodeNum :: "prim \<Rightarrow> int \<Rightarrow> byte list" where
  "encodeNum p x = leBytes (primSize p) (nat (x mod 2 ^ (8 * primSize p)))"

definition decodeNum :: "prim \<Rightarrow> byte list \<Rightarrow> int" where
  "decodeNum p bs =
     (let u = int (leNat bs) in
      if primSigned p \<and> 2 ^ (8 * primSize p - 1) \<le> u then u - 2 ^ (8 * primSize p) else u)"

text \<open>
  A string fills its declared length: its bytes, cut at that length, then zeros. It
  is read back up to the first zero byte.
\<close>

definition encodeField :: "decEncoderField \<Rightarrow> fieldValue \<Rightarrow> byte list" where
  "encodeField f v =
     (case v of
        Scalar x \<Rightarrow> encodeNum (ftype f) x
      | Array xs \<Rightarrow> concat (map (encodeNum (ftype f)) xs)
      | Str s \<Rightarrow>
          take (arrayLength f) (map byteOfChar s) @ replicate (arrayLength f - length s) 0)"

fun splitEvery :: "nat \<Rightarrow> nat \<Rightarrow> byte list \<Rightarrow> byte list list" where
  "splitEvery 0 sz bs = []"
| "splitEvery (Suc n) sz bs = take sz bs # splitEvery n sz (drop sz bs)"

definition decodeField :: "decEncoderField \<Rightarrow> byte list \<Rightarrow> fieldValue" where
  "decodeField f bs =
     (if ftype f = CharP then Str (map charOfByte (takeWhile (\<lambda>b. b \<noteq> 0) bs))
      else if isArray f then
        Array (map (decodeNum (ftype f)) (splitEvery (arrayLength f) (primSize (ftype f)) bs))
      else Scalar (decodeNum (ftype f) bs))"

text \<open>Go's zero value of a declared field, by its descriptor.\<close>

definition zeroValue :: "decEncoderField \<Rightarrow> fieldValue" where
  "zeroValue f =
     (if ftype f = CharP then Str []
      else if isArray f then Array (replicate (arrayLength f) 0)
      else Scalar 0)"

text \<open>The value of the field declared at position \<open>i\<close>.\<close>

definition valueAt :: "message \<Rightarrow> nat \<Rightarrow> fieldValue" where
  "valueAt m i = (if i < length (mvalues m) then mvalues m ! i else Scalar 0)"

subsection \<open>Encode and Decode\<close>

text \<open>Empty-byte truncation: trailing zeros go, but one byte stays.\<close>

fun stripZeros :: "byte list \<Rightarrow> byte list" where
  "stripZeros [] = []"
| "stripZeros (b # bs) = (let r = stripZeros bs in if r = [] \<and> b = 0 then [] else b # r)"

definition truncatePayload :: "byte list \<Rightarrow> byte list" where
  "truncatePayload bs = (let r = stripZeros bs in if r = [] then take 1 bs else r)"

definition usedFields :: "DecEncoder \<Rightarrow> bool \<Rightarrow> decEncoderField list" where
  "usedFields de isV2 =
     (if isV2 then wireFields de else filter (\<lambda>f. \<not> isExtension f) (wireFields de))"

definition payloadImage :: "DecEncoder \<Rightarrow> message \<Rightarrow> bool \<Rightarrow> byte list" where
  "payloadImage de m isV2 =
     concat (map (\<lambda>f. encodeField f (valueAt m (fieldIndex f))) (usedFields de isV2))"

text \<open>
  Modelled from the spec: \<^verbatim>\<open>(*DecEncoder).Encode\<close> (msg/decencoder.go, not among the
  sources), after Encode of section 4.2, the payload only: the fields in wire order,
  little-endian; for v2 the extension fields too, and the trailing zero bytes stripped
  but never below one byte; for v1 exactly the fields that are not extensions.
\<close>

definition msgEncode :: "DecEncoder \<Rightarrow> message \<Rightarrow> bool \<Rightarrow> byte list" where
  "msgEncode de m isV2 =
     (if isV2 then truncatePayload (payloadImage de m True) else payloadImage de m False)"

definition zeroValues :: "DecEncoder \<Rightarrow> fieldValue list" where
  "zeroValues de =
     foldl (\<lambda>vs f. vs[fieldIndex f := zeroValue f])
       (replicate (length (wireFields de)) (Scalar 0)) (wireFields de)"

text \<open>
  Modelled from the spec: \<^verbatim>\<open>(*DecEncoder).Decode\<close> (msg/decencoder.go, not among the
  sources), after Decode of section 4.2, the payload only: for v2 the payload is
  zero-extended to the size with extensions, for v1 it must have the size without
  them, and each field is read at its offset. A field that is not read keeps Go's zero
  value.
\<close>

definition msgDecode :: "DecEncoder \<Rightarrow> byte list \<Rightarrow> bool \<Rightarrow> msgError + message" where
  "msgDecode de buf isV2 =
     (if \<not> isV2 \<and> length buf < sizeNormal de then Inl ParseUnderflow
      else
        (let buf' = (if isV2 then buf @ replicate (sizeExtended de - length buf) 0 else buf);
             vs = foldl (\<lambda>vs f. vs[fieldIndex f :=
                          decodeField f (take (fieldSize f) (drop (offset f) buf'))])
                    (zeroValues de) (usedFields de isV2)
         in Inr \<lparr>mtype = elemType de, mvalues = vs\<rparr>))"

subsection \<open>The message types of the test file\<close>

text \<open>
  src/msg/decencoder_test.go declares these message types. \<open>field n t\<close> is a field with no
  tag.
\<close>

definition field :: "string \<Rightarrow> goType \<Rightarrow> structField" where
  "field n t =
     \<lparr>goName = n, goType = t, goArray = None, mavenum = None, mavlen = None,
      mavname = None, mavext = False\<rparr>"

definition MessageHeartbeat :: messageType where
  "MessageHeartbeat =
     \<lparr>typeName = ''MessageHeartbeat'', msgId = 0, structFields =
       [(field ''Type'' GoEnum)\<lparr>mavenum := Some ''uint8''\<rparr>,
        (field ''Autopilot'' GoEnum)\<lparr>mavenum := Some ''uint8''\<rparr>,
        (field ''BaseMode'' GoEnum)\<lparr>mavenum := Some ''uint8''\<rparr>,
        field ''CustomMode'' GoUint32,
        (field ''SystemStatus'' GoEnum)\<lparr>mavenum := Some ''uint8''\<rparr>,
        field ''MavlinkVersion'' GoUint8]\<rparr>"

definition MessageSysStatus :: messageType where
  "MessageSysStatus =
     \<lparr>typeName = ''MessageSysStatus'', msgId = 1, structFields =
       [(field ''OnboardControlSensorsPresent'' GoEnum)\<lparr>mavenum := Some ''uint32''\<rparr>,
        (field ''OnboardControlSensorsEnabled'' GoEnum)\<lparr>mavenum := Some ''uint32''\<rparr>,
        (field ''OnboardControlSensorsHealth'' GoEnum)\<lparr>mavenum := Some ''uint32''\<rparr>,
        field ''Load'' GoUint16,
        field ''VoltageBattery'' GoUint16,
        field ''CurrentBattery'' GoInt16,
        field ''BatteryRemaining'' GoInt8,
        field ''DropRateComm'' GoUint16,
        field ''ErrorsComm'' GoUint16,
        field ''ErrorsCount1'' GoUint16,
        field ''ErrorsCount2'' GoUint16,
        field ''ErrorsCount3'' GoUint16,
        field ''ErrorsCount4'' GoUint16]\<rparr>"

definition MessageChangeOperatorControl :: messageType where
  "MessageChangeOperatorControl =
     \<lparr>typeName = ''MessageChangeOperatorControl'', msgId = 5, structFields =
       [field ''TargetSystem'' GoUint8,
        field ''ControlRequest'' GoUint8,
        field ''Version'' GoUint8,
        (field ''Passkey'' GoString)\<lparr>mavlen := Some 25\<rparr>]\<rparr>"

definition MessageAttitudeQuaternionCov :: messageType where
  "MessageAttitudeQuaternionCov =
     \<lparr>typeName = ''MessageAttitudeQuaternionCov'', msgId = 61, structFields =
       [field ''TimeUsec'' GoUint64,
        (field ''Q'' GoFloat32)\<lparr>goArray := Some 4\<rparr>,
        field ''Rollspeed'' GoFloat32,
        field ''Pitchspeed'' GoFloat32,
        field ''Yawspeed'' GoFloat32,
        (field ''Covariance'' GoFloat32)\<lparr>goArray := Some 9\<rparr>]\<rparr>"

definition MessageOpticalFlow :: messageType where
  "MessageOpticalFlow =
     \<lparr>typeName = ''MessageOpticalFlow'', msgId = 100, structFields =
       [field ''TimeUsec'' GoUint64,
        field ''SensorId'' GoUint8,
        field ''FlowX'' GoInt16,
        field ''FlowY'' GoInt16,
        field ''FlowCompMX'' GoFloat32,
        field ''FlowCompMY'' GoFloat32,
        field ''Quality'' GoUint8,
        field ''GroundDistance'' GoFloat32,
        (field ''FlowRateX'' GoFloat32)\<lparr>mavext := True\<rparr>,
        (field ''FlowRateY'' GoFloat32)\<lparr>mavext := True\<rparr>]\<rparr>"

definition MessagePlayTune :: messageType where
  "MessagePlayTune =
     \<lparr>typeName = ''MessagePlayTune'', msgId = 258, structFields =
       [field ''TargetSystem'' GoUint8,
        field ''TargetComponent'' GoUint8,
        (field ''Tune'' GoString)\<lparr>mavlen := Some 30\<rparr>,
        (field ''Tune2'' GoString)\<lparr>mavlen := Some 200, mavext := True\<rparr>]\<rparr>"

definition MessageAhrs :: messageType where
  "MessageAhrs =
     \<lparr>typeName = ''MessageAhrs'', msgId = 163, structFields =
       [(field ''OmegaIx'' GoFloat32)\<lparr>mavname := Some ''omegaIx''\<rparr>,
        (field ''OmegaIy'' GoFloat32)\<lparr>mavname := Some ''omegaIy''\<rparr>,
        (field ''OmegaIz'' GoFloat32)\<lparr>mavname := Some ''omegaIz''\<rparr>,
        field ''AccelWeight'' GoFloat32,
        field ''RenormVal'' GoFloat32,
        field ''ErrorRp'' GoFloat32,
        field ''ErrorYaw'' GoFloat32]\<rparr>"

text \<open>
  \<^verbatim>\<open>&MessageHeartbeat{}\<close> and the like: the message of a type with Go's zero value in
  every field.
\<close>

definition zeroOfStructField :: "structField \<Rightarrow> fieldValue" where
  "zeroOfStructField sf =
     (if goType sf = GoString then Str []
      else (case goArray sf of None \<Rightarrow> Scalar 0 | Some n \<Rightarrow> Array (replicate n 0)))"

definition zeroMessage :: "messageType \<Rightarrow> message" where
  "zeroMessage t = \<lparr>mtype = t, mvalues = map zeroOfStructField (structFields t)\<rparr>"

subsection \<open>Values that fit their fields\<close>

text \<open>
  A number is in the range of a primitive when the primitive's bytes hold it: two's
  complement for the signed ones, the bit pattern itself for the others.
\<close>

definition inRange :: "prim \<Rightarrow> int \<Rightarrow> bool" where
  "inRange p x =
     (if primSigned p then - (2 ^ (8 * primSize p - 1)) \<le> x \<and> x < 2 ^ (8 * primSize p - 1)
      else 0 \<le> x \<and> x < 2 ^ (8 * primSize p))"

text \<open>
  A value fits a descriptor when it has the descriptor's shape and the wire holds it
  whole: a scalar or an array of the declared length with every number in range, or a
  string no longer than the declared length with no zero byte in it.
\<close>

definition fitsField :: "decEncoderField \<Rightarrow> fieldValue \<Rightarrow> bool" where
  "fitsField f v =
     (case v of
        Scalar x \<Rightarrow> ftype f \<noteq> CharP \<and> \<not> isArray f \<and> inRange (ftype f) x
      | Array xs \<Rightarrow>
          ftype f \<noteq> CharP \<and> isArray f \<and> length xs = arrayLength f \<and>
          list_all (inRange (ftype f)) xs
      | Str s \<Rightarrow>
          ftype f = CharP \<and> length s \<le> arrayLength f \<and> CHR 0x00 \<notin> set s)"

text \<open>
  A message fits a plan when it is of the plan's type, has a value for every declared
  field, and each value fits its descriptor.
\<close>

definition fitsPlan :: "DecEncoder \<Rightarrow> message \<Rightarrow> bool" where
  "fitsPlan de m =
     (mtype m = elemType de \<and> length (mvalues m) = length (wireFields de) \<and>
      list_all (\<lambda>f. fitsField f (valueAt m (fieldIndex f))) (wireFields de))"

text \<open>Every extension field holds Go's zero value.\<close>

definition extensionsZero :: "DecEncoder \<Rightarrow> message \<Rightarrow> bool" where
  "extensionsZero de m =
     list_all (\<lambda>f. isExtension f \<longrightarrow> valueAt m (fieldIndex f) = zeroValue f) (wireFields de)"



subsection \<open>Numbers and strings on the wire\<close>

lemma length_leBytes: "length (leBytes n v) = n"
  by (induction n arbitrary: v) auto

lemma leNat_leBytes: "leNat (leBytes n v) = v mod 256 ^ n"
proof (induction n arbitrary: v)
  case 0
  show ?case by simp
next
  case (Suc n)
  have "unat (of_nat v :: byte) = v mod 256"
    by (simp add: unat_of_nat)
  then have "leNat (leBytes (Suc n) v) = v mod 256 + 256 * ((v div 256) mod 256 ^ n)"
    by (simp add: Suc.IH)
  also have "\<dots> = v mod 256 ^ Suc n"
    by (simp add: mod_mult2_eq)
  finally show ?case .
qed

lemma primSize_pos: "0 < primSize p"
  by (cases p) auto

lemma length_encodeNum: "length (encodeNum p x) = primSize p"
  by (simp add: encodeNum_def length_leBytes)

lemma decodeNum_encodeNum:
  assumes "inRange p x"
  shows "decodeNum p (encodeNum p x) = x"
proof -
  define w where "w = 8 * primSize p"
  have wpos: "0 < w" using primSize_pos [of p] by (simp add: w_def)
  have pw: "(256::nat) ^ primSize p = 2 ^ w"
    by (simp add: w_def power_mult)
  have half: "(2::int) ^ w = 2 * 2 ^ (w - 1)"
    using wpos by (cases w) auto
  have u: "int (leNat (encodeNum p x)) = x mod 2 ^ w"
  proof -
    have "leNat (encodeNum p x) = nat (x mod 2 ^ w) mod 2 ^ w"
      by (simp add: encodeNum_def leNat_leBytes pw w_def [symmetric])
    then have "int (leNat (encodeNum p x)) = int (nat (x mod 2 ^ w) mod 2 ^ w)" by simp
    also have "\<dots> = (x mod 2 ^ w) mod 2 ^ w"
      by (simp add: zmod_int)
    finally show ?thesis by simp
  qed
  show ?thesis
  proof (cases "primSigned p")
    case False
    with assms have "0 \<le> x" "x < 2 ^ w" by (simp_all add: inRange_def w_def)
    then have "x mod 2 ^ w = x" by simp
    with u False show ?thesis by (simp add: decodeNum_def Let_def)
  next
    case True
    with assms have r: "- (2 ^ (w - 1)) \<le> x" "x < 2 ^ (w - 1)"
      by (simp_all add: inRange_def w_def)
    show ?thesis
    proof (cases "0 \<le> x")
      case True
      with r half have "x mod 2 ^ w = x" by simp
      with u r \<open>primSigned p\<close> show ?thesis
        by (simp add: decodeNum_def Let_def w_def [symmetric])
    next
      case False
      then have neg: "x < 0" by simp
      have "(x + 2 ^ w) mod 2 ^ w = x + 2 ^ w"
        using r neg half by (intro mod_pos_pos_trivial) auto
      then have m: "x mod 2 ^ w = x + 2 ^ w" by simp
      have "2 ^ (w - 1) \<le> x + 2 ^ w" using r half by simp
      with u m \<open>primSigned p\<close> show ?thesis
        by (simp add: decodeNum_def Let_def w_def [symmetric])
    qed
  qed
qed

lemma splitEvery_concat:
  assumes "\<forall>c \<in> set cs. length c = sz"
  shows "splitEvery (length cs) sz (concat cs @ rest) = cs"
  using assms by (induction cs) auto

lemma charOfByte_byteOfChar: "charOfByte (byteOfChar c) = c"
proof -
  have "unat (of_char c :: byte) = (of_char c :: nat)"
  proof -
    have "(of_char c :: byte) = of_nat (of_char c)" by (simp add: of_nat_of_char)
    then have "unat (of_char c :: byte) = (of_char c :: nat) mod 256"
      by (simp only: unat_of_nat) simp
    then show ?thesis by simp
  qed
  then show ?thesis by (simp add: charOfByte_def byteOfChar_def)
qed

lemma byteOfChar_eq_0: "byteOfChar c = 0 \<longleftrightarrow> c = CHR 0x00"
proof
  assume z: "byteOfChar c = 0"
  have "c = charOfByte (byteOfChar c)" by (simp only: charOfByte_byteOfChar)
  also have "\<dots> = charOfByte 0" by (simp only: z)
  also have "\<dots> = CHR 0x00" by (simp add: charOfByte_def char_of_def)
  finally show "c = CHR 0x00" .
next
  assume "c = CHR 0x00"
  then show "byteOfChar c = 0" by (simp add: byteOfChar_def)
qed


lemma length_encodeField:
  assumes "fitsField f v" and "isArray f \<or> arrayLength f = 1"
  shows "length (encodeField f v) = fieldSize f"
proof (cases v)
  case (Scalar x)
  with assms show ?thesis
    by (simp add: fitsField_def encodeField_def fieldSize_def length_encodeNum)
next
  case (Array xs)
  have "length (concat (map (encodeNum (ftype f)) xs)) = primSize (ftype f) * length xs"
    by (induction xs) (simp_all add: length_encodeNum)
  with Array assms show ?thesis
    by (simp add: fitsField_def encodeField_def fieldSize_def)
next
  case (Str s)
  with assms show ?thesis
    by (simp add: fitsField_def encodeField_def fieldSize_def)
qed

lemma takeWhile_nonzero_padded:
  assumes "\<forall>b \<in> set bs. b \<noteq> (0 :: byte)"
  shows "takeWhile (\<lambda>b. b \<noteq> 0) (bs @ replicate k 0) = bs"
  using assms by (induction bs) (auto simp: takeWhile_replicate)

lemma decodeField_encodeField:
  assumes "fitsField f v"
  shows "decodeField f (encodeField f v) = v"
proof (cases v)
  case (Scalar x)
  with assms show ?thesis
    by (simp add: fitsField_def encodeField_def decodeField_def decodeNum_encodeNum)
next
  case (Array xs)
  with assms have fa: "ftype f \<noteq> CharP" "isArray f" "length xs = arrayLength f"
    "list_all (inRange (ftype f)) xs" by (simp_all add: fitsField_def)
  let ?cs = "map (encodeNum (ftype f)) xs"
  have "splitEvery (length ?cs) (primSize (ftype f)) (concat ?cs @ []) = ?cs"
    by (rule splitEvery_concat) (simp add: length_encodeNum)
  then have sp: "splitEvery (arrayLength f) (primSize (ftype f)) (concat ?cs) = ?cs"
    using fa(3) by simp
  have "map (decodeNum (ftype f)) ?cs = xs"
    using fa(4) by (induction xs) (simp_all add: decodeNum_encodeNum)
  with sp Array fa show ?thesis
    by (simp add: encodeField_def decodeField_def)
next
  case (Str s)
  with assms have fs: "ftype f = CharP" "length s \<le> arrayLength f" "CHR 0x00 \<notin> set s"
    by (simp_all add: fitsField_def)
  have nz: "\<forall>b \<in> set (map byteOfChar s). b \<noteq> 0"
    using fs(3) by (auto simp: byteOfChar_eq_0)
  have "takeWhile (\<lambda>b. b \<noteq> 0) (map byteOfChar s @ replicate (arrayLength f - length s) 0)
          = map byteOfChar s"
    by (rule takeWhile_nonzero_padded [OF nz])
  moreover have "map charOfByte (map byteOfChar s) = s"
    by (induction s) (simp_all add: charOfByte_byteOfChar)
  ultimately show ?thesis using Str fs
    by (simp add: encodeField_def decodeField_def)
qed

subsection \<open>Empty-byte truncation\<close>

lemma stripZeros_padding:
  "\<exists>k. stripZeros bs @ replicate k 0 = bs"
proof (induction bs)
  case Nil
  show ?case by simp
next
  case (Cons b bs)
  then obtain k where k: "stripZeros bs @ replicate k 0 = bs" by blast
  show ?case
  proof (cases "stripZeros bs = [] \<and> b = 0")
    case True
    then have s: "stripZeros (b # bs) = []" by simp
    from True k have "replicate (Suc k) 0 = b # bs" by simp
    then have "stripZeros (b # bs) @ replicate (Suc k) 0 = b # bs"
      by (simp only: s append_Nil)
    then show ?thesis by blast
  next
    case False
    then have s: "stripZeros (b # bs) = b # stripZeros bs" by (auto simp: Let_def)
    have "stripZeros (b # bs) @ replicate k 0 = b # bs"
      by (simp only: s append_Cons k)
    then show ?thesis by blast
  qed
qed

lemma stripZeros_last: "stripZeros bs \<noteq> [] \<Longrightarrow> last (stripZeros bs) \<noteq> 0"
  by (induction bs) (auto simp: Let_def split: if_splits)

lemma stripZeros_all_zero: "set bs \<subseteq> {0} \<Longrightarrow> stripZeros bs = []"
  by (induction bs) (auto simp: Let_def)

lemma truncatePayload_padding:
  "\<exists>k. truncatePayload bs @ replicate k 0 = bs"
proof (cases "stripZeros bs = []")
  case False
  then have t: "truncatePayload bs = stripZeros bs"
    by (simp add: truncatePayload_def Let_def)
  from stripZeros_padding [of bs] show ?thesis by (simp only: t)
next
  case True
  then have t: "truncatePayload bs = take 1 bs"
    by (simp add: truncatePayload_def)
  from stripZeros_padding [of bs] obtain k where "stripZeros bs @ replicate k 0 = bs" by blast
  then have k: "bs = replicate k 0" by (simp only: True append_Nil)
  have "take 1 bs @ replicate (k - 1) 0 = bs"
    using k by (cases k) simp_all
  then have "truncatePayload bs @ replicate (k - 1) 0 = bs"
    by (simp only: t)
  then show ?thesis by blast
qed

lemma zero_extend_truncatePayload:
  "truncatePayload bs @ replicate (length bs - length (truncatePayload bs)) 0 = bs"
proof -
  obtain k where k: "truncatePayload bs @ replicate k 0 = bs"
    using truncatePayload_padding by blast
  have "length (truncatePayload bs) + k = length bs"
    using arg_cong [OF k, of length] by simp
  then have "length bs - length (truncatePayload bs) = k"
    by arith
  then show ?thesis by (simp only: k)
qed


subsection \<open>The descriptors of the declared fields\<close>

lemma newField_props:
  assumes "newField i sf = Inr f"
  shows "fieldIndex f = i" and "isExtension f = mavext sf" and "offset f = 0"
    and "isArray f \<or> arrayLength f = 1"
  using assms
  by (auto simp: newField_def split: option.splits if_splits)

lemma newFields_props:
  assumes "newFields i ext sfs = Inr fs"
  shows "length fs = length sfs \<and>
         (\<forall>k < length sfs. newField (i + k) (sfs ! k) = Inr (fs ! k)) \<and>
         map fieldIndex fs = [i..<i + length sfs] \<and>
         (ext \<longrightarrow> list_all isExtension fs) \<and>
         filter (\<lambda>f. \<not> isExtension f) fs @ filter isExtension fs = fs"
  using assms
proof (induction sfs arbitrary: i ext fs)
  case Nil
  then show ?case by simp
next
  case (Cons sf sfs)
  from Cons.prems have ok: "\<not> (ext \<and> \<not> mavext sf)"
    by (auto split: if_splits)
  from Cons.prems ok obtain f where f: "newField i sf = Inr f"
    by (cases "newField i sf") auto
  from Cons.prems ok f obtain fs' where fs': "newFields (Suc i) (ext \<or> mavext sf) sfs = Inr fs'"
    and fs: "fs = f # fs'"
    by (cases "newFields (Suc i) (ext \<or> mavext sf) sfs") auto
  note ih = Cons.IH [OF fs']
  note fp = newField_props [OF f]
  have a: "length fs = length (sf # sfs)" using ih fs by simp
  have b: "\<forall>k < length (sf # sfs). newField (i + k) ((sf # sfs) ! k) = Inr (fs ! k)"
  proof (intro allI impI)
    fix k assume k: "k < length (sf # sfs)"
    show "newField (i + k) ((sf # sfs) ! k) = Inr (fs ! k)"
    proof (cases k)
      case 0
      with f fs show ?thesis by simp
    next
      case (Suc j)
      with k have "j < length sfs" by simp
      with ih have "newField (Suc i + j) (sfs ! j) = Inr (fs' ! j)" by blast
      with Suc fs show ?thesis by simp
    qed
  qed
  have c: "map fieldIndex fs = [i..<i + length (sf # sfs)]"
  proof -
    from ih have "map fieldIndex fs' = [Suc i..<Suc i + length sfs]" by blast
    moreover have "[i..<i + length (sf # sfs)] = i # [Suc i..<Suc i + length sfs]"
      using upt_conv_Cons [of i "i + length (sf # sfs)"] by simp
    ultimately show ?thesis using fp(1) fs by simp
  qed
  have d: "ext \<longrightarrow> list_all isExtension fs"
    using ih ok fp(2) fs by auto
  have e: "filter (\<lambda>f. \<not> isExtension f) fs @ filter isExtension fs = fs"
  proof (cases "mavext sf")
    case True
    with ih have "list_all isExtension fs'" by simp
    then have "filter (\<lambda>f. \<not> isExtension f) fs' = []" "filter isExtension fs' = fs'"
      by (simp_all add: list_all_iff)
    with True fp(2) fs show ?thesis by simp
  next
    case False
    from ih have "filter (\<lambda>f. \<not> isExtension f) fs' @ filter isExtension fs' = fs'" by blast
    with False fp(2) fs show ?thesis by simp
  qed
  from a b c d e show ?case by blast
qed

subsection \<open>The stable sort by size\<close>

lemma set_insertBySize: "set (insertBySize x ys) = insert x (set ys)"
  by (induction ys) auto

lemma set_sortBySize: "set (sortBySize xs) = set xs"
  by (induction xs) (auto simp: set_insertBySize)

lemma length_insertBySize: "length (insertBySize x ys) = Suc (length ys)"
  by (induction ys) auto

lemma length_sortBySize: "length (sortBySize xs) = length xs"
  by (induction xs) (auto simp: length_insertBySize)

lemma filter_insertBySize_ext:
  "\<not> isExtension x \<Longrightarrow> filter isExtension (insertBySize x ys) = filter isExtension ys"
  by (induction ys) auto



lemma sortBySize_no_ext:
  "list_all (\<lambda>f. \<not> isExtension f) xs \<Longrightarrow> list_all (\<lambda>f. \<not> isExtension f) (sortBySize xs)"
  by (simp add: list_all_iff set_sortBySize)

lemma map_fieldIndex_insertBySize:
  "set (map fieldIndex (insertBySize x ys)) = insert (fieldIndex x) (set (map fieldIndex ys))"
  by (induction ys) auto

lemma distinct_insertBySize:
  "distinct (map fieldIndex (insertBySize x ys)) =
     (fieldIndex x \<notin> set (map fieldIndex ys) \<and> distinct (map fieldIndex ys))"
  by (induction ys) (auto simp: set_insertBySize)

lemma distinct_sortBySize:
  "distinct (map fieldIndex (sortBySize xs)) = distinct (map fieldIndex xs)"
  by (induction xs) (auto simp: distinct_insertBySize set_sortBySize)

subsection \<open>Offsets\<close>

lemma length_assignOffsets: "length (assignOffsets off fs) = length fs"
  by (induction fs arbitrary: off) auto

lemma nth_assignOffsets:
  "k < length fs \<Longrightarrow>
     assignOffsets off fs ! k = (fs ! k)\<lparr>offset := off + payloadSize (take k fs)\<rparr>"
proof (induction fs arbitrary: off k)
  case Nil
  then show ?case by simp
next
  case (Cons f fs)
  show ?case
  proof (cases k)
    case 0
    then show ?thesis by (simp add: payloadSize_def)
  next
    case (Suc j)
    with Cons.prems have "j < length fs" by simp
    from Cons.IH [OF this, of "off + fieldSize f"] Suc show ?thesis
      by (simp add: payloadSize_def add.assoc)
  qed
qed

lemma fieldSize_offset: "fieldSize (f\<lparr>offset := x\<rparr>) = fieldSize f"
  by (simp add: fieldSize_def)

lemma map_assignOffsets:
  "map (\<lambda>f. f\<lparr>offset := 0\<rparr>) (assignOffsets off fs) = map (\<lambda>f. f\<lparr>offset := 0\<rparr>) fs"
  by (induction fs arbitrary: off) auto

lemma map_fieldIndex_assignOffsets: "map fieldIndex (assignOffsets off fs) = map fieldIndex fs"
  by (induction fs arbitrary: off) auto

lemma map_fieldSize_assignOffsets: "map fieldSize (assignOffsets off fs) = map fieldSize fs"
  by (induction fs arbitrary: off) (auto simp: fieldSize_offset)

lemma filter_assignOffsets:
  "(\<And>f x. P (f\<lparr>offset := x\<rparr>) = P f) \<Longrightarrow>
     filter P (assignOffsets off (xs @ ys)) =
     filter P (assignOffsets off xs) @ filter P (assignOffsets (off + payloadSize xs) ys)"
  by (induction xs arbitrary: off) (auto simp: payloadSize_def add.assoc)

lemma assignOffsets_append:
  "assignOffsets off (xs @ ys) = assignOffsets off xs @ assignOffsets (off + payloadSize xs) ys"
  by (induction xs arbitrary: off) (auto simp: payloadSize_def add.assoc)

lemma list_all_assignOffsets:
  "(\<And>f x. P (f\<lparr>offset := x\<rparr>) = P f) \<Longrightarrow> list_all P (assignOffsets off fs) = list_all P fs"
  by (induction fs arbitrary: off) auto

lemma set_assignOffsets_sub:
  "g \<in> set (assignOffsets off fs) \<Longrightarrow> \<exists>f \<in> set fs. \<exists>x. g = f\<lparr>offset := x\<rparr>"
  by (induction fs arbitrary: off) auto




subsection \<open>The structure of a plan\<close>

lemma msgNewDecEncoder_unfold:
  assumes "msgNewDecEncoder m = Inr de"
  obtains fs where "newFields 0 False (structFields (mtype m)) = Inr fs"
    and "wireFields de = assignOffsets 0 (wireOrder fs)"
    and "elemType de = mtype m"
    and "sizeNormal de = payloadSize (filter (\<lambda>f. \<not> isExtension f) (wireFields de))"
    and "sizeExtended de = payloadSize (wireFields de)"
    and "crcExtra de = foldCrc (x25 (crcExtraInput (messageNameOf (mtype m)) (wireFields de)))"
proof (cases "newFields 0 False (structFields (mtype m))")
  case (Inl e)
  with assms show ?thesis by (simp add: msgNewDecEncoder_def)
next
  case (Inr fs)
  with assms have "de = \<lparr>elemType = mtype m,
                wireFields = assignOffsets 0 (wireOrder fs),
                sizeNormal = payloadSize (filter (\<lambda>f. \<not> isExtension f) (assignOffsets 0 (wireOrder fs))),
                sizeExtended = payloadSize (assignOffsets 0 (wireOrder fs)),
                crcExtra = foldCrc (x25 (crcExtraInput (messageNameOf (mtype m)) (assignOffsets 0 (wireOrder fs))))\<rparr>"
    by (simp add: msgNewDecEncoder_def Let_def)
  then show ?thesis using Inr by (intro that [of fs]) simp_all
qed

lemma isExtension_offset: "isExtension (f\<lparr>offset := x\<rparr>) = isExtension f"
  by simp

lemma filter_core_sortBySize:
  "list_all (\<lambda>f. \<not> isExtension f) xs \<Longrightarrow> filter (\<lambda>f. \<not> isExtension f) (sortBySize xs) = sortBySize xs"
  "list_all (\<lambda>f. \<not> isExtension f) xs \<Longrightarrow> filter isExtension (sortBySize xs) = []"
  by (simp_all add: list_all_iff set_sortBySize)

lemma filter_assignOffsets_all:
  "list_all P fs \<Longrightarrow> (\<And>f x. P (f\<lparr>offset := x\<rparr>) = P f) \<Longrightarrow>
     filter P (assignOffsets off fs) = assignOffsets off fs"
  by (induction fs arbitrary: off) auto

lemma filter_assignOffsets_none:
  "list_all (\<lambda>f. \<not> P f) fs \<Longrightarrow> (\<And>f x. P (f\<lparr>offset := x\<rparr>) = P f) \<Longrightarrow>
     filter P (assignOffsets off fs) = []"
  by (induction fs arbitrary: off) auto

lemma wire_split:
  fixes fs :: "decEncoderField list"
  defines "core \<equiv> sortBySize (filter (\<lambda>f. \<not> isExtension f) fs)"
  defines "W \<equiv> assignOffsets 0 (wireOrder fs)"
  shows "filter (\<lambda>f. \<not> isExtension f) W = assignOffsets 0 core"
    and "filter isExtension W = assignOffsets (payloadSize core) (filter isExtension fs)"
    and "W = filter (\<lambda>f. \<not> isExtension f) W @ filter isExtension W"
    and "filter (\<lambda>f. \<not> isExtension f) W = take (length core) W"
proof -
  have c: "list_all (\<lambda>f. \<not> isExtension f) core"
    unfolding core_def by (simp add: list_all_iff set_sortBySize)
  have e: "list_all isExtension (filter isExtension fs)"
    by (simp add: list_all_iff)
  have e': "list_all (\<lambda>f. \<not> \<not> isExtension f) (filter isExtension fs)"
    by (simp add: list_all_iff)
  have W: "W = assignOffsets 0 core @ assignOffsets (payloadSize core) (filter isExtension fs)"
    unfolding W_def wireOrder_def core_def by (simp add: assignOffsets_append)
  have c1: "filter (\<lambda>f. \<not> isExtension f) (assignOffsets 0 core) = assignOffsets 0 core"
    by (rule filter_assignOffsets_all [OF c]) simp
  have c2: "filter isExtension (assignOffsets 0 core) = []"
    by (rule filter_assignOffsets_none [OF c]) simp
  have e1: "filter isExtension (assignOffsets (payloadSize core) (filter isExtension fs))
      = assignOffsets (payloadSize core) (filter isExtension fs)"
    by (rule filter_assignOffsets_all [OF e]) simp
  have e2: "filter (\<lambda>f. \<not> isExtension f) (assignOffsets (payloadSize core) (filter isExtension fs)) = []"
    by (rule filter_assignOffsets_none [OF e']) simp
  show a: "filter (\<lambda>f. \<not> isExtension f) W = assignOffsets 0 core"
    by (simp only: W filter_append c1 e2 append_Nil2)
  show b: "filter isExtension W = assignOffsets (payloadSize core) (filter isExtension fs)"
    by (simp only: W filter_append c2 e1 append_Nil)
  show "W = filter (\<lambda>f. \<not> isExtension f) W @ filter isExtension W"
    by (simp only: a b) (rule W)
  show "filter (\<lambda>f. \<not> isExtension f) W = take (length core) W"
    by (simp only: a) (simp add: W length_assignOffsets)
qed





lemma plan_indexes:
  assumes "msgNewDecEncoder m = Inr de"
  shows "distinct (map fieldIndex (wireFields de))"
    and "set (map fieldIndex (wireFields de)) = {0..<length (structFields (mtype m))}"
    and "length (wireFields de) = length (structFields (mtype m))"
proof -
  from assms obtain fs where fs: "newFields 0 False (structFields (mtype m)) = Inr fs"
    and W: "wireFields de = assignOffsets 0 (wireOrder fs)"
    by (rule msgNewDecEncoder_unfold)
  let ?n = "length (structFields (mtype m))"
  from newFields_props [OF fs] have ix: "map fieldIndex fs = [0..<?n]" and len: "length fs = ?n"
    by simp_all
  have d: "distinct (map fieldIndex fs)" by (simp add: ix)
  let ?core = "filter (\<lambda>f. \<not> isExtension f) fs"
  let ?ext = "filter isExtension fs"
  have mi: "map fieldIndex (wireFields de) = map fieldIndex (sortBySize ?core) @ map fieldIndex ?ext"
    by (simp add: W map_fieldIndex_assignOffsets wireOrder_def)
  have dc: "distinct (map fieldIndex (sortBySize ?core))"
    using d by (simp add: distinct_sortBySize distinct_map_filter)
  have de': "distinct (map fieldIndex ?ext)"
    using d by (simp add: distinct_map_filter)
  have disj: "set (map fieldIndex (sortBySize ?core)) \<inter> set (map fieldIndex ?ext) = {}"
  proof (rule ccontr)
    assume "set (map fieldIndex (sortBySize ?core)) \<inter> set (map fieldIndex ?ext) \<noteq> {}"
    then obtain a b where a: "a \<in> set fs" "\<not> isExtension a" and b: "b \<in> set fs" "isExtension b"
      and eq: "fieldIndex a = fieldIndex b"
      by (auto simp: set_sortBySize)
    from d a(1) b(1) eq have "a = b" by (meson distinct_map inj_on_def)
    with a b show False by simp
  qed
  show "distinct (map fieldIndex (wireFields de))"
    using dc de' disj by (simp add: mi)
  have "set (map fieldIndex (wireFields de)) = fieldIndex ` set fs"
    by (auto simp: mi set_sortBySize)
  also have "\<dots> = set (map fieldIndex fs)" by simp
  also have "\<dots> = {0..<?n}" by (simp add: ix)
  finally show "set (map fieldIndex (wireFields de)) = {0..<?n}" .
  have "length (wireOrder fs) = length ?core + length ?ext"
    by (simp add: wireOrder_def length_sortBySize)
  also have "\<dots> = length fs" by (rule sum_length_filter_compl [of "\<lambda>f. \<not> isExtension f" fs, simplified])
  finally show "length (wireFields de) = ?n"
    by (simp add: W length_assignOffsets len)
qed

lemma plan_descriptors:
  assumes "msgNewDecEncoder m = Inr de" and "f \<in> set (wireFields de)"
  shows "newField (fieldIndex f) (structFields (mtype m) ! fieldIndex f) = Inr (f\<lparr>offset := 0\<rparr>)"
    and "fieldIndex f < length (structFields (mtype m))"
    and "isArray f \<or> arrayLength f = 1"
proof -
  from assms(1) obtain fs where fs: "newFields 0 False (structFields (mtype m)) = Inr fs"
    and W: "wireFields de = assignOffsets 0 (wireOrder fs)"
    by (rule msgNewDecEncoder_unfold)
  let ?sfs = "structFields (mtype m)"
  from assms(2) have "f \<in> set (assignOffsets 0 (wireOrder fs))" by (simp only: W)
  from set_assignOffsets_sub [OF this]
  obtain f0 x where f0: "f0 \<in> set (wireOrder fs)" and f: "f = f0\<lparr>offset := x\<rparr>"
    by blast
  from f0 have "f0 \<in> set fs" by (auto simp: wireOrder_def set_sortBySize)
  then obtain k where k: "k < length fs" "f0 = fs ! k" by (auto simp: in_set_conv_nth)
  from newFields_props [OF fs] k have nf: "newField k (?sfs ! k) = Inr f0" and kl: "k < length ?sfs"
    by auto
  note p = newField_props [OF nf]
  from p(3) have "f0\<lparr>offset := 0\<rparr> = f0" by simp
  with f have f00: "f\<lparr>offset := 0\<rparr> = f0" by simp
  from f p(1) have fi: "fieldIndex f = k" by simp
  show "newField (fieldIndex f) (?sfs ! fieldIndex f) = Inr (f\<lparr>offset := 0\<rparr>)"
    by (simp only: fi f00 nf)
  show "fieldIndex f < length ?sfs" using fi kl by simp
  show "isArray f \<or> arrayLength f = 1" using p(4) f by simp
qed

lemma plan_offsets:
  assumes "msgNewDecEncoder m = Inr de" and "k < length (wireFields de)"
  shows "offset (wireFields de ! k) = payloadSize (take k (wireFields de))"
proof -
  from assms(1) obtain fs where W: "wireFields de = assignOffsets 0 (wireOrder fs)"
    by (rule msgNewDecEncoder_unfold)
  from assms(2) have k: "k < length (wireOrder fs)" by (simp add: W length_assignOffsets)
  have "payloadSize (take k (wireFields de)) = sum_list (take k (map fieldSize (wireFields de)))"
    by (simp add: payloadSize_def take_map)
  also have "\<dots> = payloadSize (take k (wireOrder fs))"
    by (simp add: W map_fieldSize_assignOffsets payloadSize_def take_map)
  finally show ?thesis using nth_assignOffsets [OF k, of 0] by (simp add: W)
qed


subsection \<open>Reading back what was written\<close>

lemma slice_concat:
  assumes "\<forall>x \<in> set xs. length (enc x) = sz x" and "k < length xs"
  shows "take (sz (xs ! k)) (drop (sum_list (map sz (take k xs))) (concat (map enc xs) @ rest))
           = enc (xs ! k)"
  using assms
proof (induction xs arbitrary: k)
  case Nil
  then show ?case by simp
next
  case (Cons x xs)
  show ?case
  proof (cases k)
    case 0
    with Cons.prems show ?thesis by simp
  next
    case (Suc j)
    with Cons.prems have j: "j < length xs" by simp
    from Cons.prems have all: "\<forall>y \<in> set xs. length (enc y) = sz y" by simp
    from Cons.prems have lx: "length (enc x) = sz x" by simp
    from Cons.IH [OF all j] Suc lx show ?thesis by simp
  qed
qed

lemma length_foldl_update:
  "length (foldl (\<lambda>vs f. vs[ix f := g f]) vs fs) = length vs"
  by (induction fs arbitrary: vs) auto

lemma nth_foldl_update_out:
  "i \<notin> ix ` set fs \<Longrightarrow> foldl (\<lambda>vs f. vs[ix f := g f]) vs fs ! i = vs ! i"
  by (induction fs arbitrary: vs) auto

lemma nth_foldl_update_in:
  assumes "distinct (map ix fs)" and "f \<in> set fs" and "ix f < length vs"
  shows "foldl (\<lambda>vs f. vs[ix f := g f]) vs fs ! ix f = g f"
  using assms
proof (induction fs arbitrary: vs)
  case Nil
  then show ?case by simp
next
  case (Cons a fs)
  show ?case
  proof (cases "f = a")
    case True
    from Cons.prems(1) have "ix a \<notin> ix ` set fs" by simp
    from nth_foldl_update_out [OF this, of g "vs[ix a := g a]"] True Cons.prems(3)
    show ?thesis by simp
  next
    case False
    with Cons.prems have "f \<in> set fs" "distinct (map ix fs)" by simp_all
    from Cons.IH [OF this(2) this(1), of "vs[ix a := g a]"] Cons.prems(3)
    show ?thesis by simp
  qed
qed

lemma decode_fold:
  assumes dW: "distinct (map ix W)" and sub: "set U \<subseteq> set W" and dU: "distinct (map ix U)"
    and onto: "ix ` set W = {0..<length vs0}"
    and inU: "\<forall>f \<in> set U. g f = val (ix f)"
    and outU: "\<forall>f \<in> set W. f \<notin> set U \<longrightarrow> vs0 ! ix f = val (ix f)"
  shows "foldl (\<lambda>vs f. vs[ix f := g f]) vs0 U = map val [0..<length vs0]"
proof (rule nth_equalityI)
  show "length (foldl (\<lambda>vs f. vs[ix f := g f]) vs0 U) = length (map val [0..<length vs0])"
    by (simp add: length_foldl_update)
next
  fix i assume "i < length (foldl (\<lambda>vs f. vs[ix f := g f]) vs0 U)"
  then have i: "i < length vs0" by (simp add: length_foldl_update)
  then have "i \<in> ix ` set W" by (simp add: onto)
  then obtain f where f: "f \<in> set W" "ix f = i" by auto
  show "foldl (\<lambda>vs f. vs[ix f := g f]) vs0 U ! i = map val [0..<length vs0] ! i"
  proof (cases "f \<in> set U")
    case True
    from inU True have "g f = val (ix f)" by blast
    with nth_foldl_update_in [OF dU True, of vs0 g] f(2) i
    show ?thesis by simp
  next
    case False
    have "i \<notin> ix ` set U"
    proof
      assume "i \<in> ix ` set U"
      then obtain h where h: "h \<in> set U" "ix h = i" by auto
      with sub have "h \<in> set W" by blast
      with dW f h(2) have "h = f" by (metis distinct_map inj_on_def)
      with h(1) False show False by simp
    qed
    from outU f(1) False have "vs0 ! ix f = val (ix f)" by blast
    then have "vs0 ! i = val i" by (simp only: f(2))
    with nth_foldl_update_out [OF \<open>i \<notin> ix ` set U\<close>, of g vs0] i
    show ?thesis by simp
  qed
qed

lemma mvalues_as_map:
  "mvalues m = map (valueAt m) [0..<length (mvalues m)]"
  by (rule nth_equalityI) (simp_all add: valueAt_def)

lemma zeroValues_nth:
  assumes "msgNewDecEncoder m0 = Inr de" and "f \<in> set (wireFields de)"
  shows "zeroValues de ! fieldIndex f = zeroValue f"
    and "length (zeroValues de) = length (wireFields de)"
proof -
  note ix = plan_indexes [OF assms(1)]
  from plan_descriptors(2) [OF assms] ix(3)
  have "fieldIndex f < length (replicate (length (wireFields de)) (Scalar 0))" by simp
  from nth_foldl_update_in [OF ix(1) assms(2) this, of zeroValue]
  show "zeroValues de ! fieldIndex f = zeroValue f" by (simp add: zeroValues_def)
  show "length (zeroValues de) = length (wireFields de)"
    by (simp add: zeroValues_def length_foldl_update)
qed

lemma decode_of_image:
  assumes plan: "msgNewDecEncoder m0 = Inr de" and fits: "fitsPlan de m"
    and U: "U = take c (wireFields de)"
    and rest: "\<forall>f \<in> set (wireFields de). f \<notin> set U \<longrightarrow> valueAt m (fieldIndex f) = zeroValue f"
  shows "foldl (\<lambda>vs f. vs[fieldIndex f :=
            decodeField f (take (fieldSize f) (drop (offset f)
              (concat (map (\<lambda>f. encodeField f (valueAt m (fieldIndex f))) U))))])
          (zeroValues de) U = mvalues m"
proof -
  let ?W = "wireFields de"
  let ?enc = "\<lambda>f. encodeField f (valueAt m (fieldIndex f))"
  let ?img = "concat (map ?enc U)"
  let ?g = "\<lambda>f. decodeField f (take (fieldSize f) (drop (offset f) ?img))"
  note ix = plan_indexes [OF plan]
  from fits have fitW: "\<forall>f \<in> set ?W. fitsField f (valueAt m (fieldIndex f))"
    and len: "length (mvalues m) = length ?W"
    by (simp_all add: fitsPlan_def list_all_iff)
  have lenenc: "\<forall>f \<in> set ?W. length (?enc f) = fieldSize f"
    using fitW plan_descriptors(3) [OF plan] by (simp add: length_encodeField)
  have subU: "set U \<subseteq> set ?W" unfolding U by (rule set_take_subset)
  have dU: "distinct (map fieldIndex U)"
    unfolding U using ix(1) by (simp add: take_map [symmetric])
  have inU: "\<forall>f \<in> set U. ?g f = valueAt m (fieldIndex f)"
  proof
    fix f assume "f \<in> set U"
    then obtain k where k: "k < length U" "f = U ! k" by (auto simp: in_set_conv_nth)
    then have kW: "k < length ?W" "k < c" "f = ?W ! k" by (simp_all add: U)
    have "offset f = payloadSize (take k ?W)"
      using plan_offsets [OF plan kW(1)] kW(3) by simp
    also have "take k ?W = take k U" using kW(2) by (simp add: U min_def)
    finally have off: "offset (U ! k) = sum_list (map fieldSize (take k U))"
      by (simp add: payloadSize_def k(2))
    have "\<forall>x \<in> set U. length (?enc x) = fieldSize x" using lenenc subU by blast
    from slice_concat [of U ?enc fieldSize k "[]", OF this k(1)]
    have "take (fieldSize f) (drop (offset f) ?img) = ?enc f"
      by (simp only: k(2) off) simp
    moreover have "fitsField f (valueAt m (fieldIndex f))"
      using fitW subU \<open>f \<in> set U\<close> by blast
    ultimately show "?g f = valueAt m (fieldIndex f)"
      by (simp add: decodeField_encodeField)
  qed
  have lz: "length (zeroValues de) = length ?W"
    by (simp add: zeroValues_def length_foldl_update)
  have onto: "fieldIndex ` set ?W = {0..<length (zeroValues de)}"
    using ix(2) ix(3) lz by simp
  have outU: "\<forall>f \<in> set ?W. f \<notin> set U \<longrightarrow> zeroValues de ! fieldIndex f = valueAt m (fieldIndex f)"
    using rest zeroValues_nth(1) [OF plan] by simp
  from decode_fold [of fieldIndex ?W U "zeroValues de" ?g "valueAt m", OF ix(1) subU dU onto inU outU]
  have "foldl (\<lambda>vs f. vs[fieldIndex f := ?g f]) (zeroValues de) U
          = map (valueAt m) [0..<length (zeroValues de)]" .
  also have "\<dots> = mvalues m" using mvalues_as_map [of m] len lz by simp
  finally show ?thesis .
qed


lemma length_image:
  assumes "\<forall>f \<in> set U. length (enc f) = fieldSize f"
  shows "length (concat (map enc U)) = payloadSize U"
  using assms by (induction U) (simp_all add: payloadSize_def)

lemma message_eqI: "mtype m = t \<Longrightarrow> mvalues m = vs \<Longrightarrow> \<lparr>mtype = t, mvalues = vs\<rparr> = m"
  by (cases m) simp


subsection \<open>The plans of the test file's message types\<close>

text \<open>
  The plan of each message type of src/msg/decencoder_test.go, computed by the
  definitions above. The CRC-extra of each is the value \<^verbatim>\<open>TestCRC\<close> expects
  (\<^verbatim>\<open>casesCRC\<close>: 50, 124, 217, 167, 175, 187, 127).
\<close>

lemmas name_eval = fieldNameOf_def field_def toLower_def isUpper_def toUpper_def isLower_def
  messageNameOf_def stripMessagePrefix_def

lemmas crc_eval =
  crcExtraInput_def crcFieldBytes_def foldCrc_def x25_def crcByte_def crcShift_def byteOfChar_def

lemma heartbeat_name: "messageNameOf MessageHeartbeat = ''HEARTBEAT''"
  by (simp add: MessageHeartbeat_def name_eval)

lemma heartbeat_declared:
  "newFields 0 False (structFields MessageHeartbeat) = Inr
        [\<lparr>fname = ''type'', ftype = Uint8, isArray = False, arrayLength = 1,
          isExtension = False, fieldIndex = 0, offset = 0\<rparr>,
         \<lparr>fname = ''autopilot'', ftype = Uint8, isArray = False, arrayLength = 1,
          isExtension = False, fieldIndex = 1, offset = 0\<rparr>,
         \<lparr>fname = ''base_mode'', ftype = Uint8, isArray = False, arrayLength = 1,
          isExtension = False, fieldIndex = 2, offset = 0\<rparr>,
         \<lparr>fname = ''custom_mode'', ftype = Uint32, isArray = False, arrayLength = 1,
          isExtension = False, fieldIndex = 3, offset = 0\<rparr>,
         \<lparr>fname = ''system_status'', ftype = Uint8, isArray = False, arrayLength = 1,
          isExtension = False, fieldIndex = 4, offset = 0\<rparr>,
         \<lparr>fname = ''mavlink_version'', ftype = Uint8, isArray = False, arrayLength = 1,
          isExtension = False, fieldIndex = 5, offset = 0\<rparr>]"
  by (simp add: MessageHeartbeat_def newField_def resolvePrim_def primOfTag_def name_eval)

lemma heartbeat_plan:
  "msgNewDecEncoder \<lparr>mtype = MessageHeartbeat, mvalues = vs\<rparr> = Inr
     \<lparr>elemType = MessageHeartbeat,
      wireFields =
        [\<lparr>fname = ''custom_mode'', ftype = Uint32, isArray = False, arrayLength = 1,
          isExtension = False, fieldIndex = 3, offset = 0\<rparr>,
         \<lparr>fname = ''type'', ftype = Uint8, isArray = False, arrayLength = 1,
          isExtension = False, fieldIndex = 0, offset = 4\<rparr>,
         \<lparr>fname = ''autopilot'', ftype = Uint8, isArray = False, arrayLength = 1,
          isExtension = False, fieldIndex = 1, offset = 5\<rparr>,
         \<lparr>fname = ''base_mode'', ftype = Uint8, isArray = False, arrayLength = 1,
          isExtension = False, fieldIndex = 2, offset = 6\<rparr>,
         \<lparr>fname = ''system_status'', ftype = Uint8, isArray = False, arrayLength = 1,
          isExtension = False, fieldIndex = 4, offset = 7\<rparr>,
         \<lparr>fname = ''mavlink_version'', ftype = Uint8, isArray = False, arrayLength = 1,
          isExtension = False, fieldIndex = 5, offset = 8\<rparr>],
      sizeNormal = 9, sizeExtended = 9, crcExtra = 50\<rparr>"
  by (simp add: msgNewDecEncoder_def Let_def heartbeat_declared heartbeat_name wireOrder_def
      fieldSize_def payloadSize_def crc_eval)

lemma sysStatus_name: "messageNameOf MessageSysStatus = ''SYS_STATUS''"
  by (simp add: MessageSysStatus_def name_eval)

lemma sysStatus_declared:
  "newFields 0 False (structFields MessageSysStatus) = Inr
        [\<lparr>fname = ''onboard_control_sensors_present'', ftype = Uint32, isArray = False, arrayLength = 1,
          isExtension = False, fieldIndex = 0, offset = 0\<rparr>,
         \<lparr>fname = ''onboard_control_sensors_enabled'', ftype = Uint32, isArray = False, arrayLength = 1,
          isExtension = False, fieldIndex = 1, offset = 0\<rparr>,
         \<lparr>fname = ''onboard_control_sensors_health'', ftype = Uint32, isArray = False, arrayLength = 1,
          isExtension = False, fieldIndex = 2, offset = 0\<rparr>,
         \<lparr>fname = ''load'', ftype = Uint16, isArray = False, arrayLength = 1,
          isExtension = False, fieldIndex = 3, offset = 0\<rparr>,
         \<lparr>fname = ''voltage_battery'', ftype = Uint16, isArray = False, arrayLength = 1,
          isExtension = False, fieldIndex = 4, offset = 0\<rparr>,
         \<lparr>fname = ''current_battery'', ftype = Int16, isArray = False, arrayLength = 1,
          isExtension = False, fieldIndex = 5, offset = 0\<rparr>,
         \<lparr>fname = ''battery_remaining'', ftype = Int8, isArray = False, arrayLength = 1,
          isExtension = False, fieldIndex = 6, offset = 0\<rparr>,
         \<lparr>fname = ''drop_rate_comm'', ftype = Uint16, isArray = False, arrayLength = 1,
          isExtension = False, fieldIndex = 7, offset = 0\<rparr>,
         \<lparr>fname = ''errors_comm'', ftype = Uint16, isArray = False, arrayLength = 1,
          isExtension = False, fieldIndex = 8, offset = 0\<rparr>,
         \<lparr>fname = ''errors_count1'', ftype = Uint16, isArray = False, arrayLength = 1,
          isExtension = False, fieldIndex = 9, offset = 0\<rparr>,
         \<lparr>fname = ''errors_count2'', ftype = Uint16, isArray = False, arrayLength = 1,
          isExtension = False, fieldIndex = 10, offset = 0\<rparr>,
         \<lparr>fname = ''errors_count3'', ftype = Uint16, isArray = False, arrayLength = 1,
          isExtension = False, fieldIndex = 11, offset = 0\<rparr>,
         \<lparr>fname = ''errors_count4'', ftype = Uint16, isArray = False, arrayLength = 1,
          isExtension = False, fieldIndex = 12, offset = 0\<rparr>]"
  by (simp add: MessageSysStatus_def newField_def resolvePrim_def primOfTag_def name_eval)

lemma sysStatus_plan:
  "msgNewDecEncoder \<lparr>mtype = MessageSysStatus, mvalues = vs\<rparr> = Inr
     \<lparr>elemType = MessageSysStatus,
      wireFields =
        [\<lparr>fname = ''onboard_control_sensors_present'', ftype = Uint32, isArray = False, arrayLength = 1,
          isExtension = False, fieldIndex = 0, offset = 0\<rparr>,
         \<lparr>fname = ''onboard_control_sensors_enabled'', ftype = Uint32, isArray = False, arrayLength = 1,
          isExtension = False, fieldIndex = 1, offset = 4\<rparr>,
         \<lparr>fname = ''onboard_control_sensors_health'', ftype = Uint32, isArray = False, arrayLength = 1,
          isExtension = False, fieldIndex = 2, offset = 8\<rparr>,
         \<lparr>fname = ''load'', ftype = Uint16, isArray = False, arrayLength = 1,
          isExtension = False, fieldIndex = 3, offset = 12\<rparr>,
         \<lparr>fname = ''voltage_battery'', ftype = Uint16, isArray = False, arrayLength = 1,
          isExtension = False, fieldIndex = 4, offset = 14\<rparr>,
         \<lparr>fname = ''current_battery'', ftype = Int16, isArray = False, arrayLength = 1,
          isExtension = False, fieldIndex = 5, offset = 16\<rparr>,
         \<lparr>fname = ''drop_rate_comm'', ftype = Uint16, isArray = False, arrayLength = 1,
          isExtension = False, fieldIndex = 7, offset = 18\<rparr>,
         \<lparr>fname = ''errors_comm'', ftype = Uint16, isArray = False, arrayLength = 1,
          isExtension = False, fieldIndex = 8, offset = 20\<rparr>,
         \<lparr>fname = ''errors_count1'', ftype = Uint16, isArray = False, arrayLength = 1,
          isExtension = False, fieldIndex = 9, offset = 22\<rparr>,
         \<lparr>fname = ''errors_count2'', ftype = Uint16, isArray = False, arrayLength = 1,
          isExtension = False, fieldIndex = 10, offset = 24\<rparr>,
         \<lparr>fname = ''errors_count3'', ftype = Uint16, isArray = False, arrayLength = 1,
          isExtension = False, fieldIndex = 11, offset = 26\<rparr>,
         \<lparr>fname = ''errors_count4'', ftype = Uint16, isArray = False, arrayLength = 1,
          isExtension = False, fieldIndex = 12, offset = 28\<rparr>,
         \<lparr>fname = ''battery_remaining'', ftype = Int8, isArray = False, arrayLength = 1,
          isExtension = False, fieldIndex = 6, offset = 30\<rparr>],
      sizeNormal = 31, sizeExtended = 31, crcExtra = 124\<rparr>"
  by (simp add: msgNewDecEncoder_def Let_def sysStatus_declared sysStatus_name wireOrder_def
      fieldSize_def payloadSize_def crc_eval)

lemma changeOperatorControl_name: "messageNameOf MessageChangeOperatorControl = ''CHANGE_OPERATOR_CONTROL''"
  by (simp add: MessageChangeOperatorControl_def name_eval)

lemma changeOperatorControl_declared:
  "newFields 0 False (structFields MessageChangeOperatorControl) = Inr
        [\<lparr>fname = ''target_system'', ftype = Uint8, isArray = False, arrayLength = 1,
          isExtension = False, fieldIndex = 0, offset = 0\<rparr>,
         \<lparr>fname = ''control_request'', ftype = Uint8, isArray = False, arrayLength = 1,
          isExtension = False, fieldIndex = 1, offset = 0\<rparr>,
         \<lparr>fname = ''version'', ftype = Uint8, isArray = False, arrayLength = 1,
          isExtension = False, fieldIndex = 2, offset = 0\<rparr>,
         \<lparr>fname = ''passkey'', ftype = CharP, isArray = True, arrayLength = 25,
          isExtension = False, fieldIndex = 3, offset = 0\<rparr>]"
  by (simp add: MessageChangeOperatorControl_def newField_def resolvePrim_def primOfTag_def name_eval)

lemma changeOperatorControl_plan:
  "msgNewDecEncoder \<lparr>mtype = MessageChangeOperatorControl, mvalues = vs\<rparr> = Inr
     \<lparr>elemType = MessageChangeOperatorControl,
      wireFields =
        [\<lparr>fname = ''target_system'', ftype = Uint8, isArray = False, arrayLength = 1,
          isExtension = False, fieldIndex = 0, offset = 0\<rparr>,
         \<lparr>fname = ''control_request'', ftype = Uint8, isArray = False, arrayLength = 1,
          isExtension = False, fieldIndex = 1, offset = 1\<rparr>,
         \<lparr>fname = ''version'', ftype = Uint8, isArray = False, arrayLength = 1,
          isExtension = False, fieldIndex = 2, offset = 2\<rparr>,
         \<lparr>fname = ''passkey'', ftype = CharP, isArray = True, arrayLength = 25,
          isExtension = False, fieldIndex = 3, offset = 3\<rparr>],
      sizeNormal = 28, sizeExtended = 28, crcExtra = 217\<rparr>"
  by (simp add: msgNewDecEncoder_def Let_def changeOperatorControl_declared changeOperatorControl_name wireOrder_def
      fieldSize_def payloadSize_def crc_eval)

lemma attitudeQuaternionCov_name: "messageNameOf MessageAttitudeQuaternionCov = ''ATTITUDE_QUATERNION_COV''"
  by (simp add: MessageAttitudeQuaternionCov_def name_eval)

lemma attitudeQuaternionCov_declared:
  "newFields 0 False (structFields MessageAttitudeQuaternionCov) = Inr
        [\<lparr>fname = ''time_usec'', ftype = Uint64, isArray = False, arrayLength = 1,
          isExtension = False, fieldIndex = 0, offset = 0\<rparr>,
         \<lparr>fname = ''q'', ftype = Float32, isArray = True, arrayLength = 4,
          isExtension = False, fieldIndex = 1, offset = 0\<rparr>,
         \<lparr>fname = ''rollspeed'', ftype = Float32, isArray = False, arrayLength = 1,
          isExtension = False, fieldIndex = 2, offset = 0\<rparr>,
         \<lparr>fname = ''pitchspeed'', ftype = Float32, isArray = False, arrayLength = 1,
          isExtension = False, fieldIndex = 3, offset = 0\<rparr>,
         \<lparr>fname = ''yawspeed'', ftype = Float32, isArray = False, arrayLength = 1,
          isExtension = False, fieldIndex = 4, offset = 0\<rparr>,
         \<lparr>fname = ''covariance'', ftype = Float32, isArray = True, arrayLength = 9,
          isExtension = False, fieldIndex = 5, offset = 0\<rparr>]"
  by (simp add: MessageAttitudeQuaternionCov_def newField_def resolvePrim_def primOfTag_def name_eval)

lemma attitudeQuaternionCov_plan:
  "msgNewDecEncoder \<lparr>mtype = MessageAttitudeQuaternionCov, mvalues = vs\<rparr> = Inr
     \<lparr>elemType = MessageAttitudeQuaternionCov,
      wireFields =
        [\<lparr>fname = ''time_usec'', ftype = Uint64, isArray = False, arrayLength = 1,
          isExtension = False, fieldIndex = 0, offset = 0\<rparr>,
         \<lparr>fname = ''q'', ftype = Float32, isArray = True, arrayLength = 4,
          isExtension = False, fieldIndex = 1, offset = 8\<rparr>,
         \<lparr>fname = ''rollspeed'', ftype = Float32, isArray = False, arrayLength = 1,
          isExtension = False, fieldIndex = 2, offset = 24\<rparr>,
         \<lparr>fname = ''pitchspeed'', ftype = Float32, isArray = False, arrayLength = 1,
          isExtension = False, fieldIndex = 3, offset = 28\<rparr>,
         \<lparr>fname = ''yawspeed'', ftype = Float32, isArray = False, arrayLength = 1,
          isExtension = False, fieldIndex = 4, offset = 32\<rparr>,
         \<lparr>fname = ''covariance'', ftype = Float32, isArray = True, arrayLength = 9,
          isExtension = False, fieldIndex = 5, offset = 36\<rparr>],
      sizeNormal = 72, sizeExtended = 72, crcExtra = 167\<rparr>"
  by (simp add: msgNewDecEncoder_def Let_def attitudeQuaternionCov_declared attitudeQuaternionCov_name wireOrder_def
      fieldSize_def payloadSize_def crc_eval)

lemma opticalFlow_name: "messageNameOf MessageOpticalFlow = ''OPTICAL_FLOW''"
  by (simp add: MessageOpticalFlow_def name_eval)

lemma opticalFlow_declared:
  "newFields 0 False (structFields MessageOpticalFlow) = Inr
        [\<lparr>fname = ''time_usec'', ftype = Uint64, isArray = False, arrayLength = 1,
          isExtension = False, fieldIndex = 0, offset = 0\<rparr>,
         \<lparr>fname = ''sensor_id'', ftype = Uint8, isArray = False, arrayLength = 1,
          isExtension = False, fieldIndex = 1, offset = 0\<rparr>,
         \<lparr>fname = ''flow_x'', ftype = Int16, isArray = False, arrayLength = 1,
          isExtension = False, fieldIndex = 2, offset = 0\<rparr>,
         \<lparr>fname = ''flow_y'', ftype = Int16, isArray = False, arrayLength = 1,
          isExtension = False, fieldIndex = 3, offset = 0\<rparr>,
         \<lparr>fname = ''flow_comp_m_x'', ftype = Float32, isArray = False, arrayLength = 1,
          isExtension = False, fieldIndex = 4, offset = 0\<rparr>,
         \<lparr>fname = ''flow_comp_m_y'', ftype = Float32, isArray = False, arrayLength = 1,
          isExtension = False, fieldIndex = 5, offset = 0\<rparr>,
         \<lparr>fname = ''quality'', ftype = Uint8, isArray = False, arrayLength = 1,
          isExtension = False, fieldIndex = 6, offset = 0\<rparr>,
         \<lparr>fname = ''ground_distance'', ftype = Float32, isArray = False, arrayLength = 1,
          isExtension = False, fieldIndex = 7, offset = 0\<rparr>,
         \<lparr>fname = ''flow_rate_x'', ftype = Float32, isArray = False, arrayLength = 1,
          isExtension = True, fieldIndex = 8, offset = 0\<rparr>,
         \<lparr>fname = ''flow_rate_y'', ftype = Float32, isArray = False, arrayLength = 1,
          isExtension = True, fieldIndex = 9, offset = 0\<rparr>]"
  by (simp add: MessageOpticalFlow_def newField_def resolvePrim_def primOfTag_def name_eval)

lemma opticalFlow_plan:
  "msgNewDecEncoder \<lparr>mtype = MessageOpticalFlow, mvalues = vs\<rparr> = Inr
     \<lparr>elemType = MessageOpticalFlow,
      wireFields =
        [\<lparr>fname = ''time_usec'', ftype = Uint64, isArray = False, arrayLength = 1,
          isExtension = False, fieldIndex = 0, offset = 0\<rparr>,
         \<lparr>fname = ''flow_comp_m_x'', ftype = Float32, isArray = False, arrayLength = 1,
          isExtension = False, fieldIndex = 4, offset = 8\<rparr>,
         \<lparr>fname = ''flow_comp_m_y'', ftype = Float32, isArray = False, arrayLength = 1,
          isExtension = False, fieldIndex = 5, offset = 12\<rparr>,
         \<lparr>fname = ''ground_distance'', ftype = Float32, isArray = False, arrayLength = 1,
          isExtension = False, fieldIndex = 7, offset = 16\<rparr>,
         \<lparr>fname = ''flow_x'', ftype = Int16, isArray = False, arrayLength = 1,
          isExtension = False, fieldIndex = 2, offset = 20\<rparr>,
         \<lparr>fname = ''flow_y'', ftype = Int16, isArray = False, arrayLength = 1,
          isExtension = False, fieldIndex = 3, offset = 22\<rparr>,
         \<lparr>fname = ''sensor_id'', ftype = Uint8, isArray = False, arrayLength = 1,
          isExtension = False, fieldIndex = 1, offset = 24\<rparr>,
         \<lparr>fname = ''quality'', ftype = Uint8, isArray = False, arrayLength = 1,
          isExtension = False, fieldIndex = 6, offset = 25\<rparr>,
         \<lparr>fname = ''flow_rate_x'', ftype = Float32, isArray = False, arrayLength = 1,
          isExtension = True, fieldIndex = 8, offset = 26\<rparr>,
         \<lparr>fname = ''flow_rate_y'', ftype = Float32, isArray = False, arrayLength = 1,
          isExtension = True, fieldIndex = 9, offset = 30\<rparr>],
      sizeNormal = 26, sizeExtended = 34, crcExtra = 175\<rparr>"
  by (simp add: msgNewDecEncoder_def Let_def opticalFlow_declared opticalFlow_name wireOrder_def
      fieldSize_def payloadSize_def crc_eval)

lemma playTune_name: "messageNameOf MessagePlayTune = ''PLAY_TUNE''"
  by (simp add: MessagePlayTune_def name_eval)

lemma playTune_declared:
  "newFields 0 False (structFields MessagePlayTune) = Inr
        [\<lparr>fname = ''target_system'', ftype = Uint8, isArray = False, arrayLength = 1,
          isExtension = False, fieldIndex = 0, offset = 0\<rparr>,
         \<lparr>fname = ''target_component'', ftype = Uint8, isArray = False, arrayLength = 1,
          isExtension = False, fieldIndex = 1, offset = 0\<rparr>,
         \<lparr>fname = ''tune'', ftype = CharP, isArray = True, arrayLength = 30,
          isExtension = False, fieldIndex = 2, offset = 0\<rparr>,
         \<lparr>fname = ''tune2'', ftype = CharP, isArray = True, arrayLength = 200,
          isExtension = True, fieldIndex = 3, offset = 0\<rparr>]"
  by (simp add: MessagePlayTune_def newField_def resolvePrim_def primOfTag_def name_eval)

lemma playTune_plan:
  "msgNewDecEncoder \<lparr>mtype = MessagePlayTune, mvalues = vs\<rparr> = Inr
     \<lparr>elemType = MessagePlayTune,
      wireFields =
        [\<lparr>fname = ''target_system'', ftype = Uint8, isArray = False, arrayLength = 1,
          isExtension = False, fieldIndex = 0, offset = 0\<rparr>,
         \<lparr>fname = ''target_component'', ftype = Uint8, isArray = False, arrayLength = 1,
          isExtension = False, fieldIndex = 1, offset = 1\<rparr>,
         \<lparr>fname = ''tune'', ftype = CharP, isArray = True, arrayLength = 30,
          isExtension = False, fieldIndex = 2, offset = 2\<rparr>,
         \<lparr>fname = ''tune2'', ftype = CharP, isArray = True, arrayLength = 200,
          isExtension = True, fieldIndex = 3, offset = 32\<rparr>],
      sizeNormal = 32, sizeExtended = 232, crcExtra = 187\<rparr>"
  by (simp add: msgNewDecEncoder_def Let_def playTune_declared playTune_name wireOrder_def
      fieldSize_def payloadSize_def crc_eval)

lemma ahrs_name: "messageNameOf MessageAhrs = ''AHRS''"
  by (simp add: MessageAhrs_def name_eval)

lemma ahrs_declared:
  "newFields 0 False (structFields MessageAhrs) = Inr
        [\<lparr>fname = ''omegaIx'', ftype = Float32, isArray = False, arrayLength = 1,
          isExtension = False, fieldIndex = 0, offset = 0\<rparr>,
         \<lparr>fname = ''omegaIy'', ftype = Float32, isArray = False, arrayLength = 1,
          isExtension = False, fieldIndex = 1, offset = 0\<rparr>,
         \<lparr>fname = ''omegaIz'', ftype = Float32, isArray = False, arrayLength = 1,
          isExtension = False, fieldIndex = 2, offset = 0\<rparr>,
         \<lparr>fname = ''accel_weight'', ftype = Float32, isArray = False, arrayLength = 1,
          isExtension = False, fieldIndex = 3, offset = 0\<rparr>,
         \<lparr>fname = ''renorm_val'', ftype = Float32, isArray = False, arrayLength = 1,
          isExtension = False, fieldIndex = 4, offset = 0\<rparr>,
         \<lparr>fname = ''error_rp'', ftype = Float32, isArray = False, arrayLength = 1,
          isExtension = False, fieldIndex = 5, offset = 0\<rparr>,
         \<lparr>fname = ''error_yaw'', ftype = Float32, isArray = False, arrayLength = 1,
          isExtension = False, fieldIndex = 6, offset = 0\<rparr>]"
  by (simp add: MessageAhrs_def newField_def resolvePrim_def primOfTag_def name_eval)

lemma ahrs_plan:
  "msgNewDecEncoder \<lparr>mtype = MessageAhrs, mvalues = vs\<rparr> = Inr
     \<lparr>elemType = MessageAhrs,
      wireFields =
        [\<lparr>fname = ''omegaIx'', ftype = Float32, isArray = False, arrayLength = 1,
          isExtension = False, fieldIndex = 0, offset = 0\<rparr>,
         \<lparr>fname = ''omegaIy'', ftype = Float32, isArray = False, arrayLength = 1,
          isExtension = False, fieldIndex = 1, offset = 4\<rparr>,
         \<lparr>fname = ''omegaIz'', ftype = Float32, isArray = False, arrayLength = 1,
          isExtension = False, fieldIndex = 2, offset = 8\<rparr>,
         \<lparr>fname = ''accel_weight'', ftype = Float32, isArray = False, arrayLength = 1,
          isExtension = False, fieldIndex = 3, offset = 12\<rparr>,
         \<lparr>fname = ''renorm_val'', ftype = Float32, isArray = False, arrayLength = 1,
          isExtension = False, fieldIndex = 4, offset = 16\<rparr>,
         \<lparr>fname = ''error_rp'', ftype = Float32, isArray = False, arrayLength = 1,
          isExtension = False, fieldIndex = 5, offset = 20\<rparr>,
         \<lparr>fname = ''error_yaw'', ftype = Float32, isArray = False, arrayLength = 1,
          isExtension = False, fieldIndex = 6, offset = 24\<rparr>],
      sizeNormal = 28, sizeExtended = 28, crcExtra = 127\<rparr>"
  by (simp add: msgNewDecEncoder_def Let_def ahrs_declared ahrs_name wireOrder_def
      fieldSize_def payloadSize_def crc_eval)

subsection \<open>The messages of the test file on the wire\<close>

text \<open>
  The messages of \<^verbatim>\<open>casesMsgs\<close> in src/msg/decencoder_test.go. The float 1 is the bit
  pattern 0x3F800000, 2 is 0x40000000, 3 is 0x40400000, 4 is 0x40800000 and 5 is
  0x40A00000.
\<close>

definition heartbeat1 :: message where
  "heartbeat1 = \<lparr>mtype = MessageHeartbeat,
      mvalues = [Scalar 1, Scalar 2, Scalar 3, Scalar 6, Scalar 4, Scalar 5]\<rparr>"

definition opticalFlowV1 :: message where
  "opticalFlowV1 = \<lparr>mtype = MessageOpticalFlow,
      mvalues = [Scalar 3, Scalar 9, Scalar 7, Scalar 8, Scalar 0x3F800000, Scalar 0x3F800000,
                 Scalar 10, Scalar 0x3F800000, Scalar 0, Scalar 0]\<rparr>"

definition opticalFlowV2 :: message where
  "opticalFlowV2 = \<lparr>mtype = MessageOpticalFlow,
      mvalues = [Scalar 3, Scalar 9, Scalar 7, Scalar 8, Scalar 0x3F800000, Scalar 0x3F800000,
                 Scalar 10, Scalar 0x3F800000, Scalar 0x3F800000, Scalar 0x3F800000]\<rparr>"

definition ahrsZero :: message where
  "ahrsZero = \<lparr>mtype = MessageAhrs,
      mvalues = [Scalar 0, Scalar 0, Scalar 0, Scalar 0, Scalar 0, Scalar 0, Scalar 0]\<rparr>"

definition ahrs1 :: message where
  "ahrs1 = \<lparr>mtype = MessageAhrs,
      mvalues = [Scalar 0x3F800000, Scalar 0x40000000, Scalar 0x40400000, Scalar 0x40800000,
                 Scalar 0x40A00000, Scalar 0, Scalar 0]\<rparr>"

definition changeOperatorControl1 :: message where
  "changeOperatorControl1 = \<lparr>mtype = MessageChangeOperatorControl,
      mvalues = [Scalar 0, Scalar 1, Scalar 2, Str ''testing'']\<rparr>"

definition playTune1 :: message where
  "playTune1 = \<lparr>mtype = MessagePlayTune,
      mvalues = [Scalar 1, Scalar 2, Str ''test1'', Str ''test2'']\<rparr>"

text \<open>Rules that let the simplifier run the codec on numerals.\<close>

lemma leBytes_numeral:
  "leBytes (numeral k) v = of_nat v # leBytes (pred_numeral k) (v div 256)"
  by (simp only: numeral_eq_Suc [of k] leBytes.simps)

lemma splitEvery_numeral:
  "splitEvery (numeral k) sz bs = take sz bs # splitEvery (pred_numeral k) sz (drop sz bs)"
  by (simp add: numeral_eq_Suc)

lemma replicate_numeral_Cons:
  "replicate (numeral k) x = x # replicate (pred_numeral k) x"
  by (simp add: numeral_eq_Suc)

lemma list_update_numeral:
  "(x # xs)[numeral k := y] = x # xs[pred_numeral k := y]"
  by (simp add: numeral_eq_Suc)

lemmas encode_eval =
  msgEncode_def payloadImage_def usedFields_def encodeField_def encodeNum_def valueAt_def
  truncatePayload_def leBytes_numeral replicate_numeral_Cons byteOfChar_def Let_def

lemmas decode_eval =
  msgDecode_def usedFields_def zeroValues_def zeroValue_def decodeField_def decodeNum_def
  splitEvery_numeral replicate_numeral_Cons list_update_numeral fieldSize_def Let_def

lemmas fits_eval =
  fitsPlan_def extensionsZero_def fitsField_def inRange_def valueAt_def zeroValue_def

text \<open>
  \<^verbatim>\<open>TestEncode\<close> and \<^verbatim>\<open>TestDecode\<close> on these messages: the model gives the bytes the
  test expects, and reads them back.
\<close>

lemma zeroMessage_ahrs: "zeroMessage MessageAhrs = ahrsZero"
  by (simp add: zeroMessage_def ahrsZero_def zeroOfStructField_def MessageAhrs_def field_def)

lemma encode_heartbeat_v1:
  "\<exists>de. msgNewDecEncoder heartbeat1 = Inr de \<and>
        msgEncode de heartbeat1 False = [6, 0, 0, 0, 1, 2, 3, 4, 5] \<and>
        msgDecode de [6, 0, 0, 0, 1, 2, 3, 4, 5] False = Inr heartbeat1"
  by (simp add: heartbeat_plan heartbeat1_def encode_eval decode_eval)

lemma encode_opticalFlow_v1:
  "\<exists>de. msgNewDecEncoder opticalFlowV1 = Inr de \<and>
        msgEncode de opticalFlowV1 False =
          [3, 0, 0, 0, 0, 0, 0, 0, 0, 0, 0x80, 0x3F, 0, 0, 0x80, 0x3F, 0, 0, 0x80, 0x3F,
           7, 0, 8, 0, 9, 10] \<and>
        msgDecode de
          [3, 0, 0, 0, 0, 0, 0, 0, 0, 0, 0x80, 0x3F, 0, 0, 0x80, 0x3F, 0, 0, 0x80, 0x3F,
           7, 0, 8, 0, 9, 10] False = Inr opticalFlowV1"
  by (simp add: opticalFlow_plan opticalFlowV1_def encode_eval decode_eval)

lemma encode_opticalFlow_v2:
  "\<exists>de. msgNewDecEncoder opticalFlowV2 = Inr de \<and>
        msgEncode de opticalFlowV2 True =
          [3, 0, 0, 0, 0, 0, 0, 0, 0, 0, 0x80, 0x3F, 0, 0, 0x80, 0x3F, 0, 0, 0x80, 0x3F,
           7, 0, 8, 0, 9, 10, 0, 0, 0x80, 0x3F, 0, 0, 0x80, 0x3F] \<and>
        msgDecode de
          [3, 0, 0, 0, 0, 0, 0, 0, 0, 0, 0x80, 0x3F, 0, 0, 0x80, 0x3F, 0, 0, 0x80, 0x3F,
           7, 0, 8, 0, 9, 10, 0, 0, 0x80, 0x3F, 0, 0, 0x80, 0x3F] True = Inr opticalFlowV2"
  by (simp add: opticalFlow_plan opticalFlowV2_def encode_eval decode_eval)

lemma encode_ahrs_zero_v2:
  "\<exists>de. msgNewDecEncoder ahrsZero = Inr de \<and>
        msgEncode de ahrsZero True = [0] \<and>
        msgDecode de [0] True = Inr ahrsZero"
  by (simp add: ahrs_plan ahrsZero_def encode_eval decode_eval)

lemma encode_ahrs_v2:
  "\<exists>de. msgNewDecEncoder ahrs1 = Inr de \<and>
        msgEncode de ahrs1 True =
          [0, 0, 0x80, 0x3F, 0, 0, 0, 0x40, 0, 0, 0x40, 0x40, 0, 0, 0x80, 0x40,
           0, 0, 0xA0, 0x40] \<and>
        msgDecode de
          [0, 0, 0x80, 0x3F, 0, 0, 0, 0x40, 0, 0, 0x40, 0x40, 0, 0, 0x80, 0x40,
           0, 0, 0xA0, 0x40] True = Inr ahrs1"
  by (simp add: ahrs_plan ahrs1_def encode_eval decode_eval)

lemma encode_changeOperatorControl_v2:
  "\<exists>de. msgNewDecEncoder changeOperatorControl1 = Inr de \<and>
        msgEncode de changeOperatorControl1 True =
          [0x00, 0x01, 0x02, 0x74, 0x65, 0x73, 0x74, 0x69, 0x6e, 0x67]"
  by (simp add: changeOperatorControl_plan changeOperatorControl1_def encode_eval)

lemma encode_changeOperatorControl_v1:
  "\<exists>de. msgNewDecEncoder changeOperatorControl1 = Inr de \<and>
        msgEncode de changeOperatorControl1 False =
          [0x00, 0x01, 0x02, 0x74, 0x65, 0x73, 0x74, 0x69, 0x6e, 0x67,
           0, 0, 0, 0, 0, 0, 0, 0, 0, 0, 0, 0, 0, 0, 0, 0, 0, 0]"
  by (simp add: changeOperatorControl_plan changeOperatorControl1_def encode_eval)

lemma encode_playTune_v2:
  "\<exists>de. msgNewDecEncoder playTune1 = Inr de \<and>
        msgEncode de playTune1 True =
          [0x01, 0x02, 0x74, 0x65, 0x73, 0x74, 0x31, 0, 0, 0, 0, 0, 0, 0, 0, 0, 0, 0, 0, 0,
           0, 0, 0, 0, 0, 0, 0, 0, 0, 0, 0, 0, 0x74, 0x65, 0x73, 0x74, 0x32]"
  by (simp add: playTune_plan playTune1_def encode_eval)

subsection \<open>The wire order\<close>



subsection \<open>The CRC-extra\<close>




subsection \<open>Empty-byte truncation\<close>

text \<open>
  Claim C5. The v2 encoding of a message is its serialized payload, extension fields
  included, without trailing zero bytes: the payload is the encoding followed by zeros
  only. When the payload is not empty the encoding is not empty either, and it is one
  byte long or ends in a byte that is not zero. A payload of zeros only is encoded as
  the single byte 0x00.
\<close>

theorem v2_truncation:
  "payloadImage de m True =
     concat (map (\<lambda>f. encodeField f (valueAt m (fieldIndex f))) (wireFields de)) \<and>
   (\<exists>k. msgEncode de m True @ replicate k 0 = payloadImage de m True) \<and>
   (payloadImage de m True \<noteq> [] \<longrightarrow>
      msgEncode de m True \<noteq> [] \<and>
      (length (msgEncode de m True) = 1 \<or> last (msgEncode de m True) \<noteq> 0)) \<and>
   (payloadImage de m True \<noteq> [] \<and> set (payloadImage de m True) \<subseteq> {0} \<longrightarrow>
      msgEncode de m True = [0])"
proof -
  let ?img = "payloadImage de m True"
  have enc: "msgEncode de m True = truncatePayload ?img" by (simp add: msgEncode_def)
  have a: "?img = concat (map (\<lambda>f. encodeField f (valueAt m (fieldIndex f))) (wireFields de))"
    by (simp add: payloadImage_def usedFields_def)
  have b: "\<exists>k. msgEncode de m True @ replicate k 0 = ?img"
    using truncatePayload_padding [of ?img] by (simp only: enc)
  have c: "?img \<noteq> [] \<longrightarrow> msgEncode de m True \<noteq> [] \<and>
      (length (msgEncode de m True) = 1 \<or> last (msgEncode de m True) \<noteq> 0)"
  proof
    assume ne: "?img \<noteq> []"
    show "msgEncode de m True \<noteq> [] \<and>
      (length (msgEncode de m True) = 1 \<or> last (msgEncode de m True) \<noteq> 0)"
    proof (cases "stripZeros ?img = []")
      case True
      then have t: "truncatePayload ?img = take 1 ?img" by (simp add: truncatePayload_def)
      from ne have "length (take 1 ?img) = 1" by (cases ?img) simp_all
      then have "length (truncatePayload ?img) = 1" by (simp only: t)
      then have l1: "length (msgEncode de m True) = 1" by (simp only: enc)
      then have "msgEncode de m True \<noteq> []" by (metis length_0_conv zero_neq_one)
      with l1 show ?thesis by blast
    next
      case False
      then have "truncatePayload ?img = stripZeros ?img"
        by (simp add: truncatePayload_def Let_def)
      with False stripZeros_last [OF False]
      have "truncatePayload ?img \<noteq> []" "last (truncatePayload ?img) \<noteq> 0" by simp_all
      then show ?thesis by (simp only: enc) blast
    qed
  qed
  have d: "?img \<noteq> [] \<and> set ?img \<subseteq> {0} \<longrightarrow> msgEncode de m True = [0]"
  proof
    assume h: "?img \<noteq> [] \<and> set ?img \<subseteq> {0}"
    then have "stripZeros ?img = []" by (simp add: stripZeros_all_zero)
    then have t: "truncatePayload ?img = take 1 ?img" by (simp add: truncatePayload_def)
    from h have "take 1 ?img = [0]" by (cases ?img) auto
    then show "msgEncode de m True = [0]" by (simp only: enc t)
  qed
  show ?thesis by (rule conjI [OF a conjI [OF b conjI [OF c d]]])
qed

text \<open>
  The theorem on \<^verbatim>\<open>&MessageAhrs{}\<close>, whose 28 payload bytes are all zero, and on the
  \<^verbatim>\<open>MessageAhrs\<close> of the test whose last two floats are zero.
\<close>

theorem v2_truncation_witness:
  "\<exists>de. msgNewDecEncoder ahrsZero = Inr de \<and>
        payloadImage de ahrsZero True = replicate 28 0 \<and>
        msgEncode de ahrsZero True = [0] \<and>
        payloadImage de ahrs1 True =
          [0, 0, 0x80, 0x3F, 0, 0, 0, 0x40, 0, 0, 0x40, 0x40, 0, 0, 0x80, 0x40,
           0, 0, 0xA0, 0x40, 0, 0, 0, 0, 0, 0, 0, 0] \<and>
        msgEncode de ahrs1 True \<noteq> [] \<and>
        (length (msgEncode de ahrs1 True) = 1 \<or> last (msgEncode de ahrs1 True) \<noteq> 0) \<and>
        (\<exists>k. msgEncode de ahrs1 True @ replicate k 0 = payloadImage de ahrs1 True)"
proof -
  obtain de where plan: "msgNewDecEncoder ahrsZero = Inr de"
    and i0: "payloadImage de ahrsZero True = replicate 28 0"
    and i1: "payloadImage de ahrs1 True =
          [0, 0, 0x80, 0x3F, 0, 0, 0, 0x40, 0, 0, 0x40, 0x40, 0, 0, 0x80, 0x40,
           0, 0, 0xA0, 0x40, 0, 0, 0, 0, 0, 0, 0, 0]"
    by (simp add: ahrs_plan ahrsZero_def ahrs1_def encode_eval)
  have z: "payloadImage de ahrsZero True \<noteq> [] \<and> set (payloadImage de ahrsZero True) \<subseteq> {0}"
    by (simp add: i0)
  from v2_truncation [of de ahrsZero] z
  have a: "msgEncode de ahrsZero True = [0]" by blast
  have ne: "payloadImage de ahrs1 True \<noteq> []" by (simp add: i1)
  from v2_truncation [of de ahrs1] ne
  have b: "msgEncode de ahrs1 True \<noteq> []"
    "length (msgEncode de ahrs1 True) = 1 \<or> last (msgEncode de ahrs1 True) \<noteq> 0"
    "\<exists>k. msgEncode de ahrs1 True @ replicate k 0 = payloadImage de ahrs1 True"
    by blast+
  show ?thesis
    by (rule exI [of _ de]) (intro conjI plan i0 a i1 b)
qed

subsection \<open>Decoding an encoding\<close>

text \<open>
  Claim C1 says that decoding an encoding gives the message back under both versions.
  Under v1 the extension fields are not written: the \<^verbatim>\<open>MessageOpticalFlow\<close> of the test
  with both extension floats 1 is encoded as the 26 bytes of the fields that are not
  extensions, and these decode to the message with both extension floats 0.
\<close>

theorem v1_drops_extensions_counterexample:
  "\<exists>de. msgNewDecEncoder opticalFlowV2 = Inr de \<and>
        fitsPlan de opticalFlowV2 \<and>
        msgDecode de (msgEncode de opticalFlowV2 False) False = Inr opticalFlowV1 \<and>
        msgDecode de (msgEncode de opticalFlowV2 False) False \<noteq> Inr opticalFlowV2"
  by (simp add: opticalFlow_plan opticalFlowV2_def opticalFlowV1_def encode_eval decode_eval
      fits_eval)

text \<open>
  The decoder on the bytes of the test, and two values that Go's types admit but the
  wire does not hold whole: an enum value beyond its underlying primitive, and a string
  longer than its declared length. They are not read back as they were, which is why
  the amended claim speaks of messages that fit their plan.
\<close>

lemmas string_eval = charOfByte_def char_of_def bit_0

lemma decode_changeOperatorControl:
  "\<exists>de. msgNewDecEncoder changeOperatorControl1 = Inr de \<and>
        msgDecode de [0x00, 0x01, 0x02, 0x74, 0x65, 0x73, 0x74, 0x69, 0x6e, 0x67] True
          = Inr changeOperatorControl1 \<and>
        msgDecode de
          [0x00, 0x01, 0x02, 0x74, 0x65, 0x73, 0x74, 0x69, 0x6e, 0x67,
           0, 0, 0, 0, 0, 0, 0, 0, 0, 0, 0, 0, 0, 0, 0, 0, 0, 0] False
          = Inr changeOperatorControl1"
  by (simp add: changeOperatorControl_plan changeOperatorControl1_def decode_eval string_eval)

lemma decode_playTune_v2:
  "\<exists>de. msgNewDecEncoder playTune1 = Inr de \<and>
        msgDecode de
          [0x01, 0x02, 0x74, 0x65, 0x73, 0x74, 0x31, 0, 0, 0, 0, 0, 0, 0, 0, 0, 0, 0, 0, 0,
           0, 0, 0, 0, 0, 0, 0, 0, 0, 0, 0, 0, 0x74, 0x65, 0x73, 0x74, 0x32] True
          = Inr playTune1"
  by (simp add: playTune_plan playTune1_def decode_eval string_eval)

lemma enum_out_of_range_not_read_back:
  "\<exists>de. msgNewDecEncoder heartbeat1 = Inr de \<and>
        msgDecode de (msgEncode de
          \<lparr>mtype = MessageHeartbeat,
            mvalues = [Scalar 256, Scalar 2, Scalar 3, Scalar 6, Scalar 4, Scalar 5]\<rparr> True) True
          = Inr \<lparr>mtype = MessageHeartbeat,
            mvalues = [Scalar 0, Scalar 2, Scalar 3, Scalar 6, Scalar 4, Scalar 5]\<rparr>"
  by (simp add: heartbeat_plan heartbeat1_def encode_eval decode_eval)

lemma long_string_not_read_back:
  "\<exists>de. msgNewDecEncoder changeOperatorControl1 = Inr de \<and>
        msgDecode de (msgEncode de
          \<lparr>mtype = MessageChangeOperatorControl,
            mvalues = [Scalar 0, Scalar 1, Scalar 2, Str ''abcdefghijklmnopqrstuvwxyz'']\<rparr> True) True
          = Inr \<lparr>mtype = MessageChangeOperatorControl,
            mvalues = [Scalar 0, Scalar 1, Scalar 2, Str ''abcdefghijklmnopqrstuvwxy'']\<rparr>"
  by (simp add: changeOperatorControl_plan changeOperatorControl1_def encode_eval decode_eval
      string_eval)

text \<open>
  Claim C1, amended. For every message that fits its plan, decoding the v2 encoding
  gives the message back; decoding the v1 encoding gives it back when every
  extension field of the message holds its zero value.
\<close>

theorem decode_encode:
  assumes plan: "msgNewDecEncoder m0 = Inr de" and fits: "fitsPlan de m"
  shows "msgDecode de (msgEncode de m True) True = Inr m \<and>
         (extensionsZero de m \<longrightarrow> msgDecode de (msgEncode de m False) False = Inr m)"
proof
  let ?W = "wireFields de"
  let ?enc = "\<lambda>f. encodeField f (valueAt m (fieldIndex f))"
  from fits have fitW: "\<forall>f \<in> set ?W. fitsField f (valueAt m (fieldIndex f))"
    and ty: "mtype m = elemType de"
    by (simp_all add: fitsPlan_def list_all_iff)
  have lenenc: "\<forall>f \<in> set ?W. length (?enc f) = fieldSize f"
    using fitW plan_descriptors(3) [OF plan] by (simp add: length_encodeField)
  from plan obtain fs where Wfs: "?W = assignOffsets 0 (wireOrder fs)"
    and sn: "sizeNormal de = payloadSize (filter (\<lambda>f. \<not> isExtension f) ?W)"
    and se: "sizeExtended de = payloadSize ?W"
    by (rule msgNewDecEncoder_unfold)
  show "msgDecode de (msgEncode de m True) True = Inr m"
  proof -
    let ?img = "concat (map ?enc ?W)"
    have img: "payloadImage de m True = ?img"
      by (simp add: payloadImage_def usedFields_def)
    have "length ?img = sizeExtended de"
      using length_image [of ?W ?enc, OF lenenc] se by simp
    then have unpad: "truncatePayload ?img @ replicate (sizeExtended de - length (truncatePayload ?img)) 0 = ?img"
      using zero_extend_truncatePayload [of ?img] by simp
    have "foldl (\<lambda>vs f. vs[fieldIndex f :=
            decodeField f (take (fieldSize f) (drop (offset f) (concat (map ?enc (take (length ?W) ?W)))))])
          (zeroValues de) (take (length ?W) ?W) = mvalues m"
      by (rule decode_of_image [OF plan fits refl]) simp
    then have "foldl (\<lambda>vs f. vs[fieldIndex f :=
            decodeField f (take (fieldSize f) (drop (offset f) ?img))])
          (zeroValues de) ?W = mvalues m" by simp
    then show ?thesis
      by (simp add: msgDecode_def msgEncode_def img unpad usedFields_def Let_def message_eqI ty)
  qed
  show "extensionsZero de m \<longrightarrow> msgDecode de (msgEncode de m False) False = Inr m"
  proof
    assume ez: "extensionsZero de m"
    let ?U = "filter (\<lambda>f. \<not> isExtension f) ?W"
    let ?img = "concat (map ?enc ?U)"
    obtain c where U: "?U = take c ?W"
      using wire_split(4) [of fs] by (simp add: Wfs)
    have img: "payloadImage de m False = ?img"
      by (simp add: payloadImage_def usedFields_def)
    have "\<forall>f \<in> set ?U. length (?enc f) = fieldSize f" using lenenc by simp
    from length_image [of ?U ?enc, OF this] sn have len: "length ?img = sizeNormal de" by simp
    have rest: "\<forall>f \<in> set ?W. f \<notin> set ?U \<longrightarrow> valueAt m (fieldIndex f) = zeroValue f"
      using ez by (simp add: extensionsZero_def list_all_iff)
    have "foldl (\<lambda>vs f. vs[fieldIndex f :=
            decodeField f (take (fieldSize f) (drop (offset f) ?img))])
          (zeroValues de) ?U = mvalues m"
      by (rule decode_of_image [OF plan fits U rest])
    then show "msgDecode de (msgEncode de m False) False = Inr m"
      by (simp add: msgDecode_def msgEncode_def img len usedFields_def Let_def message_eqI ty)
  qed
qed

text \<open>
  The theorem on the two \<^verbatim>\<open>MessageOpticalFlow\<close> values of the test: the one with
  extension values under v2, the one without under v1.
\<close>

theorem decode_encode_witness:
  "\<exists>de. msgNewDecEncoder opticalFlowV2 = Inr de \<and>
        fitsPlan de opticalFlowV2 \<and>
        msgDecode de (msgEncode de opticalFlowV2 True) True = Inr opticalFlowV2 \<and>
        fitsPlan de opticalFlowV1 \<and> extensionsZero de opticalFlowV1 \<and>
        msgDecode de (msgEncode de opticalFlowV1 False) False = Inr opticalFlowV1"
proof -
  obtain de where plan: "msgNewDecEncoder opticalFlowV2 = Inr de"
    and f2: "fitsPlan de opticalFlowV2"
    and f1: "fitsPlan de opticalFlowV1" and z1: "extensionsZero de opticalFlowV1"
    by (simp add: opticalFlow_plan opticalFlowV2_def opticalFlowV1_def fits_eval)
  from decode_encode [OF plan f2]
  have a: "msgDecode de (msgEncode de opticalFlowV2 True) True = Inr opticalFlowV2" by blast
  from decode_encode [OF plan f1] z1
  have b: "msgDecode de (msgEncode de opticalFlowV1 False) False = Inr opticalFlowV1" by blast
  from plan f2 a f1 z1 b show ?thesis by blast
qed


section \<open>Frames, the node's write operations and signature verification\<close>

text \<open>
  Modelled from the spec: the frame serializer, the node's write operations and the
  verification of signatures (frame.go, parser.go and node.go of the repository) are not
  among the sources; only the node's test, src/node_test.go, is. The definitions of
  this section follow the specification: the frame record and the signature state of
  section 3, the frame codec of section 4.2, the node's operations and routing policy
  of section 4.6, and the wire format of section 6. SHA-256 is a parameter \<open>sha256\<close> of
  every definition that signs or verifies; no property below depends on what it
  computes.
\<close>

subsection \<open>Frames on the wire\<close>

text \<open>
  A decoded frame: version, flags, sequence number, source system and component, the
  decoded message (which carries its id), the raw wire bytes, the checksum as observed
  and, for a signed v2 frame, link id, timestamp and signature.
\<close>

record Frame =
  isV2 :: bool
  IncompatibilityFlag :: byte
  CompatibilityFlag :: byte
  SequenceId :: byte
  SystemId :: byte
  ComponentId :: byte
  Message :: message
  Raw :: "byte list"
  Checksum :: "16 word"
  SignatureLinkId :: byte
  SignatureTimestamp :: "48 word"
  Signature :: "byte list option"

text \<open>
  The header: \<^verbatim>\<open>0xFE | len | seq | sysid | compid | msgid\<close> for v1 and
  \<^verbatim>\<open>0xFD | len | incompat | compat | seq | sysid | compid | msgid(3 LE)\<close> for v2. The
  sequence number is the byte at \<open>seqIndex\<close>.
\<close>

definition frameHeader :: "Frame \<Rightarrow> nat \<Rightarrow> byte list" where
  "frameHeader f len =
     (if isV2 f then
        [0xFD, of_nat len, IncompatibilityFlag f, CompatibilityFlag f, SequenceId f,
         SystemId f, ComponentId f] @ leBytes 3 (unat (msgId (mtype (Message f))))
      else
        [0xFE, of_nat len, SequenceId f, SystemId f, ComponentId f,
         ucast (msgId (mtype (Message f)))])"

definition seqIndex :: "bool \<Rightarrow> nat" where
  "seqIndex v2 = (if v2 then 4 else 2)"

text \<open>
  The checksum: the X.25 CRC over every byte after the magic, the plan's CRC-extra
  folded in as a last byte. It is written little-endian.
\<close>

definition frameChecksum :: "DecEncoder \<Rightarrow> byte list \<Rightarrow> 16 word" where
  "frameChecksum de afterMagic = x25 (afterMagic @ [crcExtra de])"

text \<open>
  The signature: the first six bytes of the hash of the key, the frame from its header
  through its checksum, the link id and the six bytes of the timestamp.
\<close>

definition frameSignature ::
  "(byte list \<Rightarrow> byte list) \<Rightarrow> byte list \<Rightarrow> byte list \<Rightarrow> byte \<Rightarrow> 48 word \<Rightarrow> byte list" where
  "frameSignature sha256 key throughCrc link ts =
     take 6 (sha256 (key @ throughCrc @ [link] @ leBytes 6 (unat ts)))"

text \<open>
  Modelled from the spec: the serializer of a frame (frame.go and parser.go, not among
  the sources), after the steps of Encode in section 4.2: the payload of the message
  under the frame's version, the header in front, the checksum behind and, for a v2
  frame when an outgoing key is set, the signed bit in the incompatibility flags and
  the trailer of link id, timestamp and signature.
\<close>

definition encodeFrame ::
  "(byte list \<Rightarrow> byte list) \<Rightarrow> DecEncoder \<Rightarrow> byte list option \<Rightarrow> Frame \<Rightarrow> byte list" where
  "encodeFrame sha256 de key f =
     (let signing = (isV2 f \<and> key \<noteq> None);
          f1 = (if signing then f\<lparr>IncompatibilityFlag := IncompatibilityFlag f OR 1\<rparr> else f);
          payload = msgEncode de (Message f1) (isV2 f1);
          hdr = frameHeader f1 (length payload);
          crc = frameChecksum de (tl hdr @ payload);
          throughCrc = hdr @ payload @ [ucast crc, ucast (drop_bit 8 crc)]
      in case key of
           None \<Rightarrow> throughCrc
         | Some k \<Rightarrow>
             if isV2 f then
               throughCrc @ [SignatureLinkId f] @ leBytes 6 (unat (SignatureTimestamp f)) @
               frameSignature sha256 k throughCrc (SignatureLinkId f) (SignatureTimestamp f)
             else throughCrc)"

text \<open>
  What a receiver reads in the header of a frame on the wire: sequence number, source
  system and source component. The shortest frame is a header, one payload byte and
  the checksum.
\<close>

definition frameSource :: "byte list \<Rightarrow> (byte \<times> byte \<times> byte) option" where
  "frameSource bs =
     (if 6 \<le> length bs \<and> bs ! 0 = 0xFE then Some (bs ! 2, bs ! 3, bs ! 4)
      else if 10 \<le> length bs \<and> bs ! 0 = 0xFD then Some (bs ! 4, bs ! 5, bs ! 6)
      else None)"

subsection \<open>The node\<close>

text \<open>
  The part of a node that its write operations use: the dialect table, the outgoing
  version, the node's own system and component id, the outgoing key, the node-global
  sequence counter, the signing state (link id and outgoing timestamp) and the
  channels, each named by a number. \<open>written\<close> is the log of what was pushed to the
  channels' write queues, oldest first.
\<close>

datatype nodeError = UnknownMessageId "32 word"

record Node =
  nodeDialect :: "32 word \<rightharpoonup> DecEncoder"
  OutVersion2 :: bool
  OutSystemId :: byte
  OutComponentId :: byte
  OutSignatureKey :: "byte list option"
  outSequenceId :: byte
  outLinkId :: byte
  outTimestamp :: "48 word"
  nodeChannels :: "nat list"
  written :: "(nat \<times> byte list) list"

text \<open>
  Modelled from the spec: what every write operation of the node does with a frame
  (node.go, not among the sources). The frame is serialized once, with the plan of its
  message, the node's next sequence number and the node's signing state, and pushed to
  every channel but the excepted one. The sequence counter is a byte that wraps and is
  the node's, not a channel's; the outgoing timestamp advances with every signed frame.
  The source system and component are those of the frame handed in.
\<close>

definition nodeEmit ::
  "(byte list \<Rightarrow> byte list) \<Rightarrow> Node \<Rightarrow> nat option \<Rightarrow> Frame \<Rightarrow> nodeError + Node" where
  "nodeEmit sha256 n except f =
     (case nodeDialect n (msgId (mtype (Message f))) of
        None \<Rightarrow> Inl (UnknownMessageId (msgId (mtype (Message f))))
      | Some de \<Rightarrow>
          (let f1 = f\<lparr>SequenceId := outSequenceId n, SignatureLinkId := outLinkId n,
                      SignatureTimestamp := outTimestamp n\<rparr>;
               bytes = encodeFrame sha256 de (OutSignatureKey n) f1;
               targets = filter (\<lambda>c. Some c \<noteq> except) (nodeChannels n)
           in Inr (n\<lparr>outSequenceId := outSequenceId n + 1,
                     outTimestamp :=
                       (if isV2 f \<and> OutSignatureKey n \<noteq> None then outTimestamp n + 1
                        else outTimestamp n),
                     written := written n @ map (\<lambda>c. (c, bytes)) targets\<rparr>)))"

text \<open>
  Modelled from the spec: \<^verbatim>\<open>WriteMessageAll\<close> and \<^verbatim>\<open>WriteMessageExcept\<close> (node.go, not
  among the sources): ``encodes m once using node's outgoing system/component id,
  sequence, signing state; pushes the resulting frame to every channel's write queue'',
  or to every channel but one.
\<close>

definition nodeFrameOf :: "Node \<Rightarrow> message \<Rightarrow> Frame" where
  "nodeFrameOf n m =
     \<lparr>isV2 = OutVersion2 n, IncompatibilityFlag = 0, CompatibilityFlag = 0,
      SequenceId = outSequenceId n, SystemId = OutSystemId n, ComponentId = OutComponentId n,
      Message = m, Raw = [], Checksum = 0, SignatureLinkId = outLinkId n,
      SignatureTimestamp = outTimestamp n, Signature = None\<rparr>"

definition WriteMessageExcept ::
  "(byte list \<Rightarrow> byte list) \<Rightarrow> Node \<Rightarrow> nat option \<Rightarrow> message \<Rightarrow> nodeError + Node" where
  "WriteMessageExcept sha256 n except m = nodeEmit sha256 n except (nodeFrameOf n m)"

definition WriteMessageAll ::
  "(byte list \<Rightarrow> byte list) \<Rightarrow> Node \<Rightarrow> message \<Rightarrow> nodeError + Node" where
  "WriteMessageAll sha256 n m = WriteMessageExcept sha256 n None m"

text \<open>
  Modelled from the spec: \<^verbatim>\<open>WriteFrameAll\<close> and \<^verbatim>\<open>WriteFrameExcept\<close> (node.go, not among
  the sources). The specification says that they forward ``an already-decoded frame by
  re-emitting its raw bytes'', re-signed with the outgoing key, and that ``a relayed
  frame gets a fresh sequence'', the relayer's. A new sequence byte changes the
  checksum, so what is written is the frame serialized again from its fields with the
  relayer's sequence number: for a frame whose raw bytes are its serialization these
  are the raw bytes with another sequence byte and checksum.
\<close>

definition WriteFrameExcept ::
  "(byte list \<Rightarrow> byte list) \<Rightarrow> Node \<Rightarrow> nat \<Rightarrow> Frame \<Rightarrow> nodeError + Node" where
  "WriteFrameExcept sha256 n ch f = nodeEmit sha256 n (Some ch) f"

definition WriteFrameAll ::
  "(byte list \<Rightarrow> byte list) \<Rightarrow> Node \<Rightarrow> Frame \<Rightarrow> nodeError + Node" where
  "WriteFrameAll sha256 n f = nodeEmit sha256 n None f"

subsection \<open>Signature verification\<close>

text \<open>
  The security errors of section 7, and the table a channel's parser keeps: for each
  link id, source system and source component the last accepted timestamp. Each
  channel has a table of its own.
\<close>

datatype securityError = SignatureRequired | SignatureInvalid | Replay

type_synonym sigTable = "(byte \<times> byte \<times> byte) \<rightharpoonup> 48 word"

text \<open>
  The bytes of a received signed frame that its signature covers: the raw bytes
  without the 13 bytes of the trailer.
\<close>

definition signedPart :: "Frame \<Rightarrow> byte list" where
  "signedPart f = take (length (Raw f) - 13) (Raw f)"

definition sigSource :: "Frame \<Rightarrow> byte \<times> byte \<times> byte" where
  "sigSource f = (SignatureLinkId f, SystemId f, ComponentId f)"

text \<open>
  Modelled from the spec: the verification of an incoming frame by a parser that has an
  incoming key (parser.go, not among the sources): ``verify the 6-byte signature and the
  monotonic-timestamp rule for the (link, source) tuple'', in this order. A frame with
  no signature is refused as \<open>SignatureRequired\<close>, one whose signature is not the one
  computed with the key as \<open>SignatureInvalid\<close>, one whose timestamp is not greater than
  the last accepted one of its tuple as \<open>Replay\<close>. An accepted frame's timestamp becomes
  the last accepted one of its tuple.
\<close>

definition verifySignature ::
  "(byte list \<Rightarrow> byte list) \<Rightarrow> byte list \<Rightarrow> sigTable \<Rightarrow> Frame \<Rightarrow> securityError + sigTable" where
  "verifySignature sha256 key tbl f =
     (case Signature f of
        None \<Rightarrow> Inl SignatureRequired
      | Some sg \<Rightarrow>
          if sg \<noteq> frameSignature sha256 key (signedPart f) (SignatureLinkId f)
                    (SignatureTimestamp f)
          then Inl SignatureInvalid
          else (case tbl (sigSource f) of
                  None \<Rightarrow> Inr (tbl(sigSource f \<mapsto> SignatureTimestamp f))
                | Some t \<Rightarrow>
                    if SignatureTimestamp f \<le> t then Inl Replay
                    else Inr (tbl(sigSource f \<mapsto> SignatureTimestamp f))))"

text \<open>
  A frame arriving on channel \<open>ch\<close> is verified against that channel's table, and only
  that table changes.
\<close>

definition channelVerify ::
  "(byte list \<Rightarrow> byte list) \<Rightarrow> byte list \<Rightarrow> (nat \<Rightarrow> sigTable) \<Rightarrow> nat \<Rightarrow> Frame
     \<Rightarrow> securityError + (nat \<Rightarrow> sigTable)" where
  "channelVerify sha256 key tbls ch f =
     (case verifySignature sha256 key (tbls ch) f of
        Inl e \<Rightarrow> Inl e
      | Inr tbl' \<Rightarrow> Inr (tbls(ch := tbl')))"

text \<open>
  The tables after a sequence of arrivals, each a channel and a frame: a refused frame
  is dropped and leaves the tables as they were.
\<close>

fun verifyStream ::
  "(byte list \<Rightarrow> byte list) \<Rightarrow> byte list \<Rightarrow> (nat \<Rightarrow> sigTable) \<Rightarrow> (nat \<times> Frame) list
     \<Rightarrow> (nat \<Rightarrow> sigTable)" where
  "verifyStream sha256 key tbls [] = tbls"
| "verifyStream sha256 key tbls ((ch, f) # fs) =
     (case channelVerify sha256 key tbls ch f of
        Inl e \<Rightarrow> verifyStream sha256 key tbls fs
      | Inr tbls' \<Rightarrow> verifyStream sha256 key tbls' fs)"

subsection \<open>The nodes and frames of the node's test\<close>

text \<open>
  src/node_test.go: the dialect of the one message \<^verbatim>\<open>MessageHeartbeat\<close>, the heartbeat
  that every test sends, the node of \<^verbatim>\<open>TestNodeCustom\<close> (system 11, component 1, v2, no
  key, one endpoint) and the router of \<^verbatim>\<open>TestNodeRouting\<close> (system 11, component 1, two
  endpoints), both just created. \<open>receivedFrame\<close> is the heartbeat as the router
  receives it from the node of system 10 and component 1, here with sequence number
  42. \<open>standInHash\<close> takes the place of SHA-256 where a hash has to be run.
\<close>

definition heartbeatDialect :: "(message, msgError) dialectError + DecEncoder DialectDecEncoder" where
  "heartbeatDialect =
     dialectNewDecEncoder (\<lambda>m. msgId (mtype m)) msgNewDecEncoder
       \<lparr>Messages = [zeroMessage MessageHeartbeat]\<rparr>"

definition testMsg :: message where
  "testMsg = \<lparr>mtype = MessageHeartbeat,
      mvalues = [Scalar 7, Scalar 5, Scalar 4, Scalar 3, Scalar 2, Scalar 1]\<rparr>"

definition customNode :: "(32 word \<rightharpoonup> DecEncoder) \<Rightarrow> Node" where
  "customNode tbl =
     \<lparr>nodeDialect = tbl, OutVersion2 = True, OutSystemId = 11, OutComponentId = 1,
      OutSignatureKey = None, outSequenceId = 0, outLinkId = 0, outTimestamp = 0,
      nodeChannels = [0], written = []\<rparr>"

definition routerNode :: "(32 word \<rightharpoonup> DecEncoder) \<Rightarrow> Node" where
  "routerNode tbl =
     \<lparr>nodeDialect = tbl, OutVersion2 = True, OutSystemId = 11, OutComponentId = 1,
      OutSignatureKey = None, outSequenceId = 0, outLinkId = 0, outTimestamp = 0,
      nodeChannels = [0, 1], written = []\<rparr>"

definition receivedFrame :: Frame where
  "receivedFrame =
     \<lparr>isV2 = True, IncompatibilityFlag = 0, CompatibilityFlag = 0, SequenceId = 42,
      SystemId = 10, ComponentId = 1, Message = testMsg,
      Raw = [0xFD, 0x09, 0x00, 0x00, 0x2A, 0x0A, 0x01, 0x00, 0x00, 0x00,
             0x03, 0x00, 0x00, 0x00, 0x07, 0x05, 0x04, 0x02, 0x01, 0x41, 0x9D],
      Checksum = 0x9D41, SignatureLinkId = 0, SignatureTimestamp = 0, Signature = None\<rparr>"

definition standInHash :: "byte list \<Rightarrow> byte list" where
  "standInHash bs = replicate 32 (foldl (+) 0 bs)"

definition key1 :: "byte list" where
  "key1 = replicate 32 0x4F"

definition signedFrame :: Frame where
  "signedFrame =
     \<lparr>isV2 = True, IncompatibilityFlag = 1, CompatibilityFlag = 0, SequenceId = 0,
      SystemId = 10, ComponentId = 1, Message = testMsg,
      Raw = [0xFD, 0x09, 0x01, 0x00, 0x00, 0x0A, 0x01, 0x00, 0x00, 0x00,
             0x03, 0x00, 0x00, 0x00, 0x07, 0x05, 0x04, 0x02, 0x01, 0x52, 0x6A,
             0x00, 0xE8, 0x03, 0x00, 0x00, 0x00, 0x00,
             0xAF, 0xAF, 0xAF, 0xAF, 0xAF, 0xAF],
      Checksum = 0x6A52, SignatureLinkId = 0, SignatureTimestamp = 1000,
      Signature = Some [0xAF, 0xAF, 0xAF, 0xAF, 0xAF, 0xAF]\<rparr>"

subsection \<open>The frames of the test, serialized\<close>

lemma msgId_MessageHeartbeat: "msgId MessageHeartbeat = 0"
  by (simp add: MessageHeartbeat_def)

lemma heartbeatDialect_eq:
  "\<exists>tbl de. heartbeatDialect = Inr \<lparr>MessageDEs = tbl\<rparr> \<and> tbl 0 = Some de \<and>
     msgNewDecEncoder testMsg = Inr de"
  by (simp add: heartbeatDialect_def dialectNewDecEncoder_def zeroMessage_def heartbeat_plan
      msgId_MessageHeartbeat testMsg_def)

lemma testMsg_payload:
  assumes "msgNewDecEncoder testMsg = Inr de"
  shows "msgEncode de testMsg True = [3, 0, 0, 0, 7, 5, 4, 2, 1]" and "crcExtra de = 50"
  using assms by (auto simp: heartbeat_plan testMsg_def encode_eval)

lemmas crc_run = leBytes_numeral x25_def crcByte_def crcShift_def

lemma testMsg_frame:
  assumes "msgNewDecEncoder testMsg = Inr de"
  shows "encodeFrame sha256 de None (nodeFrameOf (customNode tbl) testMsg) =
        [0xFD, 0x09, 0x00, 0x00, 0x00, 0x0B, 0x01, 0x00, 0x00, 0x00,
         0x03, 0x00, 0x00, 0x00, 0x07, 0x05, 0x04, 0x02, 0x01, 0x9F, 0xDA]"
proof -
  note p = testMsg_payload [OF assms]
  have "encodeFrame sha256 de None (nodeFrameOf (customNode tbl) testMsg) =
      [0xFD, 9, 0, 0, 0, 11, 1] @ leBytes 3 (unat (msgId (mtype testMsg))) @
      [3, 0, 0, 0, 7, 5, 4, 2, 1] @
      (let crc = x25 ([9, 0, 0, 0, 11, 1] @ leBytes 3 (unat (msgId (mtype testMsg))) @
                       [3, 0, 0, 0, 7, 5, 4, 2, 1] @ [50])
       in [ucast crc, ucast (drop_bit 8 crc)])"
    by (simp add: encodeFrame_def nodeFrameOf_def customNode_def Let_def p frameHeader_def
        frameChecksum_def)
  also have "\<dots> = [0xFD, 0x09, 0x00, 0x00, 0x00, 0x0B, 0x01, 0x00, 0x00, 0x00,
         0x03, 0x00, 0x00, 0x00, 0x07, 0x05, 0x04, 0x02, 0x01, 0x9F, 0xDA]"
    by (simp add: testMsg_def msgId_MessageHeartbeat crc_run)
  finally show ?thesis .
qed

text \<open>The raw bytes of \<open>receivedFrame\<close> are its serialization.\<close>

lemma receivedFrame_raw:
  assumes "msgNewDecEncoder testMsg = Inr de"
  shows "encodeFrame sha256 de None receivedFrame = Raw receivedFrame"
proof -
  note p = testMsg_payload [OF assms]
  have "encodeFrame sha256 de None receivedFrame =
      [0xFD, 9, 0, 0, 42, 10, 1] @ leBytes 3 (unat (msgId (mtype testMsg))) @
      [3, 0, 0, 0, 7, 5, 4, 2, 1] @
      (let crc = x25 ([9, 0, 0, 42, 10, 1] @ leBytes 3 (unat (msgId (mtype testMsg))) @
                       [3, 0, 0, 0, 7, 5, 4, 2, 1] @ [50])
       in [ucast crc, ucast (drop_bit 8 crc)])"
    by (simp add: encodeFrame_def receivedFrame_def Let_def p frameHeader_def
        frameChecksum_def)
  also have "\<dots> = [0xFD, 0x09, 0x00, 0x00, 0x2A, 0x0A, 0x01, 0x00, 0x00, 0x00,
         0x03, 0x00, 0x00, 0x00, 0x07, 0x05, 0x04, 0x02, 0x01, 0x41, 0x9D]"
    by (simp add: testMsg_def msgId_MessageHeartbeat crc_run)
  also have "\<dots> = Raw receivedFrame" by (simp add: receivedFrame_def)
  finally show ?thesis .
qed

text \<open>\<open>receivedFrame\<close> with the router's sequence number 0, serialized.\<close>

lemma relayedFrame_bytes:
  assumes "msgNewDecEncoder testMsg = Inr de"
  shows "encodeFrame sha256 de None
           (receivedFrame\<lparr>SequenceId := 0, SignatureLinkId := 0, SignatureTimestamp := 0\<rparr>) =
        [0xFD, 0x09, 0x00, 0x00, 0x00, 0x0A, 0x01, 0x00, 0x00, 0x00,
         0x03, 0x00, 0x00, 0x00, 0x07, 0x05, 0x04, 0x02, 0x01, 0xB5, 0x92]"
proof -
  note p = testMsg_payload [OF assms]
  have "encodeFrame sha256 de None
           (receivedFrame\<lparr>SequenceId := 0, SignatureLinkId := 0, SignatureTimestamp := 0\<rparr>) =
      [0xFD, 9, 0, 0, 0, 10, 1] @ leBytes 3 (unat (msgId (mtype testMsg))) @
      [3, 0, 0, 0, 7, 5, 4, 2, 1] @
      (let crc = x25 ([9, 0, 0, 0, 10, 1] @ leBytes 3 (unat (msgId (mtype testMsg))) @
                       [3, 0, 0, 0, 7, 5, 4, 2, 1] @ [50])
       in [ucast crc, ucast (drop_bit 8 crc)])"
    by (simp add: encodeFrame_def receivedFrame_def Let_def p frameHeader_def
        frameChecksum_def)
  also have "\<dots> = [0xFD, 0x09, 0x00, 0x00, 0x00, 0x0A, 0x01, 0x00, 0x00, 0x00,
         0x03, 0x00, 0x00, 0x00, 0x07, 0x05, 0x04, 0x02, 0x01, 0xB5, 0x92]"
    by (simp add: testMsg_def msgId_MessageHeartbeat crc_run)
  finally show ?thesis .
qed

text \<open>
  The raw bytes of \<open>signedFrame\<close> are what the node of system 10 writes for the
  heartbeat with the key \<open>key1\<close>, link id 0 and timestamp 1000, the stand-in hash in
  the place of SHA-256.
\<close>

lemma signedFrame_raw:
  assumes "msgNewDecEncoder testMsg = Inr de"
  shows "encodeFrame standInHash de (Some key1)
           (signedFrame\<lparr>IncompatibilityFlag := 0, Raw := [], Signature := None\<rparr>) =
         Raw signedFrame"
proof -
  note p = testMsg_payload [OF assms]
  let ?through = "[0xFD, 0x09, 0x01, 0x00, 0x00, 0x0A, 0x01, 0x00, 0x00, 0x00,
         0x03, 0x00, 0x00, 0x00, 0x07, 0x05, 0x04, 0x02, 0x01, 0x52, 0x6A] :: byte list"
  have t: "[0xFD, 9, 1, 0, 0, 10, 1] @ leBytes 3 (unat (msgId (mtype testMsg))) @
      [3, 0, 0, 0, 7, 5, 4, 2, 1] @
      [ucast (x25 ([9, 1, 0, 0, 10, 1] @ leBytes 3 (unat (msgId (mtype testMsg))) @
                       [3, 0, 0, 0, 7, 5, 4, 2, 1] @ [50])),
       ucast (drop_bit 8 (x25 ([9, 1, 0, 0, 10, 1] @ leBytes 3 (unat (msgId (mtype testMsg))) @
                       [3, 0, 0, 0, 7, 5, 4, 2, 1] @ [50])))] = ?through"
    by (simp add: testMsg_def msgId_MessageHeartbeat crc_run)
  have s: "frameSignature standInHash key1 ?through 0 1000 = [0xAF, 0xAF, 0xAF, 0xAF, 0xAF, 0xAF]"
    by (simp add: frameSignature_def standInHash_def key1_def leBytes_numeral
        replicate_numeral_Cons)
  have "encodeFrame standInHash de (Some key1)
           (signedFrame\<lparr>IncompatibilityFlag := 0, Raw := [], Signature := None\<rparr>) =
      (let through = [0xFD, 9, 1, 0, 0, 10, 1] @ leBytes 3 (unat (msgId (mtype testMsg))) @
        [3, 0, 0, 0, 7, 5, 4, 2, 1] @
        [ucast (x25 ([9, 1, 0, 0, 10, 1] @ leBytes 3 (unat (msgId (mtype testMsg))) @
                       [3, 0, 0, 0, 7, 5, 4, 2, 1] @ [50])),
         ucast (drop_bit 8 (x25 ([9, 1, 0, 0, 10, 1] @ leBytes 3 (unat (msgId (mtype testMsg))) @
                       [3, 0, 0, 0, 7, 5, 4, 2, 1] @ [50])))]
       in through @ [0] @ leBytes 6 (unat (1000 :: 48 word)) @
          frameSignature standInHash key1 through 0 1000)"
    by (simp add: encodeFrame_def signedFrame_def Let_def p frameHeader_def
        frameChecksum_def)
  also have "\<dots> = ?through @ [0] @ leBytes 6 (unat (1000 :: 48 word)) @
          frameSignature standInHash key1 ?through 0 1000"
    by (simp only: t Let_def)
  also have "\<dots> = Raw signedFrame"
    by (simp add: s signedFrame_def leBytes_numeral)
  finally show ?thesis .
qed

lemma signedFrame_signature:
  "Signature signedFrame =
     Some (frameSignature standInHash key1 (signedPart signedFrame)
       (SignatureLinkId signedFrame) (SignatureTimestamp signedFrame))"
  by (simp add: signedFrame_def signedPart_def frameSignature_def standInHash_def key1_def
      leBytes_numeral replicate_numeral_Cons)

subsection \<open>The heartbeat of the test on the wire\<close>

text \<open>
  Claim C2. The node of \<^verbatim>\<open>TestNodeCustom\<close>, with system id 11, component id 1, wire
  version 2 and sequence number 0, writes for the heartbeat with Type 7, Autopilot 5,
  BaseMode 4, CustomMode 3, SystemStatus 2 and MavlinkVersion 1 exactly the bytes
  FD 09 00 00 00 0B 01 00 00 00 03 00 00 00 07 05 04 02 01 9F DA to its one channel,
  and its sequence number becomes 1.
\<close>

theorem heartbeat_frame_bytes:
  "\<exists>tbl n. heartbeatDialect = Inr \<lparr>MessageDEs = tbl\<rparr> \<and>
      WriteMessageAll sha256 (customNode tbl) testMsg = Inr n \<and>
      written n =
        [(0, [0xFD, 0x09, 0x00, 0x00, 0x00, 0x0B, 0x01, 0x00, 0x00, 0x00,
              0x03, 0x00, 0x00, 0x00, 0x07, 0x05, 0x04, 0x02, 0x01, 0x9F, 0xDA])] \<and>
      outSequenceId n = 1"
proof -
  from heartbeatDialect_eq obtain tbl de
    where d: "heartbeatDialect = Inr \<lparr>MessageDEs = tbl\<rparr>" and t: "tbl 0 = Some de"
      and plan: "msgNewDecEncoder testMsg = Inr de" by blast
  have id: "msgId (mtype (Message (nodeFrameOf (customNode tbl) testMsg))) = 0"
    by (simp add: nodeFrameOf_def testMsg_def msgId_MessageHeartbeat)
  have f1: "(nodeFrameOf (customNode tbl) testMsg)
      \<lparr>SequenceId := outSequenceId (customNode tbl), SignatureLinkId := outLinkId (customNode tbl),
       SignatureTimestamp := outTimestamp (customNode tbl)\<rparr> = nodeFrameOf (customNode tbl) testMsg"
    by (simp add: nodeFrameOf_def)
  have "WriteMessageAll sha256 (customNode tbl) testMsg =
      Inr ((customNode tbl)\<lparr>outSequenceId := 1,
             written := [(0, encodeFrame sha256 de None (nodeFrameOf (customNode tbl) testMsg))]\<rparr>)"
    unfolding WriteMessageAll_def WriteMessageExcept_def nodeEmit_def id f1 Let_def
    by (simp add: t customNode_def)
  then have w: "WriteMessageAll sha256 (customNode tbl) testMsg =
      Inr ((customNode tbl)\<lparr>outSequenceId := 1,
             written := [(0, [0xFD, 0x09, 0x00, 0x00, 0x00, 0x0B, 0x01, 0x00, 0x00, 0x00,
              0x03, 0x00, 0x00, 0x00, 0x07, 0x05, 0x04, 0x02, 0x01, 0x9F, 0xDA])]\<rparr>)"
    by (simp only: testMsg_frame [OF plan])
  show ?thesis
    by (intro exI conjI, rule d, rule w) simp_all
qed

subsection \<open>Relaying a frame\<close>

lemma frameSource_encodeFrame:
  "frameSource (encodeFrame sha256 de key f) = Some (SequenceId f, SystemId f, ComponentId f)"
proof (cases "isV2 f")
  case True
  then show ?thesis
    by (cases key)
      (simp_all add: encodeFrame_def frameHeader_def frameSource_def Let_def length_leBytes)
next
  case False
  then show ?thesis
    by (cases key) (simp_all add: encodeFrame_def frameHeader_def frameSource_def Let_def)
qed

lemma frameHeader_seq:
  "frameHeader (f\<lparr>SequenceId := s, SignatureLinkId := l, SignatureTimestamp := t\<rparr>) len =
     (frameHeader f len)[seqIndex (isV2 f) := s]"
  by (simp add: frameHeader_def seqIndex_def)

lemma length_frameHeader: "length (frameHeader f len) = (if isV2 f then 10 else 6)"
  by (simp add: frameHeader_def length_leBytes)

lemma encodeFrame_unsigned:
  "encodeFrame sha256 de None f =
     frameHeader f (length (msgEncode de (Message f) (isV2 f))) @
     msgEncode de (Message f) (isV2 f) @
     [ucast (frameChecksum de (tl (frameHeader f (length (msgEncode de (Message f) (isV2 f)))) @
                                  msgEncode de (Message f) (isV2 f))),
      ucast (drop_bit 8 (frameChecksum de
         (tl (frameHeader f (length (msgEncode de (Message f) (isV2 f)))) @
          msgEncode de (Message f) (isV2 f))))]"
  by (simp add: encodeFrame_def Let_def)

lemma relayed_bytes_of_raw:
  "length (encodeFrame h de None
       (f\<lparr>SequenceId := s, SignatureLinkId := l, SignatureTimestamp := t\<rparr>)) =
     length (encodeFrame h de None f) \<and>
   (\<forall>i < length (encodeFrame h de None
       (f\<lparr>SequenceId := s, SignatureLinkId := l, SignatureTimestamp := t\<rparr>)) - 2.
      i \<noteq> seqIndex (isV2 f) \<longrightarrow>
      encodeFrame h de None
        (f\<lparr>SequenceId := s, SignatureLinkId := l, SignatureTimestamp := t\<rparr>) ! i =
      encodeFrame h de None f ! i)"
proof -
  define f1 where "f1 = f\<lparr>SequenceId := s, SignatureLinkId := l, SignatureTimestamp := t\<rparr>"
  let ?p = "msgEncode de (Message f) (isV2 f)"
  let ?h = "frameHeader f (length ?p)"
  have m: "Message f1 = Message f" "isV2 f1 = isV2 f" by (simp_all add: f1_def)
  have h1: "frameHeader f1 (length ?p) = ?h[seqIndex (isV2 f) := s]"
    unfolding f1_def by (rule frameHeader_seq)
  obtain c where e: "encodeFrame h de None f = (?h @ ?p) @ c" and lc: "length c = 2"
    by (simp add: encodeFrame_unsigned)
  obtain c1 where e1: "encodeFrame h de None f1 = (?h[seqIndex (isV2 f) := s] @ ?p) @ c1"
    and lc1: "length c1 = 2"
    by (simp add: encodeFrame_unsigned m h1)
  have len: "length (encodeFrame h de None f1) = length (encodeFrame h de None f)"
    by (simp add: e e1 lc lc1)
  have nth: "\<forall>i < length (encodeFrame h de None f1) - 2. i \<noteq> seqIndex (isV2 f) \<longrightarrow>
             encodeFrame h de None f1 ! i = encodeFrame h de None f ! i"
  proof (intro allI impI)
    fix i
    assume i: "i < length (encodeFrame h de None f1) - 2" and ne: "i \<noteq> seqIndex (isV2 f)"
    from i have il: "i < length (?h @ ?p)" by (simp add: e1 lc1)
    then have il1: "i < length (?h[seqIndex (isV2 f) := s] @ ?p)" by simp
    have "encodeFrame h de None f1 ! i = (?h[seqIndex (isV2 f) := s] @ ?p) ! i"
      unfolding e1 using il1 by (rule nth_append_left)
    also have "\<dots> = (?h @ ?p) ! i"
      using ne by (simp add: nth_append nth_list_update)
    also have "\<dots> = encodeFrame h de None f ! i"
      unfolding e using il by (rule nth_append_left [symmetric])
    finally show "encodeFrame h de None f1 ! i = encodeFrame h de None f ! i" .
  qed
  from len nth show ?thesis unfolding f1_def by (rule conjI)
qed

text \<open>
  Claim C7. When a node that knows the frame's message re-emits a frame with
  \<^verbatim>\<open>WriteFrameExcept\<close>, one serialization of the frame is written to every channel of
  the node but the excepted one. In its header a receiver reads the relayer's sequence
  number and the system id and component id of the frame, those of the original sender
  and not the relayer's own, and the relayer's sequence counter advances by one. When
  the relayer does not sign and the frame's raw bytes are its serialization, the bytes
  written are the raw bytes but for the sequence byte and the two bytes of the
  checksum.
\<close>

theorem relayed_frame_keeps_source:
  assumes "nodeDialect n (msgId (mtype (Message f))) = Some de"
  shows "\<exists>n' bytes. WriteFrameExcept sha256 n ch f = Inr n' \<and>
           written n' =
             written n @ map (\<lambda>c. (c, bytes)) (filter (\<lambda>c. c \<noteq> ch) (nodeChannels n)) \<and>
           frameSource bytes = Some (outSequenceId n, SystemId f, ComponentId f) \<and>
           outSequenceId n' = outSequenceId n + 1 \<and>
           (OutSignatureKey n = None \<longrightarrow> encodeFrame sha256 de None f = Raw f \<longrightarrow>
              length bytes = length (Raw f) \<and>
              (\<forall>i < length bytes - 2. i \<noteq> seqIndex (isV2 f) \<longrightarrow> bytes ! i = Raw f ! i))"
proof -
  let ?f1 = "f\<lparr>SequenceId := outSequenceId n, SignatureLinkId := outLinkId n,
                SignatureTimestamp := outTimestamp n\<rparr>"
  let ?bytes = "encodeFrame sha256 de (OutSignatureKey n) ?f1"
  let ?n' = "n\<lparr>outSequenceId := outSequenceId n + 1,
                outTimestamp :=
                  (if isV2 f \<and> OutSignatureKey n \<noteq> None then outTimestamp n + 1
                   else outTimestamp n),
                written := written n @
                  map (\<lambda>c. (c, ?bytes)) (filter (\<lambda>c. Some c \<noteq> Some ch) (nodeChannels n))\<rparr>"
  have w: "WriteFrameExcept sha256 n ch f = Inr ?n'"
    using assms by (simp add: WriteFrameExcept_def nodeEmit_def Let_def)
  have src: "frameSource ?bytes = Some (outSequenceId n, SystemId f, ComponentId f)"
    by (simp add: frameSource_encodeFrame)
  have raw: "OutSignatureKey n = None \<longrightarrow> encodeFrame sha256 de None f = Raw f \<longrightarrow>
              length ?bytes = length (Raw f) \<and>
              (\<forall>i < length ?bytes - 2. i \<noteq> seqIndex (isV2 f) \<longrightarrow> ?bytes ! i = Raw f ! i)"
  proof (intro impI)
    assume k: "OutSignatureKey n = None" and r: "encodeFrame sha256 de None f = Raw f"
    from relayed_bytes_of_raw [where h = sha256 and de = de and f = f
        and s = "outSequenceId n" and l = "outLinkId n" and t = "outTimestamp n", unfolded r]
    show "length ?bytes = length (Raw f) \<and>
              (\<forall>i < length ?bytes - 2. i \<noteq> seqIndex (isV2 f) \<longrightarrow> ?bytes ! i = Raw f ! i)"
      unfolding k .
  qed
  have wr: "written ?n' =
      written n @ map (\<lambda>c. (c, ?bytes)) (filter (\<lambda>c. c \<noteq> ch) (nodeChannels n))"
    by simp
  have sq: "outSequenceId ?n' = outSequenceId n + 1" by simp
  show ?thesis
    by (rule exI [of _ ?n'], rule exI [of _ ?bytes])
      (rule conjI [OF w conjI [OF wr conjI [OF src conjI [OF sq raw]]]])
qed

text \<open>
  The theorem on the router of \<^verbatim>\<open>TestNodeRouting\<close>, which has system id 11 and component
  id 1 and re-emits the heartbeat received on channel 0 from system 10, component 1: it
  is written to channel 1 only, with source (10, 1) and the router's sequence number 0.
\<close>

theorem relayed_frame_keeps_source_witness:
  "\<exists>tbl de n'. heartbeatDialect = Inr \<lparr>MessageDEs = tbl\<rparr> \<and>
      nodeDialect (routerNode tbl) (msgId (mtype (Message receivedFrame))) = Some de \<and>
      OutSignatureKey (routerNode tbl) = None \<and>
      encodeFrame standInHash de None receivedFrame = Raw receivedFrame \<and>
      WriteFrameExcept standInHash (routerNode tbl) 0 receivedFrame = Inr n' \<and>
      written n' =
        [(1, [0xFD, 0x09, 0x00, 0x00, 0x00, 0x0A, 0x01, 0x00, 0x00, 0x00,
              0x03, 0x00, 0x00, 0x00, 0x07, 0x05, 0x04, 0x02, 0x01, 0xB5, 0x92])] \<and>
      frameSource [0xFD, 0x09, 0x00, 0x00, 0x00, 0x0A, 0x01, 0x00, 0x00, 0x00,
              0x03, 0x00, 0x00, 0x00, 0x07, 0x05, 0x04, 0x02, 0x01, 0xB5, 0x92] = Some (0, 10, 1) \<and>
      (OutSystemId (routerNode tbl), OutComponentId (routerNode tbl)) = (11, 1) \<and>
      outSequenceId n' = 1"
proof -
  from heartbeatDialect_eq obtain tbl de
    where d: "heartbeatDialect = Inr \<lparr>MessageDEs = tbl\<rparr>" and t: "tbl 0 = Some de"
      and plan: "msgNewDecEncoder testMsg = Inr de"
    by blast
  let ?out = "[0xFD, 0x09, 0x00, 0x00, 0x00, 0x0A, 0x01, 0x00, 0x00, 0x00,
              0x03, 0x00, 0x00, 0x00, 0x07, 0x05, 0x04, 0x02, 0x01, 0xB5, 0x92] :: byte list"
  have k: "nodeDialect (routerNode tbl) (msgId (mtype (Message receivedFrame))) = Some de"
    by (simp add: routerNode_def receivedFrame_def testMsg_def msgId_MessageHeartbeat t)
  have u: "OutSignatureKey (routerNode tbl) = None" by (simp add: routerNode_def)
  note r = receivedFrame_raw [OF plan, of standInHash]
  from relayed_frame_keeps_source [OF k, of standInHash 0]
  obtain n' bytes
    where w: "WriteFrameExcept standInHash (routerNode tbl) 0 receivedFrame = Inr n'"
    and q: "written n' = written (routerNode tbl) @
        map (\<lambda>c. (c, bytes)) (filter (\<lambda>c. c \<noteq> 0) (nodeChannels (routerNode tbl)))"
    and src: "frameSource bytes =
        Some (outSequenceId (routerNode tbl), SystemId receivedFrame, ComponentId receivedFrame)"
    and sq: "outSequenceId n' = outSequenceId (routerNode tbl) + 1"
    and raw: "OutSignatureKey (routerNode tbl) = None \<longrightarrow>
        encodeFrame standInHash de None receivedFrame = Raw receivedFrame \<longrightarrow>
        length bytes = length (Raw receivedFrame) \<and>
        (\<forall>i < length bytes - 2. i \<noteq> seqIndex (isV2 receivedFrame) \<longrightarrow>
           bytes ! i = Raw receivedFrame ! i)"
    by (elim exE conjE) (rule that, assumption+)
  from q have q': "written n' = [(1, bytes)]" by (simp add: routerNode_def)
  have w2: "WriteFrameExcept standInHash (routerNode tbl) 0 receivedFrame =
      Inr ((routerNode tbl)\<lparr>outSequenceId := 1, written := [(1, ?out)]\<rparr>)"
    using relayedFrame_bytes [OF plan, of standInHash] k
    by (simp add: WriteFrameExcept_def nodeEmit_def Let_def routerNode_def)
  have "Inr n' = (Inr ((routerNode tbl)\<lparr>outSequenceId := 1, written := [(1, ?out)]\<rparr>)
      :: nodeError + Node)"
    by (rule trans [OF w [symmetric] w2])
  then have "n' = (routerNode tbl)\<lparr>outSequenceId := 1, written := [(1, ?out)]\<rparr>"
    by (simp only: sum.inject)
  then have "written n' = [(1, ?out)]" by simp
  with q' have b: "bytes = ?out" by simp
  from q' b have q'': "written n' = [(1, ?out)]" by simp
  from src b have src': "frameSource ?out = Some (0, 10, 1)"
    by (simp add: routerNode_def receivedFrame_def)
  from sq have sq': "outSequenceId n' = 1" by (simp add: routerNode_def)
  have own: "(OutSystemId (routerNode tbl), OutComponentId (routerNode tbl)) = (11, 1)"
    by (simp add: routerNode_def)
  show ?thesis
    by (rule exI [of _ tbl], rule exI [of _ de], rule exI [of _ n'])
      (rule conjI [OF d conjI [OF k conjI [OF u conjI [OF r conjI [OF w conjI [OF q''
        conjI [OF src' conjI [OF own sq']]]]]]]])
qed

subsection \<open>Replayed frames\<close>

lemma verifySignature_mono:
  assumes "tbl k = Some t" and "verifySignature sha256 key tbl f = Inr tbl'"
  shows "\<exists>t'. tbl' k = Some t' \<and> t \<le> t'"
  using assms
  by (auto simp: verifySignature_def split: option.splits if_splits)

lemma channelVerify_mono:
  assumes "tbls c k = Some t" and "channelVerify sha256 key tbls ch f = Inr tbls'"
  shows "\<exists>t'. tbls' c k = Some t' \<and> t \<le> t'"
proof -
  from assms(2) obtain tbl' where v: "verifySignature sha256 key (tbls ch) f = Inr tbl'"
    and e: "tbls' = tbls(ch := tbl')"
    by (auto simp: channelVerify_def split: sum.splits)
  show ?thesis
  proof (cases "c = ch")
    case True
    with assms(1) have "tbls ch k = Some t" by simp
    from verifySignature_mono [where tbl = "tbls ch" and k = k, OF this v]
    show ?thesis by (simp add: e True)
  next
    case False
    with assms(1) show ?thesis by (simp add: e)
  qed
qed

lemma verifyStream_mono:
  "tbls c k = Some t \<Longrightarrow> \<exists>t'. verifyStream sha256 key tbls fs c k = Some t' \<and> t \<le> t'"
proof (induction fs arbitrary: tbls t)
  case Nil
  then show ?case by simp
next
  case (Cons a fs)
  obtain ch f where a: "a = (ch, f)" by (cases a)
  show ?case
  proof (cases "channelVerify sha256 key tbls ch f")
    case (Inl e)
    with Cons a show ?thesis by simp
  next
    case (Inr tbls')
    from channelVerify_mono [where tbls = tbls and c = c and k = k, OF Cons.prems Inr]
    obtain t1 where t1: "tbls' c k = Some t1" "t \<le> t1" by blast
    from Cons.IH [where tbls = tbls' and t = t1, OF t1(1)]
    obtain t' where "verifyStream sha256 key tbls' fs c k = Some t'" "t1 \<le> t'" by blast
    with t1 Inr a show ?thesis by auto
  qed
qed

lemma channelVerify_old:
  assumes "tbls ch (sigSource f) = Some t" and "SignatureTimestamp f \<le> t"
  shows "\<exists>e. channelVerify sha256 key tbls ch f = Inl e"
    and "Signature f = Some (frameSignature sha256 key (signedPart f) (SignatureLinkId f)
            (SignatureTimestamp f)) \<Longrightarrow> channelVerify sha256 key tbls ch f = Inl Replay"
  using assms by (auto simp: channelVerify_def verifySignature_def split: option.splits)

lemma channelVerify_accept:
  assumes "channelVerify sha256 key tbls ch f = Inr tbls'"
  shows "tbls' ch (sigSource f) = Some (SignatureTimestamp f)"
    and "Signature f = Some (frameSignature sha256 key (signedPart f) (SignatureLinkId f)
            (SignatureTimestamp f))"
    and "\<forall>t. tbls ch (sigSource f) = Some t \<longrightarrow> t < SignatureTimestamp f"
    and "\<forall>c. c \<noteq> ch \<longrightarrow> tbls' c = tbls c"
  using assms
  by (auto simp: channelVerify_def verifySignature_def split: option.splits if_splits)

text \<open>
  Claim C9. A frame arriving on a channel whose timestamp is not greater than the last
  accepted timestamp recorded for its link id, source system and source component on
  that channel is never accepted, and when its signature is the right one for the key
  it is refused as a replay. When a frame is accepted, its timestamp is recorded for its
  tuple on its channel, it was greater than the one recorded before, and the tables
  of the other channels stay as they were; whatever frames arrive afterwards on any
  channels, the same frame arriving again on that channel is refused as a replay.
\<close>

theorem replay_rejected:
  "(\<forall>t. tbls ch (SignatureLinkId f, SystemId f, ComponentId f) = Some t \<longrightarrow>
        SignatureTimestamp f \<le> t \<longrightarrow>
        (\<exists>e. channelVerify sha256 key tbls ch f = Inl e) \<and>
        (Signature f = Some (frameSignature sha256 key (signedPart f) (SignatureLinkId f)
            (SignatureTimestamp f)) \<longrightarrow> channelVerify sha256 key tbls ch f = Inl Replay)) \<and>
   (\<forall>tbls'. channelVerify sha256 key tbls ch f = Inr tbls' \<longrightarrow>
        tbls' ch (SignatureLinkId f, SystemId f, ComponentId f) = Some (SignatureTimestamp f) \<and>
        (\<forall>t. tbls ch (SignatureLinkId f, SystemId f, ComponentId f) = Some t \<longrightarrow>
           t < SignatureTimestamp f) \<and>
        (\<forall>c. c \<noteq> ch \<longrightarrow> tbls' c = tbls c) \<and>
        (\<forall>fs. channelVerify sha256 key (verifyStream sha256 key tbls' fs) ch f = Inl Replay))"
proof (intro conjI allI impI)
  fix t
  assume a: "tbls ch (SignatureLinkId f, SystemId f, ComponentId f) = Some t"
    "SignatureTimestamp f \<le> t"
  then have s: "tbls ch (sigSource f) = Some t" by (simp add: sigSource_def)
  from channelVerify_old(1) [where tbls = tbls and ch = ch and f = f, OF s a(2)]
  show "\<exists>e. channelVerify sha256 key tbls ch f = Inl e" .
  assume "Signature f = Some (frameSignature sha256 key (signedPart f) (SignatureLinkId f)
            (SignatureTimestamp f))"
  from channelVerify_old(2) [where tbls = tbls and ch = ch and f = f, OF s a(2) this]
  show "channelVerify sha256 key tbls ch f = Inl Replay" .
next
  fix tbls'
  assume acc: "channelVerify sha256 key tbls ch f = Inr tbls'"
  note r = channelVerify_accept [OF acc]
  from r(1) show "tbls' ch (SignatureLinkId f, SystemId f, ComponentId f) = Some (SignatureTimestamp f)"
    by (simp add: sigSource_def)
  fix fs
  from verifyStream_mono [where tbls = tbls' and c = ch and k = "sigSource f" and fs = fs, OF r(1)]
  obtain t' where t': "verifyStream sha256 key tbls' fs ch (sigSource f) = Some t'"
    "SignatureTimestamp f \<le> t'"
    by blast
  from channelVerify_old(2)
    [where tbls = "verifyStream sha256 key tbls' fs" and ch = ch and f = f, OF t' r(2)]
  show "channelVerify sha256 key (verifyStream sha256 key tbls' fs) ch f = Inl Replay" .
next
  fix tbls' t
  assume acc: "channelVerify sha256 key tbls ch f = Inr tbls'"
    and "tbls ch (SignatureLinkId f, SystemId f, ComponentId f) = Some t"
  with channelVerify_accept(3) [OF acc] show "t < SignatureTimestamp f"
    by (simp add: sigSource_def)
next
  fix tbls' c
  assume acc: "channelVerify sha256 key tbls ch f = Inr tbls'" and "c \<noteq> ch"
  with channelVerify_accept(4) [OF acc] show "tbls' c = tbls c" by blast
qed

text \<open>
  The theorem on the signed heartbeat of \<^verbatim>\<open>TestNodeFrameSignature\<close>, from system 10 and
  component 1 with the key of 32 bytes 0x4F, link id 0 and timestamp 1000, arriving on
  channel 0 of a node that has accepted nothing yet: the first arrival is accepted and
  1000 is recorded, and the same frame arriving again is refused as a replay, at once
  and after other arrivals.
\<close>

theorem replay_rejected_witness:
  "\<exists>tbls'. channelVerify standInHash key1 (\<lambda>c. Map.empty) 0 signedFrame = Inr tbls' \<and>
      tbls' 0 (0, 10, 1) = Some 1000 \<and>
      tbls' 1 = Map.empty \<and>
      SignatureTimestamp signedFrame \<le> 1000 \<and>
      channelVerify standInHash key1 tbls' 0 signedFrame = Inl Replay \<and>
      channelVerify standInHash key1
        (verifyStream standInHash key1 tbls' [(1, signedFrame), (0, signedFrame)])
        0 signedFrame = Inl Replay"
proof -
  let ?t0 = "(\<lambda>c. Map.empty) :: nat \<Rightarrow> sigTable"
  have v: "verifySignature standInHash key1 Map.empty signedFrame =
      Inr [sigSource signedFrame \<mapsto> SignatureTimestamp signedFrame]"
    using signedFrame_signature by (simp add: verifySignature_def)
  then obtain tbls' where acc: "channelVerify standInHash key1 ?t0 0 signedFrame = Inr tbls'"
    by (simp add: channelVerify_def)
  have ids: "SignatureLinkId signedFrame = 0" "SystemId signedFrame = 10"
    "ComponentId signedFrame = 1" "SignatureTimestamp signedFrame = 1000"
    by (simp_all add: signedFrame_def)
  note first = replay_rejected [of ?t0 0 signedFrame standInHash key1]
  from first acc have rec: "tbls' 0 (0, 10, 1) = Some 1000"
    and other: "tbls' 1 = Map.empty"
    and later: "\<forall>fs. channelVerify standInHash key1 (verifyStream standInHash key1 tbls' fs)
        0 signedFrame = Inl Replay"
    by (simp_all add: ids)
  have le: "SignatureTimestamp signedFrame \<le> 1000" by (simp add: ids)
  note again = replay_rejected [of tbls' 0 signedFrame standInHash key1]
  from again rec le signedFrame_signature
  have rep: "channelVerify standInHash key1 tbls' 0 signedFrame = Inl Replay"
    by (simp add: ids)
  from later have rep2: "channelVerify standInHash key1
        (verifyStream standInHash key1 tbls' [(1, signedFrame), (0, signedFrame)])
        0 signedFrame = Inl Replay" by blast
  show ?thesis
    by (rule exI [of _ tbls'])
      (rule conjI [OF acc conjI [OF rec conjI [OF other conjI [OF le conjI [OF rep rep2]]]]])
qed

end
